(* ===== verification/Riaps_Prelude.thy ===== *)
theory Riaps_Prelude
  imports Main "HOL-Library.Char_ord" "HOL-Library.List_Lexorder" "HOL-Library.Word"
begin

text \<open>
  Shared ground of the development: machine integers, the clock, the C++ string
  functions the sources call, and the two associative containers of the standard
  library (\<^verbatim>\<open>std::map\<close>, iterated in key order, and \<^verbatim>\<open>std::unordered_map\<close>) behind
  one interface, the locale \<open>kv_store\<close>, with its client lemmas.  The locales
  \<open>event_loop\<close>, \<open>machine\<close> and \<open>simulation\<close> carry what one step does to the runs of a
  thread; the components interpret them on their step functions.
\<close>

named_theorems store_simps \<open>lookup after insertion, deletion and filtering in the containers\<close>

section \<open>Types\<close>

type_synonym u16 = "16 word"
type_synonym u32 = "32 word"
type_synonym u64 = "64 word"

text \<open>
  Several readings of a clock may happen inside one call.  A \<open>clock\<close> gives the k-th
  reading of the call; nothing makes two readings equal.  Where a lemma needs the
  documented behaviour of \<^verbatim>\<open>steady_clock\<close> it assumes \<open>mono clk\<close>.
\<close>

type_synonym clock = "nat \<Rightarrow> int"

text \<open>A long stored into an Int32 field of a message keeps its low 32 bits.\<close>

definition trunc32 :: "int \<Rightarrow> int" where
  "trunc32 i = sint (word_of_int i :: 32 word)"

lemma trunc32_id: "- (2 ^ 31) \<le> i \<Longrightarrow> i < 2 ^ 31 \<Longrightarrow> trunc32 i = i"
  unfolding trunc32_def by (simp add: sint_sbintrunc' signed_take_bit_int_eq_self_iff)

section \<open>Strings\<close>

text \<open>\<^verbatim>\<open>std::string::find(char)\<close>: the position of the first occurrence, or npos.\<close>

fun find_char :: "char \<Rightarrow> string \<Rightarrow> nat option" where
  "find_char c [] = None"
| "find_char c (x # xs) = (if x = c then Some 0 else map_option Suc (find_char c xs))"

text \<open>\<^verbatim>\<open>std::string::find(const string&)\<close>.\<close>

fun starts_with :: "string \<Rightarrow> string \<Rightarrow> bool" where
  "starts_with [] ys = True"
| "starts_with (x # xs) [] = False"
| "starts_with (x # xs) (y # ys) = (x = y \<and> starts_with xs ys)"

fun find_str :: "string \<Rightarrow> string \<Rightarrow> nat option" where
  "find_str p [] = (if p = [] then Some 0 else None)"
| "find_str p (x # xs) =
     (if starts_with p (x # xs) then Some 0 else map_option Suc (find_str p xs))"

lemma starts_with_append [simp]: "starts_with p (p @ s)"
  by (induction p) auto

lemma starts_with_iff: "starts_with p s \<longleftrightarrow> (\<exists>t. s = p @ t)"
  by (induction p s rule: starts_with.induct) auto

lemma find_char_None: "find_char c s = None \<longleftrightarrow> c \<notin> set s"
  by (induction s) auto

lemma find_char_append: "c \<notin> set s \<Longrightarrow> find_char c (s @ c # t) = Some (length s)"
  by (induction s) auto

lemma find_char_Some:
  "find_char c s = Some i \<Longrightarrow>
     i < length s \<and> s ! i = c \<and> c \<notin> set (take i s) \<and> s = take i s @ c # drop (Suc i) s"
  by (induction s arbitrary: i) (auto split: if_splits)

lemma find_str_prefix: "find_str p (p @ s) = Some 0"
  by (cases "p @ s") (auto simp flip: append_Cons, metis starts_with_append)

lemma find_str_None: "find_str p s = None \<longleftrightarrow> \<not> (\<exists>u v. s = u @ p @ v)"
proof (induction s)
  case Nil
  then show ?case by auto
next
  case (Cons x xs)
  have "(\<exists>u v. x # xs = u @ p @ v) \<longleftrightarrow>
      starts_with p (x # xs) \<or> (\<exists>u v. xs = u @ p @ v)"
    by (auto simp: starts_with_iff Cons_eq_append_conv)
  with Cons show ?case by auto
qed

section \<open>Decimal numbers: to_string and stoi\<close>

definition digit_char :: "nat \<Rightarrow> char" where
  "digit_char d = char_of (48 + d)"

definition is_digit :: "char \<Rightarrow> bool" where
  "is_digit c \<longleftrightarrow> 48 \<le> (of_char c :: nat) \<and> (of_char c :: nat) \<le> 57"

definition is_space :: "char \<Rightarrow> bool" where
  "is_space c \<longleftrightarrow> (of_char c :: nat) = 32 \<or> 9 \<le> (of_char c :: nat) \<and> (of_char c :: nat) \<le> 13"

text \<open>\<^verbatim>\<open>std::to_string\<close> and fmt's \<open>{}\<close> on integers.\<close>

fun to_string_nat :: "nat \<Rightarrow> string" where
  "to_string_nat n =
     (if n < 10 then [digit_char n] else to_string_nat (n div 10) @ [digit_char (n mod 10)])"

declare to_string_nat.simps [simp del]

definition to_string_int :: "int \<Rightarrow> string" where
  "to_string_int i = (if i < 0 then CHR ''-'' # to_string_nat (nat (- i)) else to_string_nat (nat i))"

text \<open>
  \<^verbatim>\<open>std::stoi\<close>: white space is skipped, an optional sign and the longest run of
  digits are read, the rest of the string is ignored.  It throws
  \<^verbatim>\<open>invalid_argument\<close> without a digit and \<^verbatim>\<open>out_of_range\<close> outside of int.
\<close>

datatype stoi_error = Invalid_argument | Out_of_range

definition digits_val :: "string \<Rightarrow> int" where
  "digits_val ds = foldl (\<lambda>a c. 10 * a + (of_char c - 48)) 0 ds"

definition split_sign :: "string \<Rightarrow> bool \<times> string" where
  "split_sign s = (case s of [] \<Rightarrow> (False, [])
     | c # t \<Rightarrow> if c = CHR ''-'' then (True, t) else if c = CHR ''+'' then (False, t) else (False, s))"

definition stoi :: "string \<Rightarrow> stoi_error + int" where
  "stoi s =
     (let (neg, r) = split_sign (dropWhile is_space s);
          ds = takeWhile is_digit r;
          v = (if neg then - digits_val ds else digits_val ds)
      in if ds = [] then Inl Invalid_argument
         else if v < - (2 ^ 31) \<or> 2 ^ 31 \<le> v then Inl Out_of_range
         else Inr v)"

lemma of_digit_char: "d < 10 \<Longrightarrow> (of_char (digit_char d) :: nat) = 48 + d"
  unfolding digit_char_def by (subst of_char_of) simp

lemma of_digit_char_int: "d < 10 \<Longrightarrow> (of_char (digit_char d) :: int) = 48 + int d"
  using of_digit_char [of d] by (metis of_nat_of_char of_nat_add of_nat_numeral)

lemma is_digit_digit_char [simp]: "d < 10 \<Longrightarrow> is_digit (digit_char d)"
  by (simp add: is_digit_def of_digit_char)

lemma to_string_nat_digits: "c \<in> set (to_string_nat n) \<Longrightarrow> is_digit c"
proof (induction n rule: to_string_nat.induct)
  case (1 n)
  then show ?case by (subst (asm) (2) to_string_nat.simps) (auto split: if_splits)
qed

lemma to_string_nat_nonempty [simp]: "to_string_nat n \<noteq> []"
  by (subst to_string_nat.simps) simp

lemma digits_val_to_string_nat: "digits_val (to_string_nat n) = int n"
proof (induction n rule: to_string_nat.induct)
  case (1 n)
  show ?case
  proof (cases "n < 10")
    case True
    then show ?thesis by (subst to_string_nat.simps) (simp add: digits_val_def of_digit_char_int)
  next
    case False
    with 1 have "digits_val (to_string_nat (n div 10)) = int (n div 10)" by simp
    with False show ?thesis
      by (subst to_string_nat.simps)
        (simp add: digits_val_def of_digit_char_int zdiv_int zmod_int)
  qed
qed

lemma digit_not_special:
  "is_digit c \<Longrightarrow> \<not> is_space c \<and> c \<noteq> CHR ''-'' \<and> c \<noteq> CHR ''+'' \<and> c \<noteq> CHR '':'' \<and> c \<noteq> CHR ''/''"
  by (auto simp: is_digit_def is_space_def)

lemma stoi_digits:
  assumes "ds \<noteq> []" and "\<And>c. c \<in> set ds \<Longrightarrow> is_digit c" and "digits_val ds < 2 ^ 31"
    and "0 \<le> digits_val ds"
  shows "stoi ds = Inr (digits_val ds)"
proof -
  obtain c t where ds: "ds = c # t" using assms(1) by (cases ds) auto
  have c: "is_digit c" using assms(2) ds by simp
  have "takeWhile is_digit ds = ds" using assms(2) by (subst takeWhile_eq_all_conv) simp
  moreover have "split_sign (dropWhile is_space ds) = (False, ds)"
    using digit_not_special [OF c] by (simp add: ds split_sign_def)
  ultimately show ?thesis using assms(1,3,4) by (simp add: stoi_def Let_def del: takeWhile_eq_all_conv)
qed

lemma stoi_to_string_nat: "n < 2 ^ 31 \<Longrightarrow> stoi (to_string_nat n) = Inr (int n)"
  using stoi_digits [of "to_string_nat n"] to_string_nat_digits digits_val_to_string_nat [of n]
  by simp

lemma colon_notin_to_string_nat [simp]: "CHR '':'' \<notin> set (to_string_nat n)"
  using to_string_nat_digits digit_not_special by blast

lemma to_string_nat_inject: "to_string_nat m = to_string_nat n \<Longrightarrow> m = n"
  by (metis digits_val_to_string_nat of_nat_eq_iff)

section \<open>Containers\<close>

text \<open>
  \<^verbatim>\<open>std::map\<close> is an association list kept sorted by key, so that iterating it is
  going through the list.  \<^verbatim>\<open>std::unordered_map\<close> is an association list with distinct
  keys in some order; the standard leaves the order open.
\<close>

type_synonym ('k, 'v) omap = "('k \<times> 'v) list"
type_synonym ('k, 'v) umap = "('k \<times> 'v) list"

fun om_put :: "'k::linorder \<Rightarrow> 'v \<Rightarrow> ('k, 'v) omap \<Rightarrow> ('k, 'v) omap" where
  "om_put k v [] = [(k, v)]"
| "om_put k v ((a, b) # m) =
     (if k < a then (k, v) # (a, b) # m
      else if a < k then (a, b) # om_put k v m
      else (k, v) # m)"

fun um_put :: "'k \<Rightarrow> 'v \<Rightarrow> ('k, 'v) umap \<Rightarrow> ('k, 'v) umap" where
  "um_put k v [] = [(k, v)]"
| "um_put k v ((a, b) # m) = (if a = k then (k, v) # m else (a, b) # um_put k v m)"

definition kv_del :: "'k \<Rightarrow> ('k \<times> 'v) list \<Rightarrow> ('k \<times> 'v) list" where
  "kv_del k m = filter (\<lambda>p. fst p \<noteq> k) m"

definition om_inv :: "('k::linorder, 'v) omap \<Rightarrow> bool" where
  "om_inv m \<longleftrightarrow> sorted_wrt (<) (map fst m)"

definition um_inv :: "('k, 'v) umap \<Rightarrow> bool" where
  "um_inv m \<longleftrightarrow> distinct (map fst m)"

locale kv_store =
  fixes put :: "'k \<Rightarrow> 'v \<Rightarrow> ('k \<times> 'v) list \<Rightarrow> ('k \<times> 'v) list"
    and inv :: "('k \<times> 'v) list \<Rightarrow> bool"
  assumes get_put: "inv m \<Longrightarrow> map_of (put k v m) = (map_of m)(k \<mapsto> v)"
    and inv_empty: "inv []"
    and inv_put: "inv m \<Longrightarrow> inv (put k v m)"
    and inv_filter: "inv m \<Longrightarrow> inv (filter P m)"
    and inv_distinct: "inv m \<Longrightarrow> distinct (map fst m)"
begin

lemma get_del: "map_of (kv_del k m) = (map_of m)(k := None)"
  unfolding kv_del_def by (induction m) auto

lemma inv_del: "inv m \<Longrightarrow> inv (kv_del k m)"
  unfolding kv_del_def by (rule inv_filter)

lemma item_get: "inv m \<Longrightarrow> (k, v) \<in> set m \<longleftrightarrow> map_of m k = Some v"
  using map_of_eq_Some_iff [OF inv_distinct] by metis

lemma get_filter:
  "inv m \<Longrightarrow> map_of (filter P m) k =
     (case map_of m k of None \<Rightarrow> None | Some v \<Rightarrow> if P (k, v) then Some v else None)"
proof -
  assume i: "inv m"
  have "(k, v) \<in> set (filter P m) \<longleftrightarrow> map_of m k = Some v \<and> P (k, v)" for v
    using item_get [OF i] by auto
  then have iff: "map_of (filter P m) k = Some v \<longleftrightarrow> map_of m k = Some v \<and> P (k, v)" for v
    using item_get [OF inv_filter [OF i]] by blast
  show ?thesis
  proof (cases "map_of m k")
    case None
    with iff show ?thesis by (cases "map_of (filter P m) k") auto
  next
    case (Some v)
    show ?thesis
    proof (cases "map_of (filter P m) k")
      case None
      with Some show ?thesis using iff [of v] by auto
    next
      case (Some w)
      with \<open>map_of m k = Some v\<close> show ?thesis using iff [of w] by auto
    qed
  qed
qed

lemma dom_put: "inv m \<Longrightarrow> fst ` set (put k v m) = insert k (fst ` set m)"
  using arg_cong [OF get_put, of m dom k v] by (simp add: dom_map_of_conv_image_fst)

lemma size_put:
  "inv m \<Longrightarrow> length (put k v m) = (if map_of m k = None then Suc (length m) else length m)"
proof -
  assume i: "inv m"
  have "length (put k v m) = card (insert k (fst ` set m))"
    using dom_put [OF i] distinct_card [OF inv_distinct [OF inv_put [OF i]]]
    by (metis image_set length_map)
  moreover have "length m = card (fst ` set m)"
    using distinct_card [OF inv_distinct [OF i]] by (metis image_set length_map)
  ultimately show ?thesis by (auto simp: map_of_eq_None_iff card_insert_if)
qed

lemma put_in: "inv m \<Longrightarrow> (a, b) \<in> set (put k v m) \<longleftrightarrow> (if a = k then b = v else (a, b) \<in> set m)"
  using item_get [of m a b] item_get [OF inv_put, of m a b k v] by (auto simp: get_put)

end

lemma om_put_keys: "fst ` set (om_put k v m) = insert k (fst ` set m)"
  by (induction k v m rule: om_put.induct) auto

lemma om_inv_put: "om_inv m \<Longrightarrow> om_inv (om_put k v m)"
proof (induction k v m rule: om_put.induct)
  case (2 k v a b m)
  then have "om_inv m" by (simp add: om_inv_def)
  with 2 have "a < k \<Longrightarrow> om_inv (om_put k v m)" by simp
  then have step: "a < k \<Longrightarrow> om_inv ((a, b) # om_put k v m)"
    using 2 om_put_keys [of k v m] by (auto simp: om_inv_def)
  show ?case
    using 2 step by (cases "k < a"; cases "a < k") (auto simp: om_inv_def)
qed (simp add: om_inv_def)

lemma om_get_put: "map_of (om_put k v m) = (map_of m)(k \<mapsto> v)"
  by (induction k v m rule: om_put.induct) auto

lemma om_inv_filter: "om_inv m \<Longrightarrow> om_inv (filter P m)"
  unfolding om_inv_def by (induction m) auto

lemma um_put_keys: "fst ` set (um_put k v m) = insert k (fst ` set m)"
  by (induction k v m rule: um_put.induct) auto

lemma um_inv_put: "um_inv m \<Longrightarrow> um_inv (um_put k v m)"
  unfolding um_inv_def
proof (induction k v m rule: um_put.induct)
  case (2 k v a b m)
  then show ?case using um_put_keys [of k v m] by (auto simp flip: image_set)
qed simp

lemma um_get_put: "map_of (um_put k v m) = (map_of m)(k \<mapsto> v)"
  by (induction k v m rule: um_put.induct) auto

interpretation om: kv_store om_put om_inv
proof unfold_locales
  fix m :: "('a::linorder \<times> 'b) list"
  assume "om_inv m"
  then show "distinct (map fst m)"
    by (simp add: om_inv_def strict_sorted_iff)
qed (simp_all add: om_get_put om_inv_put om_inv_filter, simp add: om_inv_def)

interpretation um: kv_store um_put um_inv
proof unfold_locales
  fix m :: "('a \<times> 'b) list" and P
  assume m: "um_inv m"
  show "um_inv (filter P m)" using m by (simp add: um_inv_def distinct_map_filter)
  show "distinct (map fst m)" using m by (simp add: um_inv_def)
qed (simp_all add: um_get_put um_inv_put, simp add: um_inv_def)

declare om_get_put [store_simps] um_get_put [store_simps] om.get_del [store_simps]

text \<open>Splitting at a character, and the lines \<^verbatim>\<open>std::getline\<close> returns one after the other.\<close>

fun split_on :: "char \<Rightarrow> string \<Rightarrow> string list" where
  "split_on c [] = [[]]"
| "split_on c (x # xs) =
     (if x = c then [] # split_on c xs
      else case split_on c xs of [] \<Rightarrow> [[x]] | p # ps \<Rightarrow> (x # p) # ps)"

abbreviation newline :: char where "newline \<equiv> CHR 0x0A"

definition getlines :: "string \<Rightarrow> string list" where
  "getlines s = (let ls = split_on newline s in if last ls = [] then butlast ls else ls)"

lemma split_on_nonempty [simp]: "split_on c s \<noteq> []"
  by (induction c s rule: split_on.induct) (auto split: list.split)

lemma split_on_append: "c \<notin> set l \<Longrightarrow> split_on c (l @ c # s) = l # split_on c s"
  by (induction l) auto

text \<open>A frame read as a C string ends at the first null character.\<close>

definition c_str :: "string \<Rightarrow> string" where
  "c_str s = takeWhile (\<lambda>c. c \<noteq> CHR 0x00) s"

lemma c_str_id: "CHR 0x00 \<notin> set s \<Longrightarrow> c_str s = s"
  by (auto simp: c_str_def takeWhile_eq_all_conv)

section \<open>Machines\<close>

text \<open>
  A component is a step function: an event carries the message that arrives and what
  the environment answers during the call (clock readings, random numbers, return codes).
  A step that may fail returns a sum; \<open>loop\<close> is the loop of a thread over the events that arrive,
  which ends when the thread has stopped or a step fails.
\<close>

fun loop :: "('s \<Rightarrow> bool) \<Rightarrow> ('e \<Rightarrow> 's \<Rightarrow> 'err + 's) \<Rightarrow> 'e list \<Rightarrow> 's \<Rightarrow> 'err + 's" where
  "loop stop step [] s = Inr s"
| "loop stop step (e # es) s =
     (if stop s then Inr s
      else case step e s of Inl err \<Rightarrow> Inl err | Inr s' \<Rightarrow> loop stop step es s')"

lemma loop_preserves:
  assumes "loop stop step es s = Inr s'" "P s"
    and "\<And>e t t'. e \<in> set es \<Longrightarrow> P t \<Longrightarrow> \<not> stop t \<Longrightarrow> step e t = Inr t' \<Longrightarrow> P t'"
  shows "P s'"
  using assms
proof (induction es arbitrary: s)
  case (Cons e es)
  show ?case
  proof (cases "stop s")
    case True
    with Cons.prems show ?thesis by simp
  next
    case False
    with Cons.prems(1) obtain t where t: "step e s = Inr t" "loop stop step es t = Inr s'"
      by (cases "step e s") auto
    have "P t" using Cons.prems(3) [of e s t] Cons.prems(2) False t(1) by simp
    show ?thesis
      by (rule Cons.IH [OF t(2) \<open>P t\<close>]) (rule Cons.prems(3) [OF list.set_intros(2)], assumption+)
  qed
qed simp

text \<open>The events a run accepts, given what each state accepts.\<close>

fun accepted_run :: "('e \<Rightarrow> 's \<Rightarrow> bool) \<Rightarrow> ('e \<Rightarrow> 's \<Rightarrow> 's) \<Rightarrow> 'e list \<Rightarrow> 's \<Rightarrow> bool" where
  "accepted_run ok step [] s = True"
| "accepted_run ok step (e # es) s = (ok e s \<and> accepted_run ok step es (step e s))"

text \<open>The contract of a thread: one step keeps the invariant.\<close>

locale event_loop =
  fixes stop :: "'s \<Rightarrow> bool" and step :: "'e \<Rightarrow> 's \<Rightarrow> 'err + 's" and inv :: "'s \<Rightarrow> bool"
  assumes step_keeps: "inv s \<Longrightarrow> \<not> stop s \<Longrightarrow> step e s = Inr s' \<Longrightarrow> inv s'"
begin

lemma loop_inv: "inv s \<Longrightarrow> loop stop step es s = Inr s' \<Longrightarrow> inv s'"
  by (erule loop_preserves) (auto intro: step_keeps)

end

text \<open>A thread whose steps do not fail.\<close>

locale machine =
  fixes step :: "'e \<Rightarrow> 's \<Rightarrow> 's" and inv :: "'s \<Rightarrow> bool"
  assumes step_inv: "inv s \<Longrightarrow> inv (step e s)"
begin

lemma loop_fold: "loop (\<lambda>_. False) (\<lambda>e s. Inr (step e s)) es s = Inr (fold step es s)"
  by (induction es arbitrary: s) auto

end

sublocale machine \<subseteq> total: event_loop "\<lambda>_. False" "\<lambda>e s. Inr (step e s)" inv
  by unfold_locales (auto intro: step_inv)

context machine begin

lemma run_inv: "inv s \<Longrightarrow> inv (fold step es s)"
  using total.loop_inv loop_fold by blast

end

text \<open>
  Refinement of an abstract step relation: in the states of the invariant every accepted event is a
  step of the abstraction.
\<close>

locale simulation = machine step inv
  for step :: "'e \<Rightarrow> 's \<Rightarrow> 's" and inv :: "'s \<Rightarrow> bool" +
  fixes abstr :: "'s \<Rightarrow> 'a" and astep :: "'a \<Rightarrow> 'a \<Rightarrow> bool" and ok :: "'e \<Rightarrow> 's \<Rightarrow> bool"
  assumes sim: "inv s \<Longrightarrow> ok e s \<Longrightarrow> astep (abstr s) (abstr (step e s))"
begin

lemma run_sim: "inv s \<Longrightarrow> accepted_run ok step es s \<Longrightarrow> astep\<^sup>*\<^sup>* (abstr s) (abstr (fold step es s))"
proof (induction es arbitrary: s)
  case (Cons e es)
  then have "astep (abstr s) (abstr (step e s))" by (simp add: sim)
  moreover have "astep\<^sup>*\<^sup>* (abstr (step e s)) (abstr (fold step es (step e s)))"
    using Cons by (simp add: step_inv)
  ultimately show ?case by simp
qed simp

lemma run_abstract_inv:
  assumes "inv s" "accepted_run ok step es s" "J (abstr s)" "\<And>a b. astep a b \<Longrightarrow> J a \<Longrightarrow> J b"
  shows "J (abstr (fold step es s))"
  using run_sim [OF assms(1,2)] assms(3,4) by (induction rule: rtranclp_induct) auto

end

end
