(* ===== verification/Timeouts.thy ===== *)
theory Timeouts
  imports Riaps_Prelude
begin

text \<open>
  Time: the class template \<^verbatim>\<open>Timeout\<close> (\<^verbatim>\<open>include/utils/r_timeout.h\<close>) with all its
  constructors and \<^verbatim>\<open>Reset\<close> overloads, \<^verbatim>\<open>Expirable\<close> (\<^verbatim>\<open>include/utils/r_expirable.h\<close>), the
  \<^verbatim>\<open>timespec\<close> operators and the cache maintenance of \<^verbatim>\<open>src/utils/r_utils.cc\<close>.
  Time points and durations are integers in nanoseconds; the template parameter is the
  number of nanoseconds of one tick.  Lemmas: the deadline contract of a timeout (locale
  \<open>deadline\<close>), which of the overloads keeps it and which does not, the exact effect of
  purging a cache, and the correctness of the timespec arithmetic.
\<close>

section \<open>Timeout\<close>

abbreviation milliseconds :: int where "milliseconds \<equiv> 1000000"
abbreviation seconds :: int where "seconds \<equiv> 1000000000"
abbreviation minutes :: int where "minutes \<equiv> 60000000000"

record timeout =
  m_startPoint :: int
  m_timeout :: int
  m_endPoint :: int

text \<open>\<^verbatim>\<open>Reset()\<close>: restarts with the stored duration.\<close>

definition Timeout_Reset :: "int \<Rightarrow> timeout \<Rightarrow> timeout" where
  "Timeout_Reset now t = t\<lparr>m_startPoint := now, m_endPoint := now + m_timeout t\<rparr>"

text \<open>\<^verbatim>\<open>Reset(T timeout)\<close>: stores the duration and restarts.\<close>

definition Timeout_Reset_dur :: "int \<Rightarrow> int \<Rightarrow> timeout \<Rightarrow> timeout" where
  "Timeout_Reset_dur now d t = Timeout_Reset now (t\<lparr>m_timeout := d\<rparr>)"

text \<open>
  \<^verbatim>\<open>Reset(int64_t timeout)\<close>: stores the duration and nothing else.  The constructor of
  \<^verbatim>\<open>std::chrono::duration\<close> from a number is explicit, so a call with an integer argument
  resolves to this overload.
\<close>

definition Timeout_Reset_int :: "int \<Rightarrow> int \<Rightarrow> timeout \<Rightarrow> timeout" where
  "Timeout_Reset_int tick v t = t\<lparr>m_timeout := tick * v\<rparr>"

text \<open>\<^verbatim>\<open>Reset(int64_t, int64_t)\<close>: \<open>v\<close> is the number drawn between the two bounds.\<close>

definition Timeout_Reset_range :: "int \<Rightarrow> int \<Rightarrow> timeout \<Rightarrow> timeout" where
  "Timeout_Reset_range tick v t = Timeout_Reset_int tick v t"

text \<open>
  Before a constructor body runs the two time points are the epoch of the clock and the
  duration is indeterminate (here: an argument).
\<close>

definition Timeout_raw :: "int \<Rightarrow> timeout" where
  "Timeout_raw junk = \<lparr>m_startPoint = 0, m_timeout = junk, m_endPoint = 0\<rparr>"

definition Timeout_default :: "int \<Rightarrow> timeout" where
  "Timeout_default now = Timeout_Reset_dur now 0 (Timeout_raw 0)"

definition Timeout_dur :: "int \<Rightarrow> int \<Rightarrow> timeout" where
  "Timeout_dur now d = Timeout_Reset_dur now d (Timeout_raw 0)"

definition Timeout_int :: "int \<Rightarrow> int \<Rightarrow> int \<Rightarrow> timeout" where
  "Timeout_int tick now v = Timeout_Reset_dur now (tick * v) (Timeout_raw 0)"

definition Timeout_range :: "int \<Rightarrow> int \<Rightarrow> timeout" where
  "Timeout_range tick v = Timeout_Reset_range tick v (Timeout_raw 0)"

definition IsTimeout :: "int \<Rightarrow> timeout \<Rightarrow> bool" where
  "IsTimeout now t \<longleftrightarrow> m_endPoint t < now"

definition GetEndTimePoint :: "timeout \<Rightarrow> int" where
  "GetEndTimePoint t = m_endPoint t"

lemmas timeout_defs = Timeout_Reset_def Timeout_Reset_dur_def Timeout_Reset_int_def
  Timeout_Reset_range_def Timeout_raw_def Timeout_default_def Timeout_dur_def Timeout_int_def
  Timeout_range_def IsTimeout_def GetEndTimePoint_def

text \<open>
  The contract of a (re)started timeout: armed at \<open>now\<close> for \<open>d\<close> it expires exactly at
  the readings after \<open>now + d\<close>.
\<close>

locale deadline =
  fixes arm :: "int \<Rightarrow> int \<Rightarrow> timeout \<Rightarrow> timeout"
  assumes armed: "IsTimeout now' (arm now d t) \<longleftrightarrow> now + d < now'"
begin

lemma not_before: "now' \<le> now + d \<Longrightarrow> \<not> IsTimeout now' (arm now d t)"
  by (simp add: armed)

lemma eventually: "now + d < now' \<Longrightarrow> IsTimeout now' (arm now d t)"
  by (simp add: armed)

lemma stays: "now' \<le> now'' \<Longrightarrow> IsTimeout now' (arm now d t) \<Longrightarrow> IsTimeout now'' (arm now d t)"
  by (simp add: armed)

lemma rearm_extends:
  "now \<le> now1 \<Longrightarrow> 0 \<le> d \<Longrightarrow> now' \<le> now1 + d \<Longrightarrow> \<not> IsTimeout now' (arm now1 d (arm now d t))"
  by (simp add: armed)

end

interpretation reset_dur: deadline Timeout_Reset_dur
  by unfold_locales (simp add: timeout_defs)

interpretation new_dur: deadline "\<lambda>now d t. Timeout_dur now d"
  by unfold_locales (simp add: timeout_defs)

interpretation new_ms: deadline "\<lambda>now d t. Timeout_int 1 now d"
  by unfold_locales (simp add: timeout_defs)

lemma IsTimeout_Timeout_int [simp]: "IsTimeout now' (Timeout_int tick now v) \<longleftrightarrow> now + tick * v < now'"
  by (simp add: timeout_defs)

lemma IsTimeout_Reset_dur [simp]: "IsTimeout now' (Timeout_Reset_dur now d t) \<longleftrightarrow> now + d < now'"
  by (rule reset_dur.armed)

lemma IsTimeout_Reset [simp]: "IsTimeout now' (Timeout_Reset now t) \<longleftrightarrow> now + m_timeout t < now'"
  by (simp add: timeout_defs)

lemma IsTimeout_Reset_int [simp]: "IsTimeout now' (Timeout_Reset_int tick v t) \<longleftrightarrow> IsTimeout now' t"
  by (simp add: timeout_defs)

lemma m_endPoint_Reset_int [simp]: "m_endPoint (Timeout_Reset_int tick v t) = m_endPoint t"
  by (simp add: timeout_defs)

lemma IsTimeout_mono: "IsTimeout t1 t \<Longrightarrow> t1 \<le> t2 \<Longrightarrow> IsTimeout t2 t"
  by (simp add: IsTimeout_def)

section \<open>Expirable\<close>

record 'v expirable =
  e_value :: 'v
  e_lastTimestamp :: int
  e_duration :: int

definition Expirable_new :: "int \<Rightarrow> 'v \<Rightarrow> int \<Rightarrow> 'v expirable" where
  "Expirable_new mono_now v d = \<lparr>e_value = v, e_lastTimestamp = mono_now, e_duration = d\<rparr>"

definition UpdateTimestamp :: "int \<Rightarrow> 'v expirable \<Rightarrow> 'v expirable" where
  "UpdateTimestamp mono_now e = e\<lparr>e_lastTimestamp := mono_now\<rparr>"

definition HasExpired :: "int \<Rightarrow> 'v expirable \<Rightarrow> bool" where
  "HasExpired mono_now e \<longleftrightarrow> e_duration e < mono_now - e_lastTimestamp e"

lemma HasExpired_after_update:
  "HasExpired later (UpdateTimestamp now e) \<longleftrightarrow> now + e_duration e < later"
  by (auto simp: HasExpired_def UpdateTimestamp_def)

text \<open>
  \<^verbatim>\<open>ExpirableList\<close> and its iterator over the expired values
  (\<^verbatim>\<open>include/utils/r_expirablelist.h\<close>).  An iterator is a position; the loop of its constructor
  asks the value at the position before it compares the position with the end, so at the end it
  reads beyond the vector: None.
\<close>

definition AddValue :: "int \<Rightarrow> 'v \<Rightarrow> int \<Rightarrow> 'v expirable list \<Rightarrow> 'v expirable list" where
  "AddValue mono_now v duration vs = vs @ [Expirable_new mono_now v duration]"

fun ExpiredIterator :: "clock \<Rightarrow> nat \<Rightarrow> 'v expirable list \<Rightarrow> nat option" where
  "ExpiredIterator clk k [] = None"
| "ExpiredIterator clk k (e # es) =
     (if HasExpired (clk k) e then Some 0 else map_option Suc (ExpiredIterator clk (Suc k) es))"

definition ExpirableList_begin :: "clock \<Rightarrow> 'v expirable list \<Rightarrow> nat option" where
  "ExpirableList_begin clk vs = ExpiredIterator clk 0 vs"

definition ExpirableList_end :: "clock \<Rightarrow> 'v expirable list \<Rightarrow> nat option" where
  "ExpirableList_end clk vs = map_option (\<lambda>i. i + length vs) (ExpiredIterator clk 0 (drop (length vs) vs))"

text \<open>\<^verbatim>\<open>operator++\<close>: steps at least once, and the constructor of the result asks the value once more.\<close>

definition ExpiredIterator_next :: "clock \<Rightarrow> 'v expirable list \<Rightarrow> nat \<Rightarrow> nat option" where
  "ExpiredIterator_next clk vs i =
     (case ExpiredIterator clk 0 (drop (Suc i) vs) of
        None \<Rightarrow> None
      | Some j \<Rightarrow> map_option (\<lambda>d. Suc i + j + d) (ExpiredIterator clk (Suc j) (drop (Suc i + j) vs)))"

lemma ExpiredIterator_Some:
  assumes "ExpiredIterator clk k es = Some i"
  shows "i < length es \<and> HasExpired (clk (k + i)) (es ! i) \<and> (\<forall>j < i. \<not> HasExpired (clk (k + j)) (es ! j))"
  using assms
proof (induction clk k es arbitrary: i rule: ExpiredIterator.induct)
  case (2 clk k e es)
  then show ?case by (fastforce split: if_splits simp: less_Suc_eq_0_disj)
qed simp

lemma ExpiredIterator_None:
  "ExpiredIterator clk k es = None \<longleftrightarrow> (\<forall>j < length es. \<not> HasExpired (clk (k + j)) (es ! j))"
  by (induction clk k es rule: ExpiredIterator.induct) (auto simp: less_Suc_eq_0_disj)

text \<open>the list of expirables cannot be iterated: the first position is the first expired value, but
  the end is never reached without reading beyond the vector, and \<^verbatim>\<open>end()\<close> itself does so.\<close>

theorem expirable_list_end_undefined:
  "ExpirableList_end clk vs = None
   \<and> (ExpirableList_begin clk vs = None \<longleftrightarrow> (\<forall>j < length vs. \<not> HasExpired (clk j) (vs ! j)))"
  by (simp add: ExpirableList_end_def ExpirableList_begin_def ExpiredIterator_None)

section \<open>Purging a cache\<close>

text \<open>
  The loops that drop the expired entries of a container read the clock once per entry,
  in iteration order: the i-th entry is judged at the reading \<open>k + i\<close>.
\<close>

fun purge :: "(int \<Rightarrow> 'v \<Rightarrow> bool) \<Rightarrow> clock \<Rightarrow> nat \<Rightarrow> ('k \<times> 'v) list \<Rightarrow> ('k \<times> 'v) list" where
  "purge expired clk k [] = []"
| "purge expired clk k ((a, v) # m) =
     (if expired (clk k) v then purge expired clk (Suc k) m
      else (a, v) # purge expired clk (Suc k) m)"

text \<open>\<^verbatim>\<open>maintain_cache\<close>: collects the keys of the expired entries, then erases them.\<close>

fun marked_for_delete :: "clock \<Rightarrow> nat \<Rightarrow> (string \<times> timeout) list \<Rightarrow> string list" where
  "marked_for_delete clk k [] = []"
| "marked_for_delete clk k ((a, t) # m) =
     (if IsTimeout (clk k) t then a # marked_for_delete clk (Suc k) m
      else marked_for_delete clk (Suc k) m)"

definition maintain_cache :: "clock \<Rightarrow> (string, timeout) omap \<Rightarrow> bool \<times> (string, timeout) omap" where
  "maintain_cache clk ipcache =
     (let marked = marked_for_delete clk 0 ipcache
      in (marked \<noteq> [], fold kv_del marked ipcache))"

text \<open>\<^verbatim>\<open>maintain_servicecache\<close>: one clock reading, entries older than ten seconds go.\<close>

definition maintain_servicecache ::
  "int \<Rightarrow> (string, int) omap \<Rightarrow> string list \<times> (string, int) omap" where
  "maintain_servicecache time cache =
     (let outdated = map fst (filter (\<lambda>p. 10000 < time - snd p) cache)
      in (outdated, fold kv_del outdated cache))"

lemma fold_kv_del: "fold kv_del ks m = filter (\<lambda>p. fst p \<notin> set ks) m"
  by (induction ks arbitrary: m) (auto simp: kv_del_def conj_commute)

lemma purge_set: "set (purge expired clk k m) \<subseteq> set m"
  by (induction expired clk k m rule: purge.induct) auto

lemma purge_length: "length (purge expired clk k m) \<le> length m"
  by (induction expired clk k m rule: purge.induct) (auto simp: le_SucI)

lemma purge_keys: "fst ` set (purge expired clk k m) \<subseteq> fst ` set m"
  using purge_set [of expired clk k m] by auto

lemma purge_inv: "um_inv m \<Longrightarrow> um_inv (purge expired clk k m)"
proof (induction expired clk k m rule: purge.induct)
  case (2 expired clk k a v m)
  then show ?case using purge_keys [of expired clk "Suc k" m] by (auto simp: um_inv_def)
qed (simp add: um_inv_def)

lemma purge_om_inv: "om_inv m \<Longrightarrow> om_inv (purge expired clk k m)"
proof (induction expired clk k m rule: purge.induct)
  case (2 expired clk k a v m)
  then show ?case using purge_set [of expired clk "Suc k" m] by (fastforce simp: om_inv_def)
qed (simp add: om_inv_def)

lemma purge_const:
  "purge expired (\<lambda>_. now) k m = filter (\<lambda>p. \<not> expired now (snd p)) m"
  by (induction m arbitrary: k) auto

lemma purge_keeps:
  "(a, v) \<in> set m \<Longrightarrow> (\<And>i. k \<le> i \<Longrightarrow> i < k + length m \<Longrightarrow> \<not> expired (clk i) v) \<Longrightarrow>
     (a, v) \<in> set (purge expired clk k m)"
proof (induction expired clk k m rule: purge.induct)
  case (2 expired clk k b w m)
  show ?case
  proof (cases "(a, v) = (b, w)")
    case True
    with 2(4) [of k] show ?thesis by simp
  next
    case False
    then have m: "(a, v) \<in> set m" using 2(3) by auto
    have "i < Suc k + length m \<Longrightarrow> Suc k \<le> i \<Longrightarrow> \<not> expired (clk i) v" for i
      using 2(4) [of i] by simp
    then show ?thesis using 2(1,2) m by auto
  qed
qed simp

lemma purge_drops:
  "(a, v) \<in> set (purge expired clk k m) \<Longrightarrow>
     \<exists>i. k \<le> i \<and> i < k + length m \<and> \<not> expired (clk i) v"
proof (induction expired clk k m rule: purge.induct)
  case (2 expired clk k b w m)
  show ?case
  proof (cases "expired (clk k) w")
    case True
    with 2 obtain i where "Suc k \<le> i" "i < Suc k + length m" "\<not> expired (clk i) v" by auto
    then show ?thesis by (intro exI [of _ i]) auto
  next
    case False
    show ?thesis
    proof (cases "(a, v) = (b, w)")
      case True
      with False show ?thesis by (intro exI [of _ k]) auto
    next
      case neq: False
      with False 2 obtain i where "Suc k \<le> i" "i < Suc k + length m" "\<not> expired (clk i) v" by auto
      then show ?thesis by (intro exI [of _ i]) auto
    qed
  qed
qed simp

lemma marked_keys: "set (marked_for_delete clk k m) \<subseteq> fst ` set m"
  by (induction clk k m rule: marked_for_delete.induct) auto

lemma purge_marked:
  "distinct (map fst m) \<Longrightarrow>
     filter (\<lambda>p. fst p \<notin> set (marked_for_delete clk k m)) m = purge IsTimeout clk k m"
proof (induction clk k m rule: marked_for_delete.induct)
  case (2 clk k a t m)
  have dist: "distinct (map fst m)" and notin: "a \<notin> fst ` set m" using 2(3) by auto
  have a: "a \<notin> set (marked_for_delete clk (Suc k) m)"
    using notin marked_keys [of clk "Suc k" m] by auto
  have "filter (\<lambda>p. fst p \<notin> insert a (set (marked_for_delete clk (Suc k) m))) m =
        filter (\<lambda>p. fst p \<notin> set (marked_for_delete clk (Suc k) m)) m"
    by (rule filter_cong) (use notin in auto)
  then show ?case using 2(1,2) dist a by (cases "IsTimeout (clk k) t") auto
qed simp

lemma purge_eq_iff: "purge expired clk k m = m \<longleftrightarrow> length (purge expired clk k m) = length m"
proof (induction expired clk k m rule: purge.induct)
  case (2 expired clk k a v m)
  then show ?case
    using purge_length [of expired clk "Suc k" m] by (cases "expired (clk k) v") auto
qed simp

lemma marked_empty_iff: "marked_for_delete clk k m = [] \<longleftrightarrow> purge IsTimeout clk k m = m"
proof (induction clk k m rule: marked_for_delete.induct)
  case (2 clk k a t m)
  have "purge IsTimeout clk (Suc k) m \<noteq> (a, t) # m"
    using purge_length [of IsTimeout clk "Suc k" m] by (metis impossible_Cons)
  with 2 show ?case by auto
qed simp

lemma maintain_cache_purge:
  "om_inv m \<Longrightarrow> maintain_cache clk m = (marked_for_delete clk 0 m \<noteq> [], purge IsTimeout clk 0 m)"
  by (simp add: maintain_cache_def Let_def fold_kv_del purge_marked om.inv_distinct)

text \<open>C32: cleaning the cache in two passes is the same as in one.  Collecting the keys of the expired
  entries and erasing them one after the other leaves exactly the entries a single pass with the same
  clock readings keeps, in their order, and the result says whether any entry was removed.\<close>

theorem maintain_cache_is_purge:
  assumes "om_inv ipcache"
  shows "maintain_cache clk ipcache = (purge IsTimeout clk 0 ipcache \<noteq> ipcache, purge IsTimeout clk 0 ipcache)"
  using maintain_cache_purge [OF assms] marked_empty_iff by simp

theorem maintain_cache_is_purge_witness:
  "maintain_cache (\<lambda>_. 5) [(''a'', Timeout_dur 0 1), (''b'', Timeout_dur 0 9)] = (True, [(''b'', Timeout_dur 0 9)])"
  using maintain_cache_is_purge [of "[(''a'', Timeout_dur 0 1), (''b'', Timeout_dur 0 9)]" "\<lambda>_. 5"]
  by (simp add: om_inv_def timeout_defs)

section \<open>timespec\<close>

record timespec =
  tv_sec :: int
  tv_nsec :: int

abbreviation BILLION :: int where "BILLION \<equiv> 1000000000"

definition timespec_minus :: "timespec \<Rightarrow> timespec \<Rightarrow> timespec" where
  "timespec_minus ts1 ts2 =
     (let diffSec = tv_sec ts1 - tv_sec ts2;
          diffNSec = tv_nsec ts1 - tv_nsec ts2;
          (diffSec, diffNSec) = (if diffNSec < 0 then (diffSec - 1, diffNSec + BILLION)
                                 else (diffSec, diffNSec));
          (diffSec, diffNSec) = (if diffSec < 0 then (diffSec + 1, diffNSec - BILLION)
                                 else (diffSec, diffNSec))
      in \<lparr>tv_sec = diffSec, tv_nsec = diffNSec\<rparr>)"

definition timespec_greater :: "timespec \<Rightarrow> timespec \<Rightarrow> bool" where
  "timespec_greater ts1 ts2 \<longleftrightarrow>
     (if tv_sec ts2 < tv_sec ts1 then True
      else if tv_sec ts1 = tv_sec ts2 \<and> tv_nsec ts2 < tv_nsec ts1 then True
      else False)"

definition ts_ns :: "timespec \<Rightarrow> int" where
  "ts_ns t = BILLION * tv_sec t + tv_nsec t"

definition ts_normal :: "timespec \<Rightarrow> bool" where
  "ts_normal t \<longleftrightarrow> 0 \<le> tv_nsec t \<and> tv_nsec t < BILLION"

lemma timespec_minus_value: "ts_ns (timespec_minus a b) = ts_ns a - ts_ns b"
  by (simp add: timespec_minus_def ts_ns_def Let_def)

lemma timespec_minus_normal:
  "ts_normal a \<Longrightarrow> ts_normal b \<Longrightarrow> ts_ns b \<le> ts_ns a \<Longrightarrow> ts_normal (timespec_minus a b)"
  by (auto simp: timespec_minus_def ts_ns_def ts_normal_def Let_def)

lemma timespec_greater_iff:
  "ts_normal a \<Longrightarrow> ts_normal b \<Longrightarrow> timespec_greater a b \<longleftrightarrow> ts_ns b < ts_ns a"
  by (auto simp: timespec_greater_def ts_ns_def ts_normal_def)

end
