(* ===== verification/Riaps_Messages.thy ===== *)
theory Riaps_Messages
  imports Timeouts
begin

text \<open>
  The data the parts of the system exchange: the discovery messages
  (\<^verbatim>\<open>include/messaging/capnp/disco.capnp\<close>), the group-internal messages
  (\<^verbatim>\<open>include/messaging/capnp/distcoord.capnp\<close>) and the group identifiers of
  \<^verbatim>\<open>include/groups/r_group.h\<close> with their order.  A capnp union is a datatype, a struct of
  pointers a record of options, a Text a string.  Messages are values: the encoding to
  bytes and back is capnp's and is the identity here.
\<close>

section \<open>Group identifiers\<close>

datatype GroupId = GroupId (group_type_id: string) (group_name: string)

definition GroupId_less :: "GroupId \<Rightarrow> GroupId \<Rightarrow> bool" where
  "GroupId_less a b \<longleftrightarrow>
     (if group_type_id a = group_type_id b then group_name a < group_name b
      else group_type_id a < group_type_id b)"

definition GroupId_eq :: "GroupId \<Rightarrow> GroupId \<Rightarrow> bool" where
  "GroupId_eq a b \<longleftrightarrow> group_type_id a = group_type_id b \<and> group_name a = group_name b"

lemma GroupId_eq_iff: "GroupId_eq a b \<longleftrightarrow> a = b"
  by (cases a; cases b) (simp add: GroupId_eq_def)

instantiation GroupId :: linorder
begin

definition less_GroupId :: "GroupId \<Rightarrow> GroupId \<Rightarrow> bool" where
  "less_GroupId a b = GroupId_less a b"

definition less_eq_GroupId :: "GroupId \<Rightarrow> GroupId \<Rightarrow> bool" where
  "less_eq_GroupId a b \<longleftrightarrow> a = b \<or> GroupId_less a b"

instance
proof
  fix x y z :: GroupId
  show "(x < y) = (x \<le> y \<and> \<not> y \<le> x)"
    by (cases x; cases y) (auto simp: less_GroupId_def less_eq_GroupId_def GroupId_less_def split: if_splits)
  show "x \<le> x" by (simp add: less_eq_GroupId_def)
  show "x \<le> y \<Longrightarrow> y \<le> z \<Longrightarrow> x \<le> z"
    by (cases x; cases y; cases z) (auto simp: less_eq_GroupId_def GroupId_less_def split: if_splits)
  show "x \<le> y \<Longrightarrow> y \<le> x \<Longrightarrow> x = y"
    by (cases x; cases y) (auto simp: less_eq_GroupId_def GroupId_less_def split: if_splits)
  show "x \<le> y \<or> y \<le> x"
    by (cases x; cases y) (auto simp: less_eq_GroupId_def GroupId_less_def split: if_splits)
qed

end

record GroupService =
  gs_message_type :: string
  gs_address :: string

record GroupDetails =
  gd_app_name :: string
  gd_component_id :: string
  gd_group_id :: GroupId
  gd_group_services :: "GroupService list"

section \<open>Discovery messages\<close>

datatype Status = StatusOk | StatusErr
datatype Kind = KindNone | PUB | SUB | CLT | SRV | REQ | REP | QRY | ANS
datatype Scope = ScopeNone | GLOBAL | LOCAL

record ActorRegReq =
  ar_appName :: string
  ar_version :: string
  ar_actorName :: string
  ar_pid :: int

record ActorUnregReq =
  au_appName :: string
  au_version :: string
  au_actorName :: string
  au_pid :: int

record Path =
  p_appName :: string
  p_actorName :: string
  p_msgType :: string
  p_kind :: Kind
  p_scope :: Scope

record Client =
  c_actorHost :: string
  c_actorName :: string
  c_instanceName :: string
  c_portName :: string

record Socket =
  s_host :: string
  s_port :: int

record ServiceRegReq =
  sr_path :: Path
  sr_socket :: Socket
  sr_pid :: int

record ServiceLookupReq =
  sl_path :: Path
  sl_client :: Client

record GroupJoinReq =
  gj_appName :: string
  gj_groupId :: GroupId
  gj_services :: "GroupService list"
  gj_componentId :: string
  gj_pid :: int

record GroupUpdate =
  gu_appName :: string
  gu_groupId :: GroupId
  gu_componentId :: string
  gu_services :: "GroupService list"

record PortUpd =
  pu_client :: Client
  pu_scope :: Scope
  pu_socket :: Socket

datatype DiscoUpd = PortUpdate PortUpd | DiscoGroupUpdate GroupUpdate

datatype DiscoReq =
    ReqActorReg ActorRegReq
  | ReqServiceReg ServiceRegReq
  | ReqServiceLookup ServiceLookupReq
  | ReqActorUnreg ActorUnregReq
  | ReqGroupJoin GroupJoinReq

datatype DiscoRep =
    RepActorReg Status int
  | RepServiceReg Status
  | RepServiceLookup Status "Socket list"
  | RepActorUnreg Status int
  | RepGroupJoin Status

record ProviderListUpdate =
  plu_providerpath :: string
  plu_newvalues :: "string list"

record ProviderListGet =
  plg_path :: Path
  plg_client :: Client
  plg_results :: "string list"

datatype DhtUpdate =
    DhtProviderUpdate ProviderListUpdate
  | DhtProviderGet ProviderListGet
  | DhtZombieList "string list"
  | DhtGroupUpdate GroupUpdate

section \<open>Group-internal messages\<close>

datatype HeartBeatType = PING | PONG

record AppendEntry =
  ae_sourceComponentId :: string
  ae_electionTerm :: u32

record RequestForVoteReq =
  vq_sourceComponentId :: string
  vq_electionTerm :: u32

record RequestForVoteRep =
  vr_sourceComponentId :: string
  vr_voteForId :: string
  vr_electionTerm :: u32

text \<open>A struct of three pointers, each of which may be null; not a union.\<close>

record LeaderElection =
  le_appendEntry :: "AppendEntry option"
  le_requestForVoteReq :: "RequestForVoteReq option"
  le_requestForVoteRep :: "RequestForVoteRep option"

datatype VoteResults = ACCEPTED | REJECTED
datatype VoteType = VALUE | ACTION

record TimeSyncCoordA =
  ts_actionId :: string
  ts_tvSec :: int
  ts_tvNsec :: int

datatype ConsensusBody =
    ProposeToLeader string
  | ProposeToClients string string
  | Vote string VoteResults
  | Announce string VoteResults

record Consensus =
  cs_sourceComponentId :: string
  cs_voteType :: VoteType
  cs_body :: ConsensusBody
  cs_tsyncCoordA :: TimeSyncCoordA

text \<open>Reading a pointer field that was never set gives the default struct.\<close>

definition default_TimeSyncCoordA :: TimeSyncCoordA where
  "default_TimeSyncCoordA = \<lparr>ts_actionId = [], ts_tvSec = 0, ts_tvNsec = 0\<rparr>"

datatype GroupInternals =
    GroupHeartBeat HeartBeatType string
  | IntLeaderElection LeaderElection
  | IntMessageToLeader string
  | IntConsensus Consensus
  | IntGroupMessage string
  | IntLeaderMessage string

definition msg_append_entry :: "AppendEntry \<Rightarrow> LeaderElection" where
  "msg_append_entry a =
     \<lparr>le_appendEntry = Some a, le_requestForVoteReq = None, le_requestForVoteRep = None\<rparr>"

definition msg_vote_req :: "RequestForVoteReq \<Rightarrow> LeaderElection" where
  "msg_vote_req q =
     \<lparr>le_appendEntry = None, le_requestForVoteReq = Some q, le_requestForVoteRep = None\<rparr>"

definition msg_vote_rep :: "RequestForVoteRep \<Rightarrow> LeaderElection" where
  "msg_vote_rep r =
     \<lparr>le_appendEntry = None, le_requestForVoteReq = None, le_requestForVoteRep = Some r\<rparr>"

lemmas election_msg_defs = msg_append_entry_def msg_vote_req_def msg_vote_rep_def

end
