(* ===== verification/Group_Lead.thy ===== *)
theory Group_Lead
  imports Riaps_Messages
begin

text \<open>
  Leader election and leader-side consensus: \<^verbatim>\<open>src/groups/r_grouplead.cc\<close>, and the
  member table of the group it reads (\<^verbatim>\<open>known_nodes_\<close> and its operations in
  \<^verbatim>\<open>src/groups/r_group.cc\<close>).  The state of a \<^verbatim>\<open>GroupLead\<close> is the record \<open>group_lead\<close>, one
  field per data member; \<open>gl_sent\<close> is what it handed to the group's internal port so
  far and \<open>gl_changed\<close> the calls of the leader-change handler.  \<open>GroupLead\<close> holds a
  pointer to its group's member table, so the operations that use the table take and
  return it.
\<close>

section \<open>The member table\<close>

type_synonym members = "(string, timeout) umap"

definition DeleteTimeoutNodes :: "clock \<Rightarrow> nat \<Rightarrow> members \<Rightarrow> u32 \<times> members" where
  "DeleteTimeoutNodes clk k m =
     (let m' = purge IsTimeout clk k m in (of_nat (length m - length m'), m'))"

definition GetMemberCount :: "clock \<Rightarrow> nat \<Rightarrow> members \<Rightarrow> u16 \<times> members" where
  "GetMemberCount clk k m = (let m' = snd (DeleteTimeoutNodes clk k m) in (of_nat (length m'), m'))"

text \<open>A \<^verbatim>\<open>std::set\<close> of names: a list without repetitions; only membership and size are used.\<close>

definition GetKnownComponents :: "clock \<Rightarrow> nat \<Rightarrow> members \<Rightarrow> string list" where
  "GetKnownComponents clk k m = map fst (purge IsTimeout clk k m)"

text \<open>A heartbeat of a member: an unknown sender gets a timeout, a known one \<^verbatim>\<open>Reset(int64_t)\<close>.\<close>

definition heard_from :: "int \<Rightarrow> int \<Rightarrow> string \<Rightarrow> members \<Rightarrow> members" where
  "heard_from now rnd src m =
     um_put src (case map_of m src of
                   None \<Rightarrow> Timeout_int milliseconds now rnd
                 | Some t \<Rightarrow> Timeout_Reset_int milliseconds rnd t) m"

lemma heard_from_inv: "um_inv m \<Longrightarrow> um_inv (heard_from now rnd src m)"
  by (simp add: heard_from_def um.inv_put)

section \<open>State\<close>

datatype NodeState = FOLLOWER | CANDIDATE | LEADER

abbreviation MIN_ELECTION_TIMEOUT :: int where "MIN_ELECTION_TIMEOUT \<equiv> 150"
abbreviation MAX_ELECTION_TIMEOUT :: int where "MAX_ELECTION_TIMEOUT \<equiv> 500"
abbreviation APPENDENTRY_TIMEOUT :: int where "APPENDENTRY_TIMEOUT \<equiv> 75"

type_synonym frame = string
type_synonym group_msg = "GroupInternals \<times> frame option"

record propose_data =
  nodesInVote :: "string list"
  nodesVoted :: "string list"
  proposeDeadline :: timeout
  pd_accepted :: u16
  pd_rejected :: u16
  isAction :: bool
  pd_actionId :: string

text \<open>The two tables of the code share one object for an action proposal; through the table of the actions only
  its deadline is read, which never changes, so the model keeps two copies.\<close>

record group_lead =
  gl_componentId :: string
  m_currentState :: NodeState
  m_electionTimeout :: timeout
  m_appEntryTimeout :: timeout
  m_electionTerm :: u32
  m_numberOfNodesInVote :: u32
  m_votes :: "(string, int) umap"
  m_leaderId :: string
  m_onLeaderChanged :: bool
  m_proposeData :: "(string, propose_data) umap"
  m_actionData :: "(string, propose_data) umap"
  gl_sent :: "group_msg list"
  gl_changed :: "string list"

text \<open>
  The constructor.  \<open>rnd\<close> is the drawn election timeout in milliseconds, \<open>junk\<close> the
  indeterminate initial value of \<^verbatim>\<open>m_numberOfNodesInVote\<close>.
\<close>

definition GroupLead_new :: "clock \<Rightarrow> int \<Rightarrow> u32 \<Rightarrow> string \<Rightarrow> group_lead" where
  "GroupLead_new clk rnd junk self =
     \<lparr>gl_componentId = self, m_currentState = FOLLOWER,
      m_electionTimeout = Timeout_int milliseconds (clk 0) rnd,
      m_appEntryTimeout = Timeout_int milliseconds (clk 1) APPENDENTRY_TIMEOUT,
      m_electionTerm = 0, m_numberOfNodesInVote = junk, m_votes = [], m_leaderId = [],
      m_onLeaderChanged = False, m_proposeData = [], m_actionData = [],
      gl_sent = [], gl_changed = []\<rparr>"

text \<open>The constructor of \<^verbatim>\<open>ProposeData\<close>; \<open>junk\<close> is the value \<^verbatim>\<open>isAction\<close> happens to have.\<close>

definition ProposeData_new :: "string list \<Rightarrow> timeout \<Rightarrow> bool \<Rightarrow> propose_data" where
  "ProposeData_new known dl junk =
     \<lparr>nodesInVote = known, nodesVoted = [], proposeDeadline = dl, pd_accepted = 0,
      pd_rejected = 0, isAction = junk, pd_actionId = []\<rparr>"

section \<open>Sending\<close>

definition SendInternal :: "GroupInternals \<Rightarrow> group_lead \<Rightarrow> group_lead" where
  "SendInternal m s = s\<lparr>gl_sent := gl_sent s @ [(m, None)]\<rparr>"

definition SendRequestForVote :: "group_lead \<Rightarrow> group_lead" where
  "SendRequestForVote s = SendInternal (IntLeaderElection (msg_vote_req
     \<lparr>vq_sourceComponentId = gl_componentId s, vq_electionTerm = m_electionTerm s\<rparr>)) s"

definition SendAppendEntry :: "group_lead \<Rightarrow> group_lead" where
  "SendAppendEntry s = SendInternal (IntLeaderElection (msg_append_entry
     \<lparr>ae_sourceComponentId = gl_componentId s, ae_electionTerm = m_electionTerm s\<rparr>)) s"

definition SendVote :: "string \<Rightarrow> group_lead \<Rightarrow> group_lead" where
  "SendVote voteFor s = SendInternal (IntLeaderElection (msg_vote_rep
     \<lparr>vr_sourceComponentId = gl_componentId s, vr_voteForId = voteFor,
      vr_electionTerm = m_electionTerm s\<rparr>)) s"

text \<open>\<^verbatim>\<open>Announce\<close> sets neither the source nor the vote type: both stay at their defaults.\<close>

definition announce_msg :: "string \<Rightarrow> VoteResults \<Rightarrow> GroupInternals" where
  "announce_msg proposeId result = IntConsensus
     \<lparr>cs_sourceComponentId = [], cs_voteType = VALUE, cs_body = Announce proposeId result,
      cs_tsyncCoordA = default_TimeSyncCoordA\<rparr>"

definition Lead_Announce :: "string \<Rightarrow> VoteResults \<Rightarrow> group_lead \<Rightarrow> group_lead" where
  "Lead_Announce proposeId result s = SendInternal (announce_msg proposeId result) s"

definition ChangeLeader :: "string \<Rightarrow> group_lead \<Rightarrow> group_lead" where
  "ChangeLeader newLeader s =
     (if m_leaderId s \<noteq> newLeader
      then (let s1 = s\<lparr>m_leaderId := newLeader\<rparr>
            in if m_onLeaderChanged s1 then s1\<lparr>gl_changed := gl_changed s1 @ [newLeader]\<rparr> else s1)
      else s)"

definition GetNumberOfVotes :: "group_lead \<Rightarrow> u32" where
  "GetNumberOfVotes s = of_nat (length (m_votes s))"

definition SetOnLeaderChanged :: "group_lead \<Rightarrow> group_lead" where
  "SetOnLeaderChanged s = s\<lparr>m_onLeaderChanged := True\<rparr>"

lemmas lead_send_defs = SendInternal_def SendRequestForVote_def SendAppendEntry_def SendVote_def
  Lead_Announce_def announce_msg_def

section \<open>The timer tick: Update()\<close>

text \<open>The expired proposals of the leader: rejected and erased, in iteration order.\<close>

fun expire_proposals ::
  "clock \<Rightarrow> nat \<Rightarrow> (string, propose_data) umap \<Rightarrow> (string, propose_data) umap \<times> string list" where
  "expire_proposals clk k [] = ([], [])"
| "expire_proposals clk k ((a, pd) # ps) =
     (let (rest, gone) = expire_proposals clk (Suc k) ps
      in if IsTimeout (clk k) (proposeDeadline pd) then (rest, a # gone)
         else ((a, pd) # rest, gone))"

definition reject_expired :: "clock \<Rightarrow> nat \<Rightarrow> group_lead \<Rightarrow> group_lead" where
  "reject_expired clk k s =
     (let (rest, gone) = expire_proposals clk k (m_proposeData s)
      in (fold (\<lambda>p. Lead_Announce p REJECTED) gone s)\<lparr>m_proposeData := rest\<rparr>)"

definition start_election :: "clock \<Rightarrow> members \<Rightarrow> group_lead \<Rightarrow> members \<times> group_lead" where
  "start_election clk kn s =
     (let s = ChangeLeader [] s;
          s = s\<lparr>m_currentState := CANDIDATE\<rparr>;
          (count, kn') = GetMemberCount clk 3 kn;
          s = s\<lparr>m_numberOfNodesInVote := ucast count + 1\<rparr>;
          s = s\<lparr>m_electionTerm := m_electionTerm s + 1\<rparr>;
          s = s\<lparr>m_votes := um_put (gl_componentId s) (clk 0) []\<rparr>;
          s = SendRequestForVote s
      in (kn', s\<lparr>m_electionTimeout := Timeout_Reset_dur (clk (3 + length kn))
                   (milliseconds * MAX_ELECTION_TIMEOUT) (m_electionTimeout s)\<rparr>))"

definition Lead_Update :: "clock \<Rightarrow> members \<Rightarrow> group_lead \<Rightarrow> members \<times> group_lead" where
  "Lead_Update clk kn s =
     (if m_currentState s = FOLLOWER \<and> \<not> IsTimeout (clk 1) (m_electionTimeout s) then (kn, s)
      else if m_currentState s = FOLLOWER \<and> IsTimeout (clk 2) (m_electionTimeout s)
        then start_election clk kn s
      else if m_currentState s = CANDIDATE \<and> \<not> IsTimeout (clk 1) (m_electionTimeout s) then (kn, s)
      else if m_currentState s = CANDIDATE \<and> IsTimeout (clk 2) (m_electionTimeout s)
        then (kn, s\<lparr>m_currentState := FOLLOWER,
                    m_electionTimeout := Timeout_Reset_dur (clk 3)
                      (milliseconds * MAX_ELECTION_TIMEOUT) (m_electionTimeout s)\<rparr>)
      else if m_currentState s = LEADER \<and> IsTimeout (clk 1) (m_appEntryTimeout s)
        then (let s = SendAppendEntry s;
                  s = s\<lparr>m_appEntryTimeout := Timeout_Reset (clk 2) (m_appEntryTimeout s)\<rparr>
              in (kn, s\<lparr>m_leaderId := gl_componentId s\<rparr>))
      else if m_currentState s = LEADER \<and> \<not> IsTimeout (clk 2) (m_appEntryTimeout s)
        then (kn, reject_expired clk 3 s)
      else (kn, s))"

section \<open>An election message arrives: Update(LeaderElection)\<close>

definition majority_election :: "u32 \<Rightarrow> u32" where
  "majority_election n =
     (if n mod 2 = 0 then n div 2 + 1
      else of_nat ((unat n + 1) div 2))"

text \<open>\<^verbatim>\<open>GenerateElectionTimeo\<close> yields an integer, so these are \<^verbatim>\<open>Reset(int64_t)\<close>.\<close>

definition reset_election_timeout :: "int \<Rightarrow> group_lead \<Rightarrow> group_lead" where
  "reset_election_timeout rnd s =
     s\<lparr>m_electionTimeout := Timeout_Reset_int milliseconds rnd (m_electionTimeout s)\<rparr>"

definition on_vote_request_follower :: "int \<Rightarrow> RequestForVoteReq \<Rightarrow> group_lead \<Rightarrow> group_lead" where
  "on_vote_request_follower rnd q s =
     (if m_electionTerm s < vq_electionTerm q \<and> vq_sourceComponentId q \<noteq> gl_componentId s
      then (let s = s\<lparr>m_electionTerm := vq_electionTerm q\<rparr>;
                s = reset_election_timeout rnd s
            in SendVote (vq_sourceComponentId q) s)
      else s)"

definition on_vote_request_other :: "int \<Rightarrow> RequestForVoteReq \<Rightarrow> group_lead \<Rightarrow> group_lead" where
  "on_vote_request_other rnd q s =
     (if m_electionTerm s < vq_electionTerm q
      then (let s = s\<lparr>m_currentState := FOLLOWER\<rparr>;
                s = s\<lparr>m_electionTerm := vq_electionTerm q\<rparr>;
                s = (if m_currentState s = LEADER then ChangeLeader [] s else s);
                s = reset_election_timeout rnd s
            in SendVote (vq_sourceComponentId q) s)
      else s)"

definition on_vote_reply :: "clock \<Rightarrow> RequestForVoteRep \<Rightarrow> group_lead \<Rightarrow> group_lead" where
  "on_vote_reply clk r s =
     (if gl_componentId s \<noteq> vr_sourceComponentId r \<and> vr_electionTerm r = m_electionTerm s
         \<and> vr_voteForId r = gl_componentId s
      then (let s = s\<lparr>m_votes := um_put (vr_sourceComponentId r) (clk 1) (m_votes s)\<rparr>;
                hasMajority = (majority_election (m_numberOfNodesInVote s) \<le> GetNumberOfVotes s)
            in if hasMajority
               then (let s = s\<lparr>m_currentState := LEADER\<rparr>;
                         s = SendAppendEntry s
                     in ChangeLeader (gl_componentId s) s)
               else s)
      else s)"

definition on_append_follower :: "int \<Rightarrow> AppendEntry \<Rightarrow> group_lead \<Rightarrow> group_lead" where
  "on_append_follower rnd a s =
     (let s = reset_election_timeout rnd s;
          s = s\<lparr>m_electionTerm := ae_electionTerm a\<rparr>
      in ChangeLeader (ae_sourceComponentId a) s)"

definition on_append_leader :: "int \<Rightarrow> AppendEntry \<Rightarrow> group_lead \<Rightarrow> group_lead" where
  "on_append_leader rnd a s =
     (if m_electionTerm s < ae_electionTerm a
      then (let s = s\<lparr>m_currentState := FOLLOWER\<rparr>;
                s = s\<lparr>m_electionTerm := ae_electionTerm a\<rparr>;
                s = ChangeLeader (ae_sourceComponentId a) s
            in reset_election_timeout rnd s)
      else s)"

definition Lead_Update_msg :: "clock \<Rightarrow> int \<Rightarrow> LeaderElection \<Rightarrow> group_lead \<Rightarrow> group_lead" where
  "Lead_Update_msg clk rnd m s =
     (case (le_requestForVoteReq m, m_currentState s) of
        (Some q, FOLLOWER) \<Rightarrow> on_vote_request_follower rnd q s
      | (Some q, _) \<Rightarrow> on_vote_request_other rnd q s
      | (None, st) \<Rightarrow>
          (case (le_requestForVoteRep m, st) of
             (Some r, CANDIDATE) \<Rightarrow> on_vote_reply clk r s
           | _ \<Rightarrow>
               (case (le_appendEntry m, st) of
                  (Some a, FOLLOWER) \<Rightarrow> on_append_follower rnd a s
                | (Some a, LEADER) \<Rightarrow> on_append_leader rnd a s
                | _ \<Rightarrow> s)))"

section \<open>Consensus\<close>

abbreviation PROPOSE_PERIOD :: int where "PROPOSE_PERIOD \<equiv> milliseconds * 1000"

definition OnActionProposeFromClient ::
  "clock \<Rightarrow> members \<Rightarrow> string \<Rightarrow> TimeSyncCoordA \<Rightarrow> group_lead \<Rightarrow> group_lead" where
  "OnActionProposeFromClient clk kn proposeId tsca s =
     (if m_leaderId s \<noteq> gl_componentId s then s
      else if (case map_of (m_actionData s) (ts_actionId tsca) of
                 None \<Rightarrow> False
               | Some pd \<Rightarrow> \<not> IsTimeout (clk 0) (proposeDeadline pd)) then s
      else (let pd = (ProposeData_new (GetKnownComponents clk 1 kn)
                        (Timeout_dur (clk (1 + length kn)) PROPOSE_PERIOD) False)
                       \<lparr>isAction := True, pd_actionId := ts_actionId tsca\<rparr>;
                s = s\<lparr>m_proposeData := um_put proposeId pd (m_proposeData s)\<rparr>;
                s = s\<lparr>m_actionData := um_put (ts_actionId tsca) pd (m_actionData s)\<rparr>
            in s\<lparr>gl_sent := gl_sent s @ [(IntConsensus
                   \<lparr>cs_sourceComponentId = gl_componentId s, cs_voteType = ACTION,
                    cs_body = ProposeToClients proposeId (m_leaderId s),
                    cs_tsyncCoordA = tsca\<rparr>, None)]\<rparr>))"

definition OnProposeFromClient ::
  "clock \<Rightarrow> members \<Rightarrow> bool \<Rightarrow> string \<Rightarrow> frame option \<Rightarrow> group_lead \<Rightarrow> group_lead" where
  "OnProposeFromClient clk kn junk proposeId messageFrame s =
     (if m_leaderId s \<noteq> gl_componentId s then s
      else (let pd = ProposeData_new (GetKnownComponents clk 0 kn)
                       (Timeout_dur (clk (length kn)) PROPOSE_PERIOD) junk;
                s = s\<lparr>m_proposeData := um_put proposeId pd (m_proposeData s)\<rparr>
            in s\<lparr>gl_sent := gl_sent s @ [(IntConsensus
                   \<lparr>cs_sourceComponentId = gl_componentId s, cs_voteType = VALUE,
                    cs_body = ProposeToClients proposeId (m_leaderId s),
                    cs_tsyncCoordA = default_TimeSyncCoordA\<rparr>, messageFrame)]\<rparr>))"

definition consensus_majority :: "nat \<Rightarrow> nat" where
  "consensus_majority groupSize =
     (if groupSize mod 2 = 0 then groupSize div 2 + 1 else (groupSize + 1) div 2)"

definition erase_action :: "propose_data \<Rightarrow> group_lead \<Rightarrow> group_lead" where
  "erase_action pd s =
     (if isAction pd \<and> map_of (m_actionData s) (pd_actionId pd) \<noteq> None
      then s\<lparr>m_actionData := kv_del (pd_actionId pd) (m_actionData s)\<rparr> else s)"

definition erase_proposal :: "string \<Rightarrow> group_lead \<Rightarrow> group_lead" where
  "erase_proposal proposeId s = s\<lparr>m_proposeData := kv_del proposeId (m_proposeData s)\<rparr>"

definition count_vote :: "VoteResults \<Rightarrow> string \<Rightarrow> propose_data \<Rightarrow> propose_data" where
  "count_vote voteResult sourceComponentId pd =
     (let pd = pd\<lparr>nodesVoted := List.insert sourceComponentId (nodesVoted pd)\<rparr>
      in if voteResult = ACCEPTED
         then pd\<lparr>pd_accepted := pd_accepted pd + 1\<rparr>
         else pd\<lparr>pd_rejected := pd_rejected pd + 1\<rparr>)"

definition OnVote :: "clock \<Rightarrow> string \<Rightarrow> VoteResults \<Rightarrow> string \<Rightarrow> group_lead \<Rightarrow> group_lead" where
  "OnVote clk proposeId voteResult sourceComponentId s =
     (case map_of (m_proposeData s) proposeId of
        None \<Rightarrow> s
      | Some pd \<Rightarrow>
          if IsTimeout (clk 0) (proposeDeadline pd)
          then Lead_Announce proposeId REJECTED (erase_proposal proposeId (erase_action pd s))
          else if sourceComponentId \<notin> set (nodesInVote pd) then s
          else (let pd = count_vote voteResult sourceComponentId pd;
                    s = s\<lparr>m_proposeData := um_put proposeId pd (m_proposeData s)\<rparr>;
                    majority = consensus_majority (length (nodesInVote pd))
                in if majority \<le> unat (pd_accepted pd)
                   then erase_proposal proposeId
                          (erase_action pd (Lead_Announce proposeId ACCEPTED s))
                   else if majority \<le> unat (pd_rejected pd)
                   then erase_proposal proposeId
                          (Lead_Announce proposeId REJECTED (erase_action pd s))
                   else s))"

section \<open>The machine\<close>

datatype lead_event =
    EvTick clock
  | EvElection clock int LeaderElection
  | EvActionPropose clock string TimeSyncCoordA
  | EvPropose clock bool string "frame option"
  | EvVote clock string VoteResults string

fun lead_step :: "lead_event \<Rightarrow> members \<times> group_lead \<Rightarrow> members \<times> group_lead" where
  "lead_step (EvTick clk) (kn, s) = Lead_Update clk kn s"
| "lead_step (EvElection clk rnd m) (kn, s) = (kn, Lead_Update_msg clk rnd m s)"
| "lead_step (EvActionPropose clk p tsca) (kn, s) = (kn, OnActionProposeFromClient clk kn p tsca s)"
| "lead_step (EvPropose clk junk p f) (kn, s) = (kn, OnProposeFromClient clk kn junk p f s)"
| "lead_step (EvVote clk p r src) (kn, s) = (kn, OnVote clk p r src s)"

section \<open>Majorities\<close>

text \<open>Quorum\<close>

locale quorum =
  fixes maj :: "nat \<Rightarrow> nat" and ok :: "nat \<Rightarrow> bool"
  assumes more_than_half: "ok n \<Longrightarrow> n < 2 * maj n"
    and attainable: "ok n \<Longrightarrow> 0 < n \<Longrightarrow> maj n \<le> n"
begin

lemma intersect:
  assumes "finite N" "A \<subseteq> N" "B \<subseteq> N" "ok n" "card N \<le> n" "maj n \<le> card A" "ok m" "card N \<le> m" "maj m \<le> card B"
  shows "A \<inter> B \<noteq> {}"
proof
  assume "A \<inter> B = {}"
  then have "card (A \<union> B) = card A + card B"
    using assms by (intro card_Un_disjoint) (auto dest: finite_subset)
  moreover have "card (A \<union> B) \<le> card N" using assms by (intro card_mono) auto
  ultimately show False using more_than_half [OF assms(4)] more_than_half [OF assms(7)] assms(5,6,8,9) by linarith
qed

lemma exclusive: "ok n \<Longrightarrow> a + b \<le> n \<Longrightarrow> maj n \<le> a \<Longrightarrow> b < maj n"
  using more_than_half [of n] by linarith

end

lemma unat_majority_election: "unat (majority_election n) = unat n div 2 + 1"
proof (cases "n mod 2 = 0")
  case True
  have lt: "unat n < 2 ^ 32" using unsigned_less [of n] by simp
  have "unat (n div 2 + 1) = unat n div 2 + 1"
    using lt by (simp add: unat_word_ariths unat_div)
  then show ?thesis using True by (simp add: majority_election_def)
next
  case False
  have lt: "unat n < 2 ^ 32" using unsigned_less [of n] by simp
  have "unat (n mod 2) \<noteq> 0" using False by (metis unat_eq_0)
  then have "unat n mod 2 = 1" by (simp add: unat_mod)
  then have "(unat n + 1) div 2 = unat n div 2 + 1" by presburger
  moreover have "unat (of_nat ((unat n + 1) div 2) :: u32) = (unat n + 1) div 2"
    using lt by (subst unat_of_nat) simp
  ultimately show ?thesis using False by (simp add: majority_election_def)
qed

lemma consensus_majority_eq: "consensus_majority n = n div 2 + 1"
  unfolding consensus_majority_def by presburger

interpretation elect: quorum "\<lambda>n. unat (majority_election (of_nat n))" "\<lambda>n. n < 2 ^ 32"
  by unfold_locales (auto simp: unat_majority_election unat_of_nat)

interpretation cons: quorum consensus_majority "\<lambda>n. True"
  by unfold_locales (auto simp: consensus_majority_eq)

section \<open>Frames\<close>

lemma SendInternal_frame [simp]:
  "gl_componentId (SendInternal m s) = gl_componentId s"
  "m_currentState (SendInternal m s) = m_currentState s"
  "m_electionTimeout (SendInternal m s) = m_electionTimeout s"
  "m_electionTerm (SendInternal m s) = m_electionTerm s"
  "m_numberOfNodesInVote (SendInternal m s) = m_numberOfNodesInVote s"
  "m_votes (SendInternal m s) = m_votes s"
  "m_leaderId (SendInternal m s) = m_leaderId s"
  "m_proposeData (SendInternal m s) = m_proposeData s"
  "m_actionData (SendInternal m s) = m_actionData s"
  "gl_sent (SendInternal m s) = gl_sent s @ [(m, None)]"
  by (simp_all add: SendInternal_def)

lemma ChangeLeader_frame [simp]:
  "gl_componentId (ChangeLeader l s) = gl_componentId s"
  "m_currentState (ChangeLeader l s) = m_currentState s"
  "m_electionTimeout (ChangeLeader l s) = m_electionTimeout s"
  "m_electionTerm (ChangeLeader l s) = m_electionTerm s"
  "m_numberOfNodesInVote (ChangeLeader l s) = m_numberOfNodesInVote s"
  "m_votes (ChangeLeader l s) = m_votes s"
  "m_leaderId (ChangeLeader l s) = l"
  "m_proposeData (ChangeLeader l s) = m_proposeData s"
  "m_actionData (ChangeLeader l s) = m_actionData s"
  "gl_sent (ChangeLeader l s) = gl_sent s"
  by (simp_all add: ChangeLeader_def Let_def)

lemma announce_all_frame:
  "gl_sent (fold (\<lambda>p. Lead_Announce p r) ps s) = gl_sent s @ map (\<lambda>p. (announce_msg p r, None)) ps \<and>
   fold (\<lambda>p. Lead_Announce p r) ps s = s\<lparr>gl_sent := gl_sent s @ map (\<lambda>p. (announce_msg p r, None)) ps\<rparr>"
  by (induction ps arbitrary: s) (auto simp: Lead_Announce_def SendInternal_def)

lemma reject_expired_eq:
  "reject_expired clk k s =
     s\<lparr>gl_sent := gl_sent s @ map (\<lambda>p. (announce_msg p REJECTED, None)) (snd (expire_proposals clk k (m_proposeData s))),
       m_proposeData := fst (expire_proposals clk k (m_proposeData s))\<rparr>"
  by (simp add: reject_expired_def split_beta announce_all_frame)

lemma expire_proposals_purge:
  "fst (expire_proposals clk k ps) = purge (\<lambda>now pd. IsTimeout now (proposeDeadline pd)) clk k ps"
  by (induction clk k ps rule: expire_proposals.induct) (auto simp: split_beta Let_def)

lemma expire_proposals_gone:
  "set (snd (expire_proposals clk k ps)) \<subseteq> fst ` set ps"
  by (induction clk k ps rule: expire_proposals.induct) (auto simp: split_beta Let_def)

text \<open>Everything the operations other than the election ones do to the election part: nothing.\<close>

lemmas lead_op_defs = start_election_def on_vote_request_follower_def on_vote_request_other_def
  on_vote_reply_def on_append_follower_def on_append_leader_def reset_election_timeout_def

definition lead_inv :: "members \<times> group_lead \<Rightarrow> bool" where
  "lead_inv ks = (case ks of (kn, s) \<Rightarrow>
     um_inv kn \<and> um_inv (m_votes s) \<and> um_inv (m_proposeData s) \<and> um_inv (m_actionData s) \<and>
     (m_currentState s = LEADER \<longrightarrow>
        m_leaderId s = gl_componentId s \<and>
        majority_election (m_numberOfNodesInVote s) \<le> GetNumberOfVotes s) \<and>
     (m_currentState s = CANDIDATE \<longrightarrow> m_leaderId s = []) \<and>
     (m_currentState s \<noteq> FOLLOWER \<longrightarrow> gl_componentId s \<in> fst ` set (m_votes s)))"

lemma lead_inv_new: "lead_inv ([], GroupLead_new clk rnd junk self)"
  by (simp add: lead_inv_def GroupLead_new_def um.inv_empty)

lemma lead_inv_start: "lead_inv (kn, s) \<Longrightarrow> lead_inv (start_election clk kn s)"
  by (simp add: lead_inv_def start_election_def GetMemberCount_def DeleteTimeoutNodes_def Let_def
      purge_inv SendRequestForVote_def) (simp add: um_inv_def)

lemma lead_inv_reject: "lead_inv (kn, s) \<Longrightarrow> lead_inv (kn, reject_expired clk k s)"
  by (simp add: lead_inv_def reject_expired_eq expire_proposals_purge purge_inv GetNumberOfVotes_def)

lemma lead_inv_tick: "lead_inv (kn, s) \<Longrightarrow> lead_inv (Lead_Update clk kn s)"
  unfolding Lead_Update_def
  by (simp add: lead_inv_start lead_inv_reject Let_def)
    (simp add: lead_inv_def SendAppendEntry_def GetNumberOfVotes_def)

lemma lead_inv_vote_request:
  assumes "lead_inv (kn, s)"
  shows "lead_inv (kn, on_vote_request_follower rnd q s)" "lead_inv (kn, on_vote_request_other rnd q s)"
  using assms
  by (simp_all add: lead_inv_def lead_op_defs Let_def SendVote_def GetNumberOfVotes_def)

lemma lead_inv_vote_reply: 
  assumes "lead_inv (kn, s)" "m_currentState s = CANDIDATE"
  shows "lead_inv (kn, on_vote_reply clk r s)"
  using assms
  by (simp add: lead_inv_def lead_op_defs Let_def SendAppendEntry_def GetNumberOfVotes_def um.inv_put um_put_keys)

lemma lead_inv_append:
  assumes "lead_inv (kn, s)"
  shows "m_currentState s = FOLLOWER \<Longrightarrow> lead_inv (kn, on_append_follower rnd a s)"
    "lead_inv (kn, on_append_leader rnd a s)"
  using assms
  by (simp_all add: lead_inv_def lead_op_defs Let_def GetNumberOfVotes_def)

lemma lead_inv_msg: "lead_inv (kn, s) \<Longrightarrow> lead_inv (kn, Lead_Update_msg clk rnd m s)"
  unfolding Lead_Update_msg_def
  by (simp add: lead_inv_vote_request lead_inv_vote_reply lead_inv_append
      split: NodeState.split option.split)

lemma lead_inv_vote: "lead_inv (kn, s) \<Longrightarrow> lead_inv (kn, OnVote clk p r src s)"
  by (auto simp: lead_inv_def OnVote_def erase_proposal_def erase_action_def Lead_Announce_def Let_def
      um.inv_put um.inv_del GetNumberOfVotes_def split: option.splits)

lemma lead_inv_step: "lead_inv ks \<Longrightarrow> lead_inv (lead_step e ks)"
proof (cases ks)
  case (Pair kn s)
  assume inv: "lead_inv ks"
  show ?thesis
  proof (cases e)
    case (EvTick clk) then show ?thesis using inv Pair lead_inv_tick by simp
  next
    case (EvElection clk rnd m) then show ?thesis using inv Pair lead_inv_msg by simp
  next
    case (EvActionPropose clk p t) then show ?thesis using inv Pair
      by (auto simp: lead_inv_def OnActionProposeFromClient_def Let_def um.inv_put GetNumberOfVotes_def)
  next
    case (EvPropose clk j p f) then show ?thesis using inv Pair
      by (auto simp: lead_inv_def OnProposeFromClient_def Let_def um.inv_put GetNumberOfVotes_def)
  next
    case (EvVote clk p r src) then show ?thesis using inv Pair lead_inv_vote by simp
  qed
qed

interpretation lead: machine lead_step lead_inv
  by unfold_locales (rule lead_inv_step)

section \<open>Consensus refines counting\<close>

fun tally :: "string list \<Rightarrow> nat \<Rightarrow> nat \<Rightarrow> (string \<times> VoteResults) list \<Rightarrow> VoteResults option" where
  "tally N a r [] = None"
| "tally N a r ((src, v) # vs) =
     (if src \<notin> set N then tally N a r vs
      else let a' = (if v = ACCEPTED then Suc a else a);
               r' = (if v = ACCEPTED then r else Suc r)
           in if consensus_majority (length N) \<le> a' then Some ACCEPTED
              else if consensus_majority (length N) \<le> r' then Some REJECTED
              else tally N a' r' vs)"

definition votes_of :: "string list \<Rightarrow> VoteResults \<Rightarrow> (string \<times> VoteResults) list \<Rightarrow> nat" where
  "votes_of N v vs = length (filter (\<lambda>p. fst p \<in> set N \<and> snd p = v) vs)"

type_synonym timed_vote = "clock \<times> string \<times> VoteResults"

definition vote_run :: "string \<Rightarrow> timed_vote list \<Rightarrow> group_lead \<Rightarrow> group_lead" where
  "vote_run p tvs s = fold (\<lambda>(clk, src, v). OnVote clk p v src) tvs s"

lemma votes_of_simps [simp]:
  "votes_of N v [] = 0"
  "votes_of N v ((src, w) # vs) = (if src \<in> set N \<and> w = v then Suc (votes_of N v vs) else votes_of N v vs)"
  by (auto simp: votes_of_def)

lemma not_ACCEPTED [simp]: "v \<noteq> ACCEPTED \<longleftrightarrow> v = REJECTED"
  by (cases v) auto

lemma votes_of_bound:
  assumes "distinct (map fst vs)" "distinct N"
  shows "votes_of N ACCEPTED vs + votes_of N REJECTED vs \<le> length N"
proof -
  have "votes_of N ACCEPTED vs + votes_of N REJECTED vs = length (filter (\<lambda>p. fst p \<in> set N) vs)"
    by (induction vs) auto
  also have "\<dots> = card (fst ` set (filter (\<lambda>p. fst p \<in> set N) vs))"
    using assms(1) distinct_card [of "map fst (filter (\<lambda>p. fst p \<in> set N) vs)"]
    by (simp add: distinct_map_filter)
  also have "\<dots> \<le> card (set N)" by (intro card_mono) auto
  finally show ?thesis using assms(2) by (simp add: distinct_card)
qed

lemma tally_correct:
  assumes "a + votes_of N ACCEPTED vs + r + votes_of N REJECTED vs \<le> length N"
    and "a < consensus_majority (length N)" and "r < consensus_majority (length N)"
  shows "tally N a r vs =
    (if consensus_majority (length N) \<le> a + votes_of N ACCEPTED vs then Some ACCEPTED
     else if consensus_majority (length N) \<le> r + votes_of N REJECTED vs then Some REJECTED
     else None)"
  using assms
proof (induction vs arbitrary: a r)
  case Nil
  then show ?case by simp
next
  case (Cons p vs)
  obtain src v where p: "p = (src, v)" by (cases p)
  have half: "length N < 2 * consensus_majority (length N)" by (simp add: cons.more_than_half)
  show ?case
  proof (cases "src \<in> set N")
    case False
    then show ?thesis using Cons p by simp
  next
    case True
    show ?thesis
      using Cons.IH [of "Suc a" r] Cons.IH [of a "Suc r"] Cons.prems half p True
      by (cases v) (auto simp: Let_def)
  qed
qed

lemma OnVote_unknown: "map_of (m_proposeData s) p = None \<Longrightarrow> OnVote clk p v src s = s"
  by (simp add: OnVote_def)

lemma vote_run_unknown: "map_of (m_proposeData s) p = None \<Longrightarrow> vote_run p tvs s = s"
  unfolding vote_run_def by (induction tvs) (auto simp: OnVote_unknown)

lemma announced_frame [simp]:
  "gl_sent (erase_proposal p s) = gl_sent s"
  "gl_sent (erase_action pd s) = gl_sent s"
  "m_proposeData (erase_action pd s) = m_proposeData s"
  "m_proposeData (erase_proposal p s) = kv_del p (m_proposeData s)"
  by (simp_all add: erase_proposal_def erase_action_def)

lemma u16_Suc: "unat x < k \<Longrightarrow> k < 2 ^ 16 \<Longrightarrow> unat (x + 1 :: u16) = Suc (unat x)"
  by (simp add: unat_word_ariths)

text \<open>One counted vote.\<close>

lemma count_vote_simps [simp]:
  "nodesInVote (count_vote v src pd) = nodesInVote pd"
  "proposeDeadline (count_vote v src pd) = proposeDeadline pd"
  "pd_accepted (count_vote v src pd) = (if v = ACCEPTED then pd_accepted pd + 1 else pd_accepted pd)"
  "pd_rejected (count_vote v src pd) = (if v = ACCEPTED then pd_rejected pd else pd_rejected pd + 1)"
  "isAction (count_vote v src pd) = isAction pd"
  "pd_actionId (count_vote v src pd) = pd_actionId pd"
  by (simp_all add: count_vote_def Let_def)

lemma OnVote_counted:
  assumes "map_of (m_proposeData s) p = Some pd" "\<not> IsTimeout (clk 0) (proposeDeadline pd)"
    and "src \<in> set (nodesInVote pd)" and "pd' = count_vote v src pd"
    and "maj = consensus_majority (length (nodesInVote pd))"
  shows "maj \<le> unat (pd_accepted pd') \<Longrightarrow>
      gl_sent (OnVote clk p v src s) = gl_sent s @ [(announce_msg p ACCEPTED, None)] \<and>
      map_of (m_proposeData (OnVote clk p v src s)) p = None" (is "_ \<Longrightarrow> ?acc")
    and "\<not> maj \<le> unat (pd_accepted pd') \<Longrightarrow> maj \<le> unat (pd_rejected pd') \<Longrightarrow>
      gl_sent (OnVote clk p v src s) = gl_sent s @ [(announce_msg p REJECTED, None)] \<and>
      map_of (m_proposeData (OnVote clk p v src s)) p = None" (is "_ \<Longrightarrow> _ \<Longrightarrow> ?rej")
    and "\<not> maj \<le> unat (pd_accepted pd') \<Longrightarrow> \<not> maj \<le> unat (pd_rejected pd') \<Longrightarrow>
      OnVote clk p v src s = s\<lparr>m_proposeData := um_put p pd' (m_proposeData s)\<rparr>"
      (is "_ \<Longrightarrow> _ \<Longrightarrow> ?wait")
proof -
  have "consensus_majority (length (nodesInVote pd')) = maj" using assms(4,5) by simp
  note shape = this Let_def assms(4) [symmetric] Lead_Announce_def um.get_del
  show "maj \<le> unat (pd_accepted pd') \<Longrightarrow> ?acc" and "\<not> maj \<le> unat (pd_accepted pd') \<Longrightarrow> maj \<le> unat (pd_rejected pd') \<Longrightarrow> ?rej"
    and "\<not> maj \<le> unat (pd_accepted pd') \<Longrightarrow> \<not> maj \<le> unat (pd_rejected pd') \<Longrightarrow> ?wait"
    using assms(1-3) by (simp_all add: OnVote_def shape)
qed

text \<open>What a run of votes did to proposal \<open>p\<close>: nothing was announced, or exactly one result was.\<close>

definition outcome :: "string \<Rightarrow> group_lead \<Rightarrow> group_lead \<Rightarrow> VoteResults option \<Rightarrow> bool" where
  "outcome p s s' res = (case res of
      None \<Rightarrow> gl_sent s' = gl_sent s \<and> map_of (m_proposeData s') p \<noteq> None
    | Some r \<Rightarrow> gl_sent s' = gl_sent s @ [(announce_msg p r, None)] \<and> map_of (m_proposeData s') p = None)"

lemma outcome_from: "gl_sent s1 = gl_sent s \<Longrightarrow> outcome p s1 s' res = outcome p s s' res"
  by (simp add: outcome_def split: option.split)

definition pending :: "string \<Rightarrow> propose_data \<Rightarrow> group_lead \<Rightarrow> bool" where
  "pending p pd s \<longleftrightarrow> map_of (m_proposeData s) p = Some pd \<and> length (nodesInVote pd) < 2 ^ 16 \<and>
     unat (pd_accepted pd) < consensus_majority (length (nodesInVote pd)) \<and>
     unat (pd_rejected pd) < consensus_majority (length (nodesInVote pd))"

lemma count_vote_unat:
  assumes "pending p pd s" "src \<in> set (nodesInVote pd)"
  shows "unat (pd_accepted (count_vote v src pd)) =
      (if v = ACCEPTED then Suc (unat (pd_accepted pd)) else unat (pd_accepted pd))"
    and "unat (pd_rejected (count_vote v src pd)) =
      (if v = ACCEPTED then unat (pd_rejected pd) else Suc (unat (pd_rejected pd)))"
proof -
  have "consensus_majority (length (nodesInVote pd)) \<le> length (nodesInVote pd)"
    using assms(2) by (intro cons.attainable) (auto simp: length_pos_if_in_set)
  then have "consensus_majority (length (nodesInVote pd)) < 2 ^ 16"
    using assms(1) by (simp add: pending_def)
  then show "unat (pd_accepted (count_vote v src pd)) =
      (if v = ACCEPTED then Suc (unat (pd_accepted pd)) else unat (pd_accepted pd))"
    and "unat (pd_rejected (count_vote v src pd)) =
      (if v = ACCEPTED then unat (pd_rejected pd) else Suc (unat (pd_rejected pd)))"
    using assms(1) u16_Suc by (auto simp: pending_def)
qed

text \<open>One vote of an eligible member is one step of the tally.\<close>

lemma OnVote_tally:
  assumes "pending p pd s" "\<not> IsTimeout (clk 0) (proposeDeadline pd)" "src \<in> set (nodesInVote pd)"
    and "s' = OnVote clk p v src s" and "pd' = count_vote v src pd"
  obtains (decided) res where "outcome p s s' (Some res)"
      "\<And>vs. tally (nodesInVote pd) (unat (pd_accepted pd)) (unat (pd_rejected pd)) ((src, v) # vs) = Some res"
  | (waiting) "pending p pd' s'" "gl_sent s' = gl_sent s"
      "\<And>vs. tally (nodesInVote pd) (unat (pd_accepted pd)) (unat (pd_rejected pd)) ((src, v) # vs) =
         tally (nodesInVote pd') (unat (pd_accepted pd')) (unat (pd_rejected pd')) vs"
proof -
  define maj where "maj = consensus_majority (length (nodesInVote pd))"
  have reg: "map_of (m_proposeData s) p = Some pd" using assms(1) by (simp add: pending_def)
  note counted = OnVote_counted [where clk = clk, OF reg assms(2,3,5) maj_def, folded assms(4)]
  note num = count_vote_unat [OF assms(1,3), of v, folded assms(5)]
  consider "maj \<le> unat (pd_accepted pd')"
    | "\<not> maj \<le> unat (pd_accepted pd')" "maj \<le> unat (pd_rejected pd')"
    | "\<not> maj \<le> unat (pd_accepted pd')" "\<not> maj \<le> unat (pd_rejected pd')" by blast
  then show ?thesis
  proof cases
    case 1
    show ?thesis by (rule decided [of ACCEPTED]) (use 1 counted(1) num assms(3) in \<open>simp_all add: outcome_def maj_def Let_def\<close>)
  next
    case 2
    show ?thesis by (rule decided [of REJECTED]) (use 2 counted(2) num assms(3) in \<open>simp_all add: outcome_def maj_def Let_def\<close>)
  next
    case 3
    have nv: "nodesInVote pd' = nodesInVote pd" by (simp add: assms(5))
    show ?thesis
      by (rule waiting) (use 3 counted(3) num assms(1,3) nv in \<open>simp_all add: pending_def maj_def Let_def um_get_put\<close>)
  qed
qed

lemma vote_run_Cons: "vote_run p ((clk, src, v) # tvs) s = vote_run p tvs (OnVote clk p v src s)"
  by (simp add: vote_run_def)

lemma vote_run_refines:
  assumes "pending p pd s"
    and "\<forall>(clk, src, v) \<in> set tvs. \<not> IsTimeout (clk 0) (proposeDeadline pd)"
  shows "outcome p s (vote_run p tvs s)
    (tally (nodesInVote pd) (unat (pd_accepted pd)) (unat (pd_rejected pd)) (map snd tvs))"
  using assms
proof (induction tvs arbitrary: s pd)
  case Nil
  then show ?case by (simp add: vote_run_def outcome_def pending_def)
next
  case (Cons tv tvs)
  obtain clk src v where tv: "tv = (clk, src, v)" by (cases tv)
  let ?s = "OnVote clk p v src s"
  have now: "\<not> IsTimeout (clk 0) (proposeDeadline pd)"
    and later: "\<forall>(clk, src, v) \<in> set tvs. \<not> IsTimeout (clk 0) (proposeDeadline pd)"
    using Cons.prems(2) tv by auto
  show ?case
  proof (cases "src \<in> set (nodesInVote pd)")
    case False
    then have "?s = s" using Cons.prems(1) now by (simp add: OnVote_def pending_def)
    then show ?thesis using Cons.IH [OF Cons.prems(1) later] False by (simp add: tv vote_run_Cons)
  next
    case True
    from OnVote_tally [where clk = clk and v = v, OF Cons.prems(1) now True refl refl]
    show ?thesis
    proof cases
      case (1 res)
      then have "vote_run p tvs ?s = ?s" by (intro vote_run_unknown) (simp add: outcome_def)
      then show ?thesis using 1 by (simp add: tv vote_run_Cons)
    next
      case 2
      have "outcome p ?s (vote_run p tvs ?s) (tally (nodesInVote pd) (unat (pd_accepted pd))
          (unat (pd_rejected pd)) ((src, v) # map snd tvs))"
        unfolding 2(3) by (rule Cons.IH [OF 2(1)]) (use later in \<open>auto split: prod.splits\<close>)
      then show ?thesis by (simp only: tv vote_run_Cons list.map snd_conv outcome_from [OF 2(2)])
    qed
  qed
qed

text \<open>A proposal just registered.\<close>

lemma pending_fresh:
  assumes "m_leaderId s = gl_componentId s" "length kn < 2 ^ 16"
  shows "pending p (ProposeData_new (GetKnownComponents clk 0 kn) (Timeout_dur (clk (length kn)) PROPOSE_PERIOD) junk)
     (OnProposeFromClient clk kn junk p f s)"
  using assms le_trans [OF purge_length]
  by (auto simp: pending_def OnProposeFromClient_def ProposeData_new_def GetKnownComponents_def Let_def um_get_put
      consensus_majority_eq intro: le_less_trans [OF purge_length])


lemma consensus_outcome:
  assumes "m_leaderId s = gl_componentId s" "um_inv kn" "length kn < 2 ^ 16"
    and "N = GetKnownComponents clk 0 kn" and "s1 = OnProposeFromClient clk kn junk p f s"
    and "distinct (map (fst \<circ> snd) tvs)"
    and "\<forall>(c, src, v) \<in> set tvs. c 0 \<le> clk (length kn) + PROPOSE_PERIOD"
  shows "outcome p s1 (vote_run p tvs s1)
    (if consensus_majority (length N) \<le> votes_of N ACCEPTED (map snd tvs) then Some ACCEPTED
     else if consensus_majority (length N) \<le> votes_of N REJECTED (map snd tvs) then Some REJECTED
     else None)"
proof -
  define pd where "pd = ProposeData_new N (Timeout_dur (clk (length kn)) PROPOSE_PERIOD) junk"
  have pd: "nodesInVote pd = N" "pd_accepted pd = 0" "pd_rejected pd = 0"
    "proposeDeadline pd = Timeout_dur (clk (length kn)) PROPOSE_PERIOD"
    by (simp_all add: pd_def ProposeData_new_def)
  have "pending p pd s1"
    using pending_fresh [OF assms(1,3)] by (simp add: pd_def assms(4,5))
  moreover have "\<forall>(c, src, v) \<in> set tvs. \<not> IsTimeout (c 0) (proposeDeadline pd)"
    using assms(7) by (fastforce simp: pd(4) timeout_defs)
  ultimately have "outcome p s1 (vote_run p tvs s1) (tally N 0 0 (map snd tvs))"
    using vote_run_refines [of p pd s1 tvs] pd by simp
  moreover have "distinct N"
    using purge_inv [of kn] assms(2) by (simp add: assms(4) GetKnownComponents_def um_inv_def)
  moreover have "0 < consensus_majority (length N)" by (simp add: consensus_majority_eq)
  ultimately show ?thesis
    using tally_correct [of 0 N "map snd tvs" 0, unfolded add_0] votes_of_bound [of "map snd tvs" N] assms(6) by simp
qed

text \<open>C3: the consensus decision.  A proposal the leader registers is voted on by the members known
  at that moment.  Whatever the order in which the votes of distinct members arrive before the deadline, the leader
  announces ACCEPTED exactly once and forgets the proposal iff the accepting members are a
  majority of those members, REJECTED iff the rejecting ones are, and announces nothing otherwise.\<close>

theorem consensus_decides:
  assumes "m_leaderId s = gl_componentId s" "um_inv kn" "length kn < 2 ^ 16"
    and "N = GetKnownComponents clk 0 kn" and "s1 = OnProposeFromClient clk kn junk p f s"
    and "distinct (map (fst \<circ> snd) tvs)"
    and "\<forall>(c, src, v) \<in> set tvs. c 0 \<le> clk (length kn) + PROPOSE_PERIOD"
  shows "outcome p s1 (vote_run p tvs s1)
    (if consensus_majority (length N) \<le> votes_of N ACCEPTED (map snd tvs) then Some ACCEPTED
     else if consensus_majority (length N) \<le> votes_of N REJECTED (map snd tvs) then Some REJECTED
     else None)"
  using assms by (rule consensus_outcome)

lemma tally_replicate:
  assumes "src \<in> set N" "a + n = consensus_majority (length N)" "0 < n" "r < consensus_majority (length N)"
  shows "tally N a r (replicate n (src, ACCEPTED)) = Some ACCEPTED"
  using assms
proof (induction n arbitrary: a)
  case (Suc n)
  then show ?case by (cases n) (auto simp: Let_def)
qed simp

text \<open>a member is counted as often as it votes.  The set \<^verbatim>\<open>nodesVoted\<close> is filled and never
  consulted, so one member of the group that repeats its vote a majority of times gets the
  proposal accepted alone.\<close>

theorem repeated_vote_accepts:
  assumes "pending p pd s" "src \<in> set (nodesInVote pd)"
    and "pd_accepted pd = 0" "pd_rejected pd = 0"
    and "\<not> IsTimeout (clk 0) (proposeDeadline pd)"
  shows "outcome p s (vote_run p (replicate (consensus_majority (length (nodesInVote pd))) (clk, src, ACCEPTED)) s)
    (Some ACCEPTED)"
proof -
  define n where "n = consensus_majority (length (nodesInVote pd))"
  have "0 < n" by (simp add: n_def consensus_majority_eq)
  then have "tally (nodesInVote pd) 0 0 (replicate n (src, ACCEPTED)) = Some ACCEPTED"
    by (intro tally_replicate) (simp_all add: assms(2) n_def)
  moreover have "outcome p s (vote_run p (replicate n (clk, src, ACCEPTED)) s)
      (tally (nodesInVote pd) 0 0 (replicate n (src, ACCEPTED)))"
    using vote_run_refines [OF assms(1), of "replicate n (clk, src, ACCEPTED)"] assms(3-5)
    by (simp add: map_replicate)
  ultimately show ?thesis by (simp add: n_def)
qed

section \<open>Properties of one node\<close>

lemma election_deadline_msg:
  "m_endPoint (m_electionTimeout (Lead_Update_msg clk rnd m s)) = m_endPoint (m_electionTimeout s)"
  by (simp add: Lead_Update_msg_def lead_op_defs Let_def SendVote_def SendAppendEntry_def timeout_defs
      split: NodeState.split option.split)

lemma heartbeat_keeps_follower:
  "m_currentState s = FOLLOWER \<Longrightarrow>
   m_currentState (Lead_Update_msg clk rnd (msg_append_entry a) s) = FOLLOWER"
  by (simp add: Lead_Update_msg_def msg_append_entry_def lead_op_defs Let_def)

text \<open>C35: heartbeats do not hold an election back.  Every handler that hears from a
  leader or votes calls \<^verbatim>\<open>Timeout::Reset(int64_t)\<close>, which stores the new duration and moves
  neither end of the interval: a follower that received any sequence of heartbeats still
  becomes a candidate in a higher term at the first tick after its original deadline.\<close>

theorem heartbeats_do_not_prevent_election:
  assumes "m_currentState s = FOLLOWER"
    and "s' = fold (\<lambda>(clk, rnd, a). Lead_Update_msg clk rnd (msg_append_entry a)) hbs s"
    and "m_endPoint (m_electionTimeout s) < clk 1" "m_endPoint (m_electionTimeout s) < clk 2"
  shows "m_currentState (snd (Lead_Update clk kn s')) = CANDIDATE
    \<and> m_electionTerm (snd (Lead_Update clk kn s')) = m_electionTerm s' + 1"
proof -
  have "m_currentState s' = FOLLOWER \<and> m_endPoint (m_electionTimeout s') = m_endPoint (m_electionTimeout s)"
    using assms(1) unfolding assms(2)
    by (induction hbs arbitrary: s) (auto simp: heartbeat_keeps_follower election_deadline_msg)
  then show ?thesis using assms(3,4)
    by (simp add: Lead_Update_def start_election_def Let_def split_beta SendRequestForVote_def IsTimeout_def)
qed

text \<open>a deposed leader still believes it leads.  On a vote request with a higher term the
  handler sets the state to FOLLOWER before it asks whether it was LEADER, so the leader id
  keeps naming the node itself, no leader change is reported, and the node goes on
  registering proposals as if it led.\<close>

theorem deposed_leader_still_takes_proposals:
  assumes "lead_inv (kn, s)" "m_currentState s = LEADER" "m_electionTerm s < vq_electionTerm q"
    and "s' = Lead_Update_msg clk rnd (msg_vote_req q) s"
  shows "m_currentState s' = FOLLOWER \<and> m_leaderId s' = gl_componentId s' \<and> gl_changed s' = gl_changed s
    \<and> map_of (m_proposeData (OnProposeFromClient clk' kn junk p f s')) p \<noteq> None"
  using assms
  by (simp add: lead_inv_def Lead_Update_msg_def msg_vote_req_def on_vote_request_other_def Let_def
      reset_election_timeout_def SendVote_def OnProposeFromClient_def um_get_put SendInternal_def)

text \<open>a late heartbeat lets a follower vote twice in one term.  An append entry is
  accepted whatever its term and overwrites the follower's: after a heartbeat of an older
  term the follower answers another candidate of the term it had voted in.\<close>

theorem stale_heartbeat_allows_second_vote:
  assumes "m_currentState s = FOLLOWER" "ae_electionTerm a < m_electionTerm s"
    and "vq_electionTerm q = m_electionTerm s" "vq_sourceComponentId q \<noteq> gl_componentId s"
  shows "gl_sent (Lead_Update_msg c2 r2 (msg_vote_req q) (Lead_Update_msg c1 r1 (msg_append_entry a) s)) =
     gl_sent s @ [(IntLeaderElection (msg_vote_rep \<lparr>vr_sourceComponentId = gl_componentId s,
       vr_voteForId = vq_sourceComponentId q, vr_electionTerm = m_electionTerm s\<rparr>), None)]"
  using assms
  by (simp add: Lead_Update_msg_def msg_vote_req_def msg_append_entry_def lead_op_defs Let_def SendVote_def)

text \<open>C33: the tick of a leader, with the clock read anew for every decision.  When a heartbeat is due it sends the heartbeat
  and leaves the proposals alone, expired or not, for the next tick.  Otherwise it announces REJECTED for exactly the
  proposals whose deadline has passed at their reading of the clock, in the order of the table, forgets them, and keeps
  every other one; only when the heartbeat falls due between two readings does it do nothing.\<close>

theorem leader_tick_rejects_expired:
  assumes "m_currentState s = LEADER" "(kn', s') = Lead_Update clk kn s"
    and "ps = enumerate 0 (m_proposeData s)" "expired = (\<lambda>(i, p, pd). IsTimeout (clk (3 + i)) (proposeDeadline pd))"
  shows "if IsTimeout (clk 1) (m_appEntryTimeout s)
    then m_proposeData s' = m_proposeData s \<and>
      gl_sent s' = gl_sent s @ [(IntLeaderElection (msg_append_entry \<lparr>ae_sourceComponentId = gl_componentId s,
        ae_electionTerm = m_electionTerm s\<rparr>), None)]
    else if IsTimeout (clk 2) (m_appEntryTimeout s) then s' = s
    else m_proposeData s' = map snd (filter (\<lambda>x. \<not> expired x) ps) \<and>
      gl_sent s' = gl_sent s @ map (\<lambda>(i, p, pd). (announce_msg p REJECTED, None)) (filter expired ps)"
proof -
  have expire: "expire_proposals clk (3 + k) ps =
      (map snd (filter (\<lambda>x. \<not> expired x) (enumerate k ps)), map (fst \<circ> snd) (filter expired (enumerate k ps)))" for k ps
  proof (induction ps arbitrary: k)
    case (Cons a ps)
    then show ?case using Cons [of "Suc k"] by (cases a) (simp add: assms(4))
  qed simp
  show ?thesis
    using assms(1,2) expire [of 0 "m_proposeData s"]
    by (auto simp: Lead_Update_def SendAppendEntry_def SendInternal_def reject_expired_eq assms(3) Let_def comp_def split_beta)
qed

text \<open>Witnesses: a leader \<open>a\<close> that knows the members \<open>b\<close>, \<open>c\<close> and \<open>d\<close>.\<close>

definition ex_members :: members where
  "ex_members = map (\<lambda>n. (n, Timeout_dur 0 (milliseconds * 1000))) [''b'', ''c'', ''d'']"

definition ex_lead :: group_lead where
  "ex_lead = (GroupLead_new (\<lambda>_. 0) 200 0 ''a'')
     \<lparr>m_currentState := LEADER, m_leaderId := ''a'', m_electionTerm := 2, m_numberOfNodesInVote := 2,
      m_votes := [(''a'', 0), (''b'', 0)]\<rparr>"

theorem consensus_decides_witness:
  "outcome ''p'' (OnProposeFromClient (\<lambda>_. 0) ex_members False ''p'' None ex_lead)
     (vote_run ''p'' [(\<lambda>_. 5, ''b'', ACCEPTED), (\<lambda>_. 6, ''x'', REJECTED), (\<lambda>_. 7, ''c'', ACCEPTED)]
        (OnProposeFromClient (\<lambda>_. 0) ex_members False ''p'' None ex_lead)) (Some ACCEPTED)"
proof -
  have N: "GetKnownComponents (\<lambda>_. 0) 0 ex_members = [''b'', ''c'', ''d'']"
    by (simp add: GetKnownComponents_def ex_members_def timeout_defs)
  show ?thesis
    using consensus_decides [of ex_lead ex_members _ "\<lambda>_. 0" _ False "''p''" None
        "[(\<lambda>_. 5, ''b'', ACCEPTED), (\<lambda>_. 6, ''x'', REJECTED), (\<lambda>_. 7, ''c'', ACCEPTED)]", OF _ _ _ refl refl]
    by (simp add: N consensus_majority_def) (simp add: ex_lead_def ex_members_def GroupLead_new_def um_inv_def)
qed

theorem repeated_vote_accepts_witness:
  "outcome ''p'' (OnProposeFromClient (\<lambda>_. 0) ex_members False ''p'' None ex_lead)
     (vote_run ''p'' [(\<lambda>_. 5, ''b'', ACCEPTED), (\<lambda>_. 5, ''b'', ACCEPTED)]
        (OnProposeFromClient (\<lambda>_. 0) ex_members False ''p'' None ex_lead)) (Some ACCEPTED)"
proof -
  define pd where "pd = ProposeData_new (GetKnownComponents (\<lambda>_. 0) 0 ex_members)
    (Timeout_dur 0 PROPOSE_PERIOD) False"
  have pd: "nodesInVote pd = [''b'', ''c'', ''d'']" "pd_accepted pd = 0" "pd_rejected pd = 0"
    "\<not> IsTimeout 5 (proposeDeadline pd)"
    by (simp_all add: pd_def ProposeData_new_def GetKnownComponents_def ex_members_def timeout_defs)
  have "pending ''p'' pd (OnProposeFromClient (\<lambda>_. 0) ex_members False ''p'' None ex_lead)"
    using pending_fresh [where s = ex_lead and kn = ex_members and clk = "\<lambda>_. 0" and p = "''p''"
        and junk = False and f = None]
    by (simp add: pd_def) (simp add: ex_lead_def GroupLead_new_def ex_members_def)
  from repeated_vote_accepts [OF this, of "''b''" "\<lambda>_. 5"] pd show ?thesis
    by (simp add: consensus_majority_def)
qed

theorem heartbeats_do_not_prevent_election_witness:
  "m_currentState (snd (Lead_Update (\<lambda>_. milliseconds * 201) []
     (Lead_Update_msg (\<lambda>_. milliseconds * 199) 300 (msg_append_entry \<lparr>ae_sourceComponentId = ''b'', ae_electionTerm = 7\<rparr>)
       (GroupLead_new (\<lambda>_. 0) 200 0 ''a'')))) = CANDIDATE"
  using heartbeats_do_not_prevent_election [of "GroupLead_new (\<lambda>_. 0) 200 0 ''a''" _
      "[(\<lambda>_. milliseconds * 199, 300, \<lparr>ae_sourceComponentId = ''b'', ae_electionTerm = 7\<rparr>)]"
      "\<lambda>_. milliseconds * 201" "[]", OF _ refl]
  by (simp add: GroupLead_new_def timeout_defs)

theorem deposed_leader_still_takes_proposals_witness:
  "map_of (m_proposeData (OnProposeFromClient (\<lambda>_. 0) ex_members False ''p'' None
     (Lead_Update_msg (\<lambda>_. 0) 200 (msg_vote_req \<lparr>vq_sourceComponentId = ''b'', vq_electionTerm = 3\<rparr>) ex_lead))) ''p'' \<noteq> None"
proof -
  have "lead_inv (ex_members, ex_lead)" "m_currentState ex_lead = LEADER" "m_electionTerm ex_lead < 3"
    by (simp_all add: lead_inv_def ex_lead_def ex_members_def GroupLead_new_def um_inv_def
        majority_election_def GetNumberOfVotes_def)
  then show ?thesis
    using deposed_leader_still_takes_proposals [where q = "\<lparr>vq_sourceComponentId = ''b'', vq_electionTerm = 3\<rparr>"
        and clk = "\<lambda>_. 0" and rnd = 200 and s = ex_lead and kn = ex_members, OF _ _ _ refl]
    by (simp del: not_None_eq)
qed

theorem stale_heartbeat_allows_second_vote_witness:
  "length (gl_sent (fold (Lead_Update_msg (\<lambda>_. 0) 200)
     [msg_vote_req \<lparr>vq_sourceComponentId = ''b'', vq_electionTerm = 3\<rparr>,
      msg_append_entry \<lparr>ae_sourceComponentId = ''d'', ae_electionTerm = 2\<rparr>,
      msg_vote_req \<lparr>vq_sourceComponentId = ''c'', vq_electionTerm = 3\<rparr>] (GroupLead_new (\<lambda>_. 0) 200 0 ''a''))) = 2"
proof -
  define s where "s = Lead_Update_msg (\<lambda>_. 0) 200 (msg_vote_req \<lparr>vq_sourceComponentId = ''b'', vq_electionTerm = 3\<rparr>)
    (GroupLead_new (\<lambda>_. 0) 200 0 ''a'')"
  have "m_currentState s = FOLLOWER" "m_electionTerm s = 3" "gl_componentId s = ''a''" "length (gl_sent s) = 1"
    by (simp_all add: s_def GroupLead_new_def Lead_Update_msg_def msg_vote_req_def lead_op_defs SendVote_def)
  then show ?thesis
    using stale_heartbeat_allows_second_vote [of s "\<lparr>ae_sourceComponentId = ''d'', ae_electionTerm = 2\<rparr>"
        "\<lparr>vq_sourceComponentId = ''c'', vq_electionTerm = 3\<rparr>" "\<lambda>_. 0" 200 "\<lambda>_. 0" 200]
    by (simp flip: s_def)
qed

theorem leader_tick_rejects_expired_witness:
  "gl_sent (snd (Lead_Update (\<lambda>_. 9) ex_members (ex_lead\<lparr>m_proposeData :=
      [(''p'', ProposeData_new [''b''] (Timeout_dur 0 5) False), (''q'', ProposeData_new [''b''] (Timeout_dur 0 50) False)]\<rparr>)))
    = [(announce_msg ''p'' REJECTED, None)]"
  using leader_tick_rejects_expired [of "ex_lead\<lparr>m_proposeData :=
      [(''p'', ProposeData_new [''b''] (Timeout_dur 0 5) False), (''q'', ProposeData_new [''b''] (Timeout_dur 0 50) False)]\<rparr>"
      _ _ "\<lambda>_. 9" ex_members, OF _ prod.collapse refl refl]
  by (simp add: ex_lead_def GroupLead_new_def timeout_defs ProposeData_new_def)

end
