(* ===== verification/Election_Safety.thy ===== *)
theory Election_Safety
  imports Group_Lead
begin

text \<open>
  Safety of the leader election of \<^verbatim>\<open>src/groups/r_grouplead.cc\<close> in a group of nodes.  An
  abstract voter (a term and the votes cast) says what every node owes the others; the
  handlers of \<open>Group_Lead\<close> refine it as long as heartbeats are not stale and terms do not
  wrap.  A network of nodes that exchange their election messages in any order, with loss
  and duplication, then has at most one leader per term, provided that a node that starts an election counts the whole
  group; without this two halves of a group elect a leader each (\<open>split_group_two_leaders\<close>).
\<close>

section \<open>The abstract voter\<close>

text \<open>What a node owes the others: its term never falls, and it casts at most one vote per
  term, always in a term above every one it was in before.\<close>

type_synonym voter = "u32 \<times> (u32 \<times> string) list"

inductive voter_step :: "voter \<Rightarrow> voter \<Rightarrow> bool" where
  keep: "t \<le> t' \<Longrightarrow> voter_step (t, cs) (t', cs)"
| cast: "t < t' \<Longrightarrow> voter_step (t, cs) (t', cs @ [(t', c)])"

inductive_simps voter_step_simps: "voter_step (t, cs) (t', cs')"

definition voter_ok :: "voter \<Rightarrow> bool" where
  "voter_ok v = (case v of (t, cs) \<Rightarrow> distinct (map fst cs) \<and> (\<forall>(u, c) \<in> set cs. u \<le> t))"

lemma voter_ok_step: "voter_step v v' \<Longrightarrow> voter_ok v \<Longrightarrow> voter_ok v'"
  by (induction rule: voter_step.induct) (fastforce simp: voter_ok_def)+

lemma voter_casts_grow: "voter_step v v' \<Longrightarrow> set (snd v) \<subseteq> set (snd v')"
  by (induction rule: voter_step.induct) auto

lemma voter_one_ballot: "voter_ok (t, cs) \<Longrightarrow> (u, c) \<in> set cs \<Longrightarrow> (u, d) \<in> set cs \<Longrightarrow> c = d"
  by (auto simp: voter_ok_def dest: eq_key_imp_eq_value)

text \<open>The votes a node has cast: its own candidacies and its replies, in the order sent.\<close>

fun cast_of :: "GroupInternals \<Rightarrow> (u32 \<times> string) list" where
  "cast_of (IntLeaderElection m) = (case le_requestForVoteReq m of
      Some q \<Rightarrow> [(vq_electionTerm q, vq_sourceComponentId q)]
    | None \<Rightarrow> (case le_requestForVoteRep m of Some r \<Rightarrow> [(vr_electionTerm r, vr_voteForId r)] | None \<Rightarrow> []))"
| "cast_of _ = []"

definition casts :: "group_lead \<Rightarrow> (u32 \<times> string) list" where
  "casts s = concat (map (cast_of \<circ> fst) (gl_sent s))"

definition abs_voter :: "group_lead \<Rightarrow> voter" where
  "abs_voter s = (m_electionTerm s, casts s)"

fun authentic_msg :: "string \<Rightarrow> GroupInternals \<Rightarrow> bool" where
  "authentic_msg i (IntLeaderElection m) = (case le_requestForVoteRep m of
      Some r \<Rightarrow> vr_sourceComponentId r = i | None \<Rightarrow> True)"
| "authentic_msg _ _ = True"

definition authentic :: "group_lead \<Rightarrow> bool" where
  "authentic s = (\<forall>(m, f) \<in> set (gl_sent s). authentic_msg (gl_componentId s) m)"

text \<open>The steps a node may take: it does not start an election in the last term, and a
  follower does not receive a heartbeat of a term below its own.\<close>

fun timely :: "lead_event \<Rightarrow> members \<times> group_lead \<Rightarrow> bool" where
  "timely (EvTick clk) (kn, s) = (m_electionTerm s \<noteq> - 1)"
| "timely (EvElection clk rnd m) (kn, s) = (case le_appendEntry m of
      Some a \<Rightarrow> m_currentState s = FOLLOWER \<longrightarrow> m_electionTerm s \<le> ae_electionTerm a
    | None \<Rightarrow> True)"
| "timely _ _ = True"

lemma casts_frame [simp]:
  "casts (SendInternal m s) = casts s @ cast_of m"
  "casts (ChangeLeader l s) = casts s"
  "casts (s\<lparr>m_electionTimeout := x1\<rparr>) = casts s"
  "casts (s\<lparr>m_currentState := x2\<rparr>) = casts s"
  "casts (s\<lparr>m_electionTerm := x3\<rparr>) = casts s"
  "casts (s\<lparr>m_votes := x4\<rparr>) = casts s"
  "casts (s\<lparr>m_numberOfNodesInVote := x5\<rparr>) = casts s"
  "casts (s\<lparr>m_appEntryTimeout := x6\<rparr>) = casts s"
  "casts (s\<lparr>m_leaderId := x7\<rparr>) = casts s"
  "casts (s\<lparr>m_proposeData := x8\<rparr>) = casts s"
  "casts (s\<lparr>m_actionData := x9\<rparr>) = casts s"
  "casts (s\<lparr>gl_sent := gl_sent s @ ms\<rparr>) = casts s @ concat (map (cast_of \<circ> fst) ms)"
  by (simp_all add: casts_def)

lemma cast_of_msgs [simp]:
  "cast_of (IntLeaderElection (msg_vote_req q)) = [(vq_electionTerm q, vq_sourceComponentId q)]"
  "cast_of (IntLeaderElection (msg_vote_rep r)) = [(vr_electionTerm r, vr_voteForId r)]"
  "cast_of (IntLeaderElection (msg_append_entry a)) = []"
  "cast_of (announce_msg p v) = []"
  by (simp_all add: msg_vote_req_def msg_vote_rep_def msg_append_entry_def announce_msg_def)

lemma authentic_msgs [simp]:
  "authentic_msg i (IntLeaderElection (msg_vote_req q))"
  "authentic_msg i (IntLeaderElection (msg_vote_rep r)) \<longleftrightarrow> vr_sourceComponentId r = i"
  "authentic_msg i (IntLeaderElection (msg_append_entry a))"
  "authentic_msg i (announce_msg p v)"
  by (simp_all add: msg_vote_req_def msg_vote_rep_def msg_append_entry_def announce_msg_def)

declare cast_of.simps(1) [simp del] authentic_msg.simps(1) [simp del]

lemma announce_casts [simp]:
  "concat (map (cast_of \<circ> fst) (map (\<lambda>p. (announce_msg p r, None)) ps)) = []"
  by (induction ps) auto

text \<open>What a step can do to the election part of a node.\<close>

definition same_election :: "group_lead \<Rightarrow> group_lead \<Rightarrow> bool" where
  "same_election s s' \<longleftrightarrow> gl_componentId s' = gl_componentId s \<and> m_currentState s' = m_currentState s \<and>
     m_electionTerm s' = m_electionTerm s \<and> m_votes s' = m_votes s \<and>
     m_numberOfNodesInVote s' = m_numberOfNodesInVote s \<and> casts s' = casts s \<and>
     (authentic s \<longrightarrow> authentic s')"

lemma same_election_refl [simp]: "same_election s s" by (simp add: same_election_def)

lemma erase_simps:
  "erase_proposal p s = s\<lparr>m_proposeData := kv_del p (m_proposeData s)\<rparr>"
  "\<exists>acts. erase_action pd s = s\<lparr>m_actionData := acts\<rparr>"
proof -
  show "\<exists>acts. erase_action pd s = s\<lparr>m_actionData := acts\<rparr>"
    by (cases "isAction pd \<and> map_of (m_actionData s) (pd_actionId pd) \<noteq> None")
      (auto simp: erase_action_def intro: exI [of _ "m_actionData s"])
qed (simp add: erase_proposal_def)

lemma same_election_steps [simp]:
  "same_election s (s1\<lparr>m_proposeData := pds\<rparr>) = same_election s s1"
  "same_election s (s1\<lparr>m_actionData := acts\<rparr>) = same_election s s1"
  "same_election s (s1\<lparr>m_appEntryTimeout := x6\<rparr>) = same_election s s1"
  "same_election s (s1\<lparr>m_leaderId := x7\<rparr>) = same_election s s1"
  "same_election s (erase_proposal p s1) = same_election s s1"
  "same_election s (erase_action pd s1) = same_election s s1"
  by (simp_all add: same_election_def authentic_def erase_proposal_def erase_action_def)

lemma same_election_send:
  "same_election s s1 \<Longrightarrow> concat (map (cast_of \<circ> fst) ms) = [] \<Longrightarrow>
   (\<And>m f i. (m, f) \<in> set ms \<Longrightarrow> authentic_msg i m) \<Longrightarrow> same_election s (s1\<lparr>gl_sent := gl_sent s1 @ ms\<rparr>)"
  by (auto simp: same_election_def authentic_def casts_def)

lemma same_election_announce [simp]:
  "same_election s s1 \<Longrightarrow> same_election s (Lead_Announce p r s1)"
  unfolding Lead_Announce_def SendInternal_def by (rule same_election_send) auto

lemma same_election_ops:
  "same_election s (reject_expired clk k s)"
  "same_election s (OnVote clk p v src s)"
  "same_election s (OnProposeFromClient clk kn junk p f s)"
  "same_election s (OnActionProposeFromClient clk kn p t s)"
proof -
  show "same_election s (reject_expired clk k s)"
    unfolding reject_expired_eq by (simp, rule same_election_send) auto
  show "same_election s (OnVote clk p v src s)"
    by (simp add: OnVote_def Let_def split: option.split)
  show "same_election s (OnProposeFromClient clk kn junk p f s)"
    by (auto simp: OnProposeFromClient_def Let_def same_election_def authentic_def casts_def)
  show "same_election s (OnActionProposeFromClient clk kn p t s)"
    by (auto simp: OnActionProposeFromClient_def Let_def same_election_def authentic_def casts_def)
qed


lemma u32_succ_greater:
  fixes x :: u32
  assumes "x \<noteq> - 1"
  shows "x < x + 1"
proof -
  have "unat x \<noteq> 4294967295"
  proof
    assume "unat x = 4294967295"
    then show False using assms by (simp add: word_unat_eq_iff unsigned_minus_1_eq_mask mask_eq_exp_minus_1)
  qed
  moreover have "unat x < 2 ^ 32" using unsigned_less [of x] by simp
  ultimately have "unat x + 1 < 2 ^ 32" by simp
  then show ?thesis by (simp add: word_less_nat_alt unat_word_ariths)
qed

text \<open>What one step does to the election part: nothing, resign to FOLLOWER, start an
  election, or count a reply.\<close>

definition resigned :: "group_lead \<Rightarrow> group_lead \<Rightarrow> bool" where
  "resigned s s' \<longleftrightarrow> gl_componentId s' = gl_componentId s \<and> m_currentState s' = FOLLOWER \<and>
     voter_step (abs_voter s) (abs_voter s') \<and> (authentic s \<longrightarrow> authentic s')"

definition started :: "nat \<Rightarrow> group_lead \<Rightarrow> group_lead \<Rightarrow> bool" where
  "started n s s' \<longleftrightarrow> gl_componentId s' = gl_componentId s \<and> m_currentState s' = CANDIDATE \<and>
     m_electionTerm s' = m_electionTerm s + 1 \<and> fst ` set (m_votes s') = {gl_componentId s} \<and>
     casts s' = casts s @ [(m_electionTerm s', gl_componentId s)] \<and>
     (n < 2 ^ 16 \<longrightarrow> unat (m_numberOfNodesInVote s') = n + 1) \<and> (authentic s \<longrightarrow> authentic s')"

definition counted :: "RequestForVoteRep \<Rightarrow> group_lead \<Rightarrow> group_lead \<Rightarrow> bool" where
  "counted r s s' \<longleftrightarrow> gl_componentId s' = gl_componentId s \<and> m_currentState s = CANDIDATE \<and>
     m_currentState s' \<noteq> FOLLOWER \<and> m_electionTerm s' = m_electionTerm s \<and>
     vr_electionTerm r = m_electionTerm s \<and> vr_voteForId r = gl_componentId s \<and>
     fst ` set (m_votes s') = insert (vr_sourceComponentId r) (fst ` set (m_votes s)) \<and>
     m_numberOfNodesInVote s' = m_numberOfNodesInVote s \<and> casts s' = casts s \<and> (authentic s \<longrightarrow> authentic s')"

lemma authentic_frame [simp]:
  "authentic (SendInternal m s) \<longleftrightarrow> authentic s \<and> authentic_msg (gl_componentId s) m"
  "authentic (ChangeLeader l s) = authentic s"
  "authentic (s\<lparr>m_electionTimeout := x1\<rparr>) = authentic s"
  "authentic (s\<lparr>m_currentState := x2\<rparr>) = authentic s"
  "authentic (s\<lparr>m_electionTerm := x3\<rparr>) = authentic s"
  "authentic (s\<lparr>m_votes := x4\<rparr>) = authentic s"
  "authentic (s\<lparr>m_numberOfNodesInVote := x5\<rparr>) = authentic s"
  by (auto simp: authentic_def)

lemma unat_members: "n < 2 ^ 16 \<Longrightarrow> unat (ucast (of_nat n :: u16) + 1 :: u32) = n + 1"
  by (simp add: unat_word_ariths unsigned_ucast_eq unat_of_nat take_bit_nat_eq_self)

lemma start_election_started:
  "start_election clk kn s = (kn', s') \<Longrightarrow> started (length (purge IsTimeout clk 3 kn)) s s'"
  by (auto simp: started_def start_election_def GetMemberCount_def DeleteTimeoutNodes_def Let_def
      SendRequestForVote_def unat_members)

lemma step_tick:
  assumes "lead_step (EvTick clk) (kn, s) = (kn', s')"
  shows "same_election s s' \<or> resigned s s' \<or>
    (m_currentState s = FOLLOWER \<and> started (length (purge IsTimeout clk 3 kn)) s s')"
proof -
  have "same_election s (SendAppendEntry s)"
    unfolding SendAppendEntry_def SendInternal_def by (rule same_election_send) auto
  then show ?thesis
    using assms start_election_started [of clk kn s kn' s']
    by (auto simp: Lead_Update_def same_election_ops Let_def resigned_def abs_voter_def
        voter_step.intros split: if_splits)
qed

lemma vote_request_step:
  assumes "s' = on_vote_request_follower rnd q s \<and> m_currentState s = FOLLOWER \<or> s' = on_vote_request_other rnd q s"
  shows "same_election s s' \<or> resigned s s'"
  using assms
  by (auto simp: lead_op_defs Let_def SendVote_def resigned_def abs_voter_def voter_step.intros)

lemma vote_reply_step:
  assumes "s' = on_vote_reply clk r s" "m_currentState s = CANDIDATE"
  shows "same_election s s' \<or> counted r s s'"
  using assms
  by (auto simp: on_vote_reply_def Let_def SendAppendEntry_def counted_def um_put_keys)

lemma append_step:
  assumes "s' = on_append_follower rnd a s \<and> m_currentState s = FOLLOWER \<and> m_electionTerm s \<le> ae_electionTerm a
     \<or> s' = on_append_leader rnd a s"
  shows "same_election s s' \<or> resigned s s'"
  using assms
  by (auto simp: lead_op_defs Let_def resigned_def abs_voter_def voter_step.intros)

lemma step_election:
  assumes "lead_step (EvElection clk rnd m) (kn, s) = (kn', s')" "timely (EvElection clk rnd m) (kn, s)"
  shows "same_election s s' \<or> resigned s s' \<or>
    (\<exists>r. le_requestForVoteReq m = None \<and> le_requestForVoteRep m = Some r \<and> counted r s s')"
proof -
  have s': "s' = Lead_Update_msg clk rnd m s" using assms(1) by simp
  show ?thesis
    using assms(2) vote_request_step [of s' rnd _ s] vote_reply_step [of s' clk _ s] append_step [of s' rnd _ s]
    by (cases "m_currentState s"; cases "le_requestForVoteReq m"; cases "le_requestForVoteRep m";
        cases "le_appendEntry m") (auto simp: s' Lead_Update_msg_def)
qed

lemma lead_step_voter:
  assumes "timely e (kn, s)" "lead_step e (kn, s) = (kn', s')"
  shows "voter_step (abs_voter s) (abs_voter s')"
proof -
  have same: "voter_step (abs_voter s) (abs_voter s')" if "same_election s s'"
    using that by (simp add: same_election_def abs_voter_def voter_step.keep)
  have start: "voter_step (abs_voter s) (abs_voter s')" if "started n s s'" "m_electionTerm s \<noteq> - 1" for n
    using that by (simp add: started_def abs_voter_def voter_step.cast u32_succ_greater)
  show ?thesis
  proof (cases e)
    case (EvTick clk)
    then show ?thesis using step_tick [of clk kn s kn' s'] assms same start by (auto simp: resigned_def)
  next
    case (EvElection clk rnd m)
    then show ?thesis using step_election [of clk rnd m kn s kn' s'] assms same
      by (auto simp: resigned_def counted_def abs_voter_def voter_step.keep)
  qed (use assms same same_election_ops in auto)
qed


section \<open>Runs of one node\<close>

text \<open>A node is its member table with its \<open>group_lead\<close>.  Besides the events of \<open>lead_step\<close> the table changes when a heartbeat
  arrives and when the group drops the members whose timeout has passed.\<close>

datatype node_event = NodeLead lead_event | NodeHeard int int string | NodePurge clock nat

fun node_step :: "node_event \<Rightarrow> members \<times> group_lead \<Rightarrow> members \<times> group_lead" where
  "node_step (NodeLead e) ks = lead_step e ks"
| "node_step (NodeHeard now rnd src) ks = (heard_from now rnd src (fst ks), snd ks)"
| "node_step (NodePurge clk k) ks = (snd (DeleteTimeoutNodes clk k (fst ks)), snd ks)"

fun node_timely :: "node_event \<Rightarrow> members \<times> group_lead \<Rightarrow> bool" where
  "node_timely (NodeLead e) ks = timely e ks"
| "node_timely _ ks = True"

lemma node_inv_step: "lead_inv ks \<Longrightarrow> lead_inv (node_step e ks)"
proof (cases e)
  case (NodeLead ev)
  then show "lead_inv ks \<Longrightarrow> ?thesis" by (simp add: lead_inv_step)
qed (auto simp: lead_inv_def heard_from_inv DeleteTimeoutNodes_def Let_def purge_inv split: prod.splits)

lemma node_step_voter:
  assumes "node_timely e ks"
  shows "voter_step (abs_voter (snd ks)) (abs_voter (snd (node_step e ks)))"
proof (cases e)
  case (NodeLead ev)
  then show ?thesis using assms lead_step_voter [of ev "fst ks" "snd ks"] by (metis node_step.simps(1) node_timely.simps(1) prod.collapse)
qed (simp_all add: abs_voter_def voter_step.keep)

interpretation node: machine node_step lead_inv
  by unfold_locales (rule node_inv_step)

interpretation voter: simulation node_step lead_inv "\<lambda>ks. abs_voter (snd ks)" voter_step node_timely
  by unfold_locales (rule node_step_voter)

lemma voter_ok_new: "voter_ok (abs_voter (GroupLead_new clk rnd junk self))"
  by (simp add: abs_voter_def casts_def GroupLead_new_def voter_ok_def)

text \<open>C9: every run of a node from its creation refines the abstract voter, whatever members come and go and whatever it
  receives, as long as it starts no election in the last term and receives, as a follower, no heartbeat of a leader of a
  term below its own: its term does not fall, and every vote it casts (a candidacy or a reply) is in a term above all its
  earlier ones, so it votes at most once in a term.\<close>

theorem lead_run_refines_voter:
  assumes "s0 = GroupLead_new clk rnd junk self" "accepted_run node_timely node_step es ([], s0)"
    and "s = snd (fold node_step es ([], s0))"
  shows "voter_step\<^sup>*\<^sup>* (abs_voter s0) (abs_voter s) \<and> distinct (map fst (casts s))"
proof -
  note new = lead_inv_new [of clk rnd junk self, folded assms(1)]
  have "voter_ok (abs_voter s)"
    using voter.run_abstract_inv [OF new assms(2), of voter_ok] voter_ok_new voter_ok_step by (simp add: assms(1,3))
  then show ?thesis
    using voter.run_sim [OF new assms(2)] by (simp add: assms(3) voter_ok_def abs_voter_def)
qed

text \<open>C25: along every run of a node, whatever members come and go and whatever it receives: a LEADER names itself as
  leader and holds a majority of the votes of the nodes it counted, a CANDIDATE knows no leader, both have
  voted for themselves, and no table has two entries for a key.\<close>

theorem lead_run_inv: "lead_inv (fold node_step es ([], GroupLead_new clk rnd junk self))"
  by (rule node.run_inv [OF lead_inv_new])

section \<open>The network\<close>

text \<open>A group of nodes \<open>N\<close>: every node has its member table and its \<open>group_lead\<close>.  Every
  election message ever sent may be delivered to any node at any time, any number of times, or
  never; ticks and consensus traffic happen at any time; the member tables change freely.  The
  steps are limited by \<open>timely\<close> and by one assumption on the tables: a node that starts an
  election counts at least the nodes of the group.\<close>

type_synonym net = "string \<Rightarrow> members \<times> group_lead"

definition deliverable :: "string set \<Rightarrow> net \<Rightarrow> lead_event \<Rightarrow> bool" where
  "deliverable N \<sigma> e = (case e of
      EvElection clk rnd m \<Rightarrow> (\<exists>j\<in>N. IntLeaderElection m \<in> fst ` set (gl_sent (snd (\<sigma> j))))
    | _ \<Rightarrow> True)"

definition counts_group :: "string set \<Rightarrow> lead_event \<Rightarrow> members \<times> group_lead \<Rightarrow> bool" where
  "counts_group N e ks = (case e of
      EvTick clk \<Rightarrow> m_currentState (snd ks) = FOLLOWER \<longrightarrow>
        length (fst ks) < 2 ^ 16 \<and> card N \<le> length (purge IsTimeout clk 3 (fst ks)) + 1
    | _ \<Rightarrow> True)"

inductive net_reach :: "string set \<Rightarrow> net \<Rightarrow> bool" for N where
  init: "(\<And>i. i \<in> N \<Longrightarrow> \<exists>clk rnd junk. \<sigma> i = ([], GroupLead_new clk rnd junk i)) \<Longrightarrow> net_reach N \<sigma>"
| table: "net_reach N \<sigma> \<Longrightarrow> i \<in> N \<Longrightarrow> um_inv kn \<Longrightarrow> net_reach N (\<sigma>(i := (kn, snd (\<sigma> i))))"
| step: "net_reach N \<sigma> \<Longrightarrow> i \<in> N \<Longrightarrow> timely e (\<sigma> i) \<Longrightarrow> counts_group N e (\<sigma> i) \<Longrightarrow> deliverable N \<sigma> e \<Longrightarrow>
     net_reach N (\<sigma>(i := lead_step e (\<sigma> i)))"

definition backed :: "string set \<Rightarrow> net \<Rightarrow> string \<Rightarrow> bool" where
  "backed N \<sigma> i = (let s = snd (\<sigma> i) in m_currentState s \<noteq> FOLLOWER \<longrightarrow>
     card N \<le> unat (m_numberOfNodesInVote s) \<and>
     (\<forall>v \<in> fst ` set (m_votes s). v \<in> N \<and> (m_electionTerm s, i) \<in> set (casts (snd (\<sigma> v)))))"

definition node_ok :: "string \<Rightarrow> members \<times> group_lead \<Rightarrow> bool" where
  "node_ok i ks = (gl_componentId (snd ks) = i \<and> lead_inv ks \<and> voter_ok (abs_voter (snd ks)) \<and> authentic (snd ks))"

definition net_ok :: "string set \<Rightarrow> net \<Rightarrow> bool" where
  "net_ok N \<sigma> = (\<forall>i\<in>N. node_ok i (\<sigma> i) \<and> backed N \<sigma> i)"

lemma step_kinds:
  assumes "timely e ks" "lead_step e ks = ks'"
  obtains (same) "same_election (snd ks) (snd ks')"
  | (resign) "resigned (snd ks) (snd ks')"
  | (start) clk where "e = EvTick clk" "m_currentState (snd ks) = FOLLOWER"
      "started (length (purge IsTimeout clk 3 (fst ks))) (snd ks) (snd ks')"
  | (reply) clk rnd m r where "e = EvElection clk rnd m" "le_requestForVoteReq m = None"
      "le_requestForVoteRep m = Some r" "counted r (snd ks) (snd ks')"
proof (cases e)
  case (EvTick clk)
  then show ?thesis using step_tick [of clk "fst ks" "snd ks" "fst ks'" "snd ks'"] assms that(1-3)
    by auto
next
  case (EvElection clk rnd m)
  then show ?thesis
    using step_election [of clk rnd m "fst ks" "snd ks" "fst ks'" "snd ks'"] assms that(1,2,4)
    by auto
next
  case (EvActionPropose clk p t)
  then show ?thesis using assms that(1) by (cases ks) (auto simp: same_election_ops)
next
  case (EvPropose clk j p f)
  then show ?thesis using assms that(1) by (cases ks) (auto simp: same_election_ops)
next
  case (EvVote clk p r src)
  then show ?thesis using assms that(1) by (cases ks) (auto simp: same_election_ops)
qed

lemma node_ok_step:
  assumes "node_ok i ks" "timely e ks"
  shows "node_ok i (lead_step e ks)" "set (casts (snd ks)) \<subseteq> set (casts (snd (lead_step e ks)))"
proof -
  have vs: "voter_step (abs_voter (snd ks)) (abs_voter (snd (lead_step e ks)))"
    using lead_step_voter [of e "fst ks" "snd ks" "fst (lead_step e ks)" "snd (lead_step e ks)"] assms(2)
    by simp
  then show "set (casts (snd ks)) \<subseteq> set (casts (snd (lead_step e ks)))"
    using voter_casts_grow by (fastforce simp: abs_voter_def)
  have "gl_componentId (snd (lead_step e ks)) = i \<and> authentic (snd (lead_step e ks))"
    by (rule step_kinds [OF assms(2) refl])
      (use assms(1) in \<open>auto simp: node_ok_def same_election_def resigned_def started_def counted_def\<close>)
  then show "node_ok i (lead_step e ks)"
    using assms(1) vs voter_ok_step lead_inv_step by (auto simp: node_ok_def)
qed


lemma backedD:
  "backed N \<sigma> k \<Longrightarrow> m_currentState (snd (\<sigma> k)) \<noteq> FOLLOWER \<Longrightarrow> v \<in> fst ` set (m_votes (snd (\<sigma> k))) \<Longrightarrow>
   v \<in> N \<and> (m_electionTerm (snd (\<sigma> k)), k) \<in> set (casts (snd (\<sigma> v)))"
  by (auto simp: backed_def Let_def)

lemma backedI:
  "card N \<le> unat (m_numberOfNodesInVote (snd (\<sigma> k))) \<Longrightarrow>
   (\<And>v. v \<in> fst ` set (m_votes (snd (\<sigma> k))) \<Longrightarrow>
      v \<in> N \<and> (m_electionTerm (snd (\<sigma> k)), k) \<in> set (casts (snd (\<sigma> v)))) \<Longrightarrow> backed N \<sigma> k"
  by (simp add: backed_def Let_def)

lemma backed_other:
  assumes "backed N \<sigma> k" "k \<noteq> i" "set (casts (snd (\<sigma> i))) \<subseteq> set (casts (snd ks'))"
  shows "backed N (\<sigma>(i := ks')) k"
  using assms by (auto simp: backed_def Let_def)

lemma vote_in_soup:
  assumes "net_ok N \<sigma>" "j \<in> N" "IntLeaderElection m \<in> fst ` set (gl_sent (snd (\<sigma> j)))"
    and "le_requestForVoteReq m = None" "le_requestForVoteRep m = Some r"
  shows "vr_sourceComponentId r = j" "(vr_electionTerm r, vr_voteForId r) \<in> set (casts (snd (\<sigma> j)))"
proof -
  obtain f where f: "(IntLeaderElection m, f) \<in> set (gl_sent (snd (\<sigma> j)))" using assms(3) by auto
  have "authentic (snd (\<sigma> j))" "gl_componentId (snd (\<sigma> j)) = j"
    using assms(1,2) by (auto simp: net_ok_def node_ok_def)
  then show "vr_sourceComponentId r = j"
    using f assms(5) by (auto simp: authentic_def authentic_msg.simps)
  show "(vr_electionTerm r, vr_voteForId r) \<in> set (casts (snd (\<sigma> j)))"
    using f assms(4,5) by (auto simp: casts_def cast_of.simps intro!: bexI [OF _ f])
qed

lemma backed_self:
  assumes "net_ok N \<sigma>" "i \<in> N" "timely e (\<sigma> i)" "counts_group N e (\<sigma> i)" "deliverable N \<sigma> e"
  shows "backed N (\<sigma>(i := lead_step e (\<sigma> i))) i"
proof -
  let ?s = "snd (\<sigma> i)" and ?s' = "snd (lead_step e (\<sigma> i))"
  have nok: "node_ok i (\<sigma> i)" and bk: "backed N \<sigma> i" using assms(1,2) by (auto simp: net_ok_def)
  have id: "gl_componentId ?s = i" using nok by (simp add: node_ok_def)
  have grow: "set (casts ?s) \<subseteq> set (casts ?s')" by (rule node_ok_step(2) [OF nok assms(3)])
  show ?thesis
  proof (rule step_kinds [OF assms(3) refl])
    assume "same_election ?s ?s'"
    then show ?thesis using bk grow by (auto simp: backed_def same_election_def Let_def)
  next
    assume "resigned ?s ?s'"
    then show ?thesis by (simp add: backed_def resigned_def)
  next
    fix clk assume tick: "e = EvTick clk" "m_currentState ?s = FOLLOWER"
      and st: "started (length (purge IsTimeout clk 3 (fst (\<sigma> i)))) ?s ?s'"
    have "length (purge IsTimeout clk 3 (fst (\<sigma> i))) < 2 ^ 16"
      using assms(4) tick le_less_trans [OF purge_length, of "fst (\<sigma> i)" "2 ^ 16"] by (simp add: counts_group_def)
    then show ?thesis using assms(2,4) st tick id by (auto simp: backed_def started_def counts_group_def)
  next
    fix clk rnd m r assume ev: "e = EvElection clk rnd m" "le_requestForVoteReq m = None"
      "le_requestForVoteRep m = Some r" and cnt: "counted r ?s ?s'"
    obtain j where j: "j \<in> N" "IntLeaderElection m \<in> fst ` set (gl_sent (snd (\<sigma> j)))"
      using assms(5) ev(1) by (auto simp: deliverable_def)
    note v = vote_in_soup [OF assms(1) j ev(2,3)]
    have old: "m_currentState ?s \<noteq> FOLLOWER" "fst ` set (m_votes ?s') = insert j (fst ` set (m_votes ?s))"
      using cnt v(1) by (auto simp: counted_def)
    have mine: "(m_electionTerm ?s, i) \<in> set (casts (snd (\<sigma> j)))"
      using v(2) cnt id by (simp add: counted_def)
    have "x \<in> N \<and> (m_electionTerm ?s, i) \<in> set (casts (snd ((\<sigma>(i := lead_step e (\<sigma> i))) x)))"
      if x: "x \<in> fst ` set (m_votes ?s')" for x
    proof -
      have "x = j \<or> x \<in> fst ` set (m_votes ?s)" using x unfolding old(2) by simp
      then have "x \<in> N \<and> (m_electionTerm ?s, i) \<in> set (casts (snd (\<sigma> x)))"
        using mine j(1) backedD [OF bk old(1)] by metis
      then show ?thesis using grow by (cases "x = i") auto
    qed
    moreover have "card N \<le> unat (m_numberOfNodesInVote ?s)" using bk old(1) by (simp add: backed_def Let_def)
    moreover have "m_electionTerm ?s' = m_electionTerm ?s" "m_numberOfNodesInVote ?s' = m_numberOfNodesInVote ?s"
      using cnt by (simp_all add: counted_def)
    ultimately show ?thesis by (intro backedI) (simp_all only: fun_upd_same)
  qed
qed

lemma net_ok_init:
  assumes "\<And>i. i \<in> N \<Longrightarrow> \<exists>clk rnd junk. \<sigma> i = ([], GroupLead_new clk rnd junk i)"
  shows "net_ok N \<sigma>"
  unfolding net_ok_def
proof
  fix i assume "i \<in> N"
  then obtain clk rnd junk where "\<sigma> i = ([], GroupLead_new clk rnd junk i)" using assms by blast
  then show "node_ok i (\<sigma> i) \<and> backed N \<sigma> i"
    using lead_inv_new [of clk rnd junk i]
    by (simp add: node_ok_def backed_def voter_ok_def abs_voter_def casts_def authentic_def GroupLead_new_def)
qed

lemma net_reach_ok: "net_reach N \<sigma> \<Longrightarrow> net_ok N \<sigma>"
proof (induction rule: net_reach.induct)
  case (init \<sigma>)
  then show ?case by (rule net_ok_init)
next
  case (table \<sigma> i kn)
  have "node_ok i (\<sigma> i)" using table by (simp add: net_ok_def)
  then have "node_ok i (kn, snd (\<sigma> i))"
    using table(3) by (cases "\<sigma> i") (auto simp: node_ok_def lead_inv_def)
  then show ?case using table by (auto simp: net_ok_def backed_def Let_def)
next
  case (step \<sigma> i e)
  then have "node_ok i (\<sigma> i)" by (simp add: net_ok_def)
  note ns = node_ok_step [OF this step(3)]
  show ?case
    unfolding net_ok_def
  proof
    fix k assume "k \<in> N"
    then show "node_ok k ((\<sigma>(i := lead_step e (\<sigma> i))) k) \<and> backed N (\<sigma>(i := lead_step e (\<sigma> i))) k"
      using step(6) ns(1) backed_self [OF step(6,2-5)] backed_other [where \<sigma> = \<sigma> and k = k, OF _ _ ns(2)]
      by (cases "k = i") (simp_all add: net_ok_def)
  qed
qed

text \<open>C1: election safety.  In a group where every delivered election message was sent by one of its nodes, no
  follower receives a heartbeat of a leader of a term below its own, no election starts in the last term, and a node
  that starts an election counts at least as many nodes as the group has: in every reachable state, two nodes
  that are both LEADER in the same term are the same node.\<close>

theorem one_leader_per_term:
  assumes "net_reach N \<sigma>" "finite N" "i \<in> N" "j \<in> N"
    and "m_currentState (snd (\<sigma> i)) = LEADER" "m_currentState (snd (\<sigma> j)) = LEADER"
    and "m_electionTerm (snd (\<sigma> i)) = m_electionTerm (snd (\<sigma> j))"
  shows "i = j"
proof -
  define V where "V k = fst ` set (m_votes (snd (\<sigma> k)))" for k
  define n where "n k = m_numberOfNodesInVote (snd (\<sigma> k))" for k
  have ok: "net_ok N \<sigma>" by (rule net_reach_ok [OF assms(1)])
  have big: "V k \<subseteq> N \<and> card N \<le> unat (n k) \<and> unat (majority_election (of_nat (unat (n k)))) \<le> card (V k)"
    if k: "k \<in> N" "m_currentState (snd (\<sigma> k)) = LEADER" for k
  proof -
    let ?s = "snd (\<sigma> k)"
    have inv: "lead_inv (\<sigma> k)" and bk: "backed N \<sigma> k" using ok k by (auto simp: net_ok_def node_ok_def)
    have "unat (majority_election (n k)) \<le> unat (GetNumberOfVotes ?s)"
      using inv k(2) by (cases "\<sigma> k") (simp add: lead_inv_def n_def word_le_nat_alt)
    also have "\<dots> \<le> length (m_votes ?s)" by (simp add: GetNumberOfVotes_def unat_of_nat)
    also have "\<dots> = card (V k)"
      using inv distinct_card [of "map fst (m_votes ?s)"] by (cases "\<sigma> k") (simp add: V_def lead_inv_def um_inv_def)
    finally show ?thesis using bk k(2) by (auto simp: backed_def V_def n_def Let_def)
  qed
  have "V i \<inter> V j \<noteq> {}"
    using elect.intersect [OF assms(2), of "V i" "V j" "unat (n i)" "unat (n j)"] big [of i] big [of j] assms(3-6)
      unsigned_less [of "n i"] unsigned_less [of "n j"] by simp
  then obtain v where v: "v \<in> V i" "v \<in> V j" by blast
  then have "(m_electionTerm (snd (\<sigma> i)), i) \<in> set (casts (snd (\<sigma> v)))"
    "(m_electionTerm (snd (\<sigma> i)), j) \<in> set (casts (snd (\<sigma> v)))" "v \<in> N"
    using ok assms(3-7) backedD [of N \<sigma> i v] backedD [of N \<sigma> j v] by (simp_all add: net_ok_def V_def)
  then show ?thesis using ok voter_one_ballot by (fastforce simp: net_ok_def node_ok_def abs_voter_def)
qed


text \<open>A run of a group of two: \<open>a\<close> knows \<open>b\<close>, times out, asks for votes, gets the vote of
  \<open>b\<close> and leads.\<close>

definition ex_net0 :: net where
  "ex_net0 i = ([], GroupLead_new (\<lambda>_. 0) 200 0 i)"

definition ex_net1 :: net where
  "ex_net1 = ex_net0(''a'' := ([(''b'', Timeout_dur 0 (milliseconds * 10000))], snd (ex_net0 ''a'')))"

definition ex_req :: LeaderElection where
  "ex_req = msg_vote_req \<lparr>vq_sourceComponentId = ''a'', vq_electionTerm = 1\<rparr>"

definition ex_rep :: LeaderElection where
  "ex_rep = msg_vote_rep \<lparr>vr_sourceComponentId = ''b'', vr_voteForId = ''a'', vr_electionTerm = 1\<rparr>"

definition ex_events :: "(string \<times> lead_event) list" where
  "ex_events = [(''a'', EvTick (\<lambda>_. milliseconds * 201)), (''b'', EvElection (\<lambda>_. 0) 200 ex_req),
     (''a'', EvElection (\<lambda>_. 0) 200 ex_rep)]"

fun net_run :: "(string \<times> lead_event) list \<Rightarrow> net \<Rightarrow> net" where
  "net_run [] \<sigma> = \<sigma>"
| "net_run ((i, e) # es) \<sigma> = net_run es (\<sigma>(i := lead_step e (\<sigma> i)))"

fun net_run_ok :: "string set \<Rightarrow> (lead_event \<Rightarrow> members \<times> group_lead \<Rightarrow> bool) \<Rightarrow> (string \<times> lead_event) list \<Rightarrow> net \<Rightarrow> bool" where
  "net_run_ok N C [] \<sigma> = True"
| "net_run_ok N C ((i, e) # es) \<sigma> = (i \<in> N \<and> timely e (\<sigma> i) \<and> C e (\<sigma> i) \<and> deliverable N \<sigma> e \<and>
     net_run_ok N C es (\<sigma>(i := lead_step e (\<sigma> i))))"

lemma net_run_reach: "net_reach N \<sigma> \<Longrightarrow> net_run_ok N (counts_group N) es \<sigma> \<Longrightarrow> net_reach N (net_run es \<sigma>)"
  by (induction N "counts_group N" es \<sigma> rule: net_run_ok.induct) (auto intro: net_reach.step)

lemmas ex_net_defs = ex_net1_def ex_net0_def ex_req_def ex_rep_def ex_events_def

lemmas lead_eval = GroupLead_new_def timeout_defs Lead_Update_def lead_op_defs GetMemberCount_def
  DeleteTimeoutNodes_def Let_def lead_send_defs ChangeLeader_def election_msg_defs Lead_Update_msg_def
  GetNumberOfVotes_def majority_election_def

lemma ex_net_reach: "net_reach {''a'', ''b''} (net_run ex_events ex_net1)"
proof (rule net_run_reach)
  have "net_reach {''a'', ''b''} ex_net0" by (rule net_reach.init) (auto simp: ex_net0_def)
  then show "net_reach {''a'', ''b''} ex_net1"
    unfolding ex_net1_def by (rule net_reach.table) (simp_all add: um_inv_def)
  show "net_run_ok {''a'', ''b''} (counts_group {''a'', ''b''}) ex_events ex_net1"
    by (simp add: ex_net_defs lead_eval counts_group_def deliverable_def)
qed

theorem one_leader_per_term_witness:
  "net_reach {''a'', ''b''} (net_run ex_events ex_net1) \<and>
   m_currentState (snd (net_run ex_events ex_net1 ''a'')) = LEADER \<and>
   \<not> (m_currentState (snd (net_run ex_events ex_net1 ''b'')) = LEADER \<and>
      m_electionTerm (snd (net_run ex_events ex_net1 ''b'')) = m_electionTerm (snd (net_run ex_events ex_net1 ''a'')))"
proof -
  have "m_currentState (snd (net_run ex_events ex_net1 ''a'')) = LEADER"
    by (simp add: ex_net_defs lead_eval)
  then show ?thesis
    using one_leader_per_term [OF ex_net_reach, of "''a''" "''b''"] ex_net_reach by auto
qed

text \<open>that a node counts the whole group when it starts an election is needed: in a group of four, when \<open>a\<close> and \<open>b\<close> have lost
  \<open>c\<close> and \<open>d\<close> from their tables and the other way round, every message is authentic and timely, and both halves
  elect a leader in term 1.\<close>

definition ex_pair :: "string \<Rightarrow> string \<Rightarrow> (string \<times> lead_event) list" where
  "ex_pair i j = [(i, EvTick (\<lambda>_. milliseconds * 201)),
     (j, EvElection (\<lambda>_. 0) 200 (msg_vote_req \<lparr>vq_sourceComponentId = i, vq_electionTerm = 1\<rparr>)),
     (i, EvElection (\<lambda>_. 0) 200 (msg_vote_rep \<lparr>vr_sourceComponentId = j, vr_voteForId = i, vr_electionTerm = 1\<rparr>))]"

definition ex_halves :: net where
  "ex_halves = ex_net0(''a'' := ([(''b'', Timeout_dur 0 (milliseconds * 10000))], snd (ex_net0 ''a'')),
     ''c'' := ([(''d'', Timeout_dur 0 (milliseconds * 10000))], snd (ex_net0 ''c'')))"

theorem split_group_two_leaders:
  "let \<sigma> = net_run (ex_pair ''a'' ''b'' @ ex_pair ''c'' ''d'') ex_halves
   in net_run_ok {''a'', ''b'', ''c'', ''d''} (\<lambda>_ _. True) (ex_pair ''a'' ''b'' @ ex_pair ''c'' ''d'') ex_halves \<and>
      m_currentState (snd (\<sigma> ''a'')) = LEADER \<and> m_currentState (snd (\<sigma> ''c'')) = LEADER \<and>
      m_electionTerm (snd (\<sigma> ''a'')) = m_electionTerm (snd (\<sigma> ''c''))"
  by (simp add: ex_pair_def ex_halves_def ex_net0_def lead_eval deliverable_def)

text \<open>The same election from the side of \<open>a\<close>, which learns of \<open>b\<close> from a heartbeat: it counts two nodes, casts its vote in
  term 1, and leads with both votes.\<close>

definition ex_run :: "node_event list" where
  "ex_run = [NodeHeard 0 10000 ''b'', NodeLead (EvTick (\<lambda>_. milliseconds * 201)), NodePurge (\<lambda>_. milliseconds * 202) 0,
     NodeLead (EvElection (\<lambda>_. 0) 200 ex_rep)]"

lemma ex_run_elects:
  "(let s = snd (fold node_step ex_run ([], GroupLead_new (\<lambda>_. 0) 200 0 ''a''))
    in m_currentState s = LEADER \<and> m_numberOfNodesInVote s = 2 \<and> GetNumberOfVotes s = 2 \<and> casts s = [(1, ''a'')])"
  by (simp add: ex_run_def heard_from_def ex_net_defs lead_eval casts_def cast_of.simps)

theorem lead_run_refines_voter_witness:
  "let s0 = GroupLead_new (\<lambda>_. 0) 200 0 ''a''; s = snd (fold node_step ex_run ([], s0))
   in m_currentState s = LEADER \<and> casts s = [(1, ''a'')] \<and> voter_step\<^sup>*\<^sup>* (abs_voter s0) (abs_voter s)"
proof -
  have "accepted_run node_timely node_step ex_run ([], GroupLead_new (\<lambda>_. 0) 200 0 ''a'')"
    by (simp add: ex_run_def heard_from_def ex_net_defs lead_eval)
  from lead_run_refines_voter [OF refl this refl] ex_run_elects show ?thesis by (simp only: Let_def)
qed

section \<open>A node that hears no vote\<close>

fun is_reply :: "lead_event \<Rightarrow> bool" where
  "is_reply (EvElection clk rnd m) = (le_requestForVoteRep m \<noteq> None)"
| "is_reply _ = False"

lemma no_reply_step:
  assumes "\<not> is_reply e" "m_currentState s \<noteq> LEADER"
  shows "m_currentState (snd (lead_step e (kn, s))) \<noteq> LEADER"
proof (cases e)
  case (EvTick clk)
  then show ?thesis using assms(2)
    by (simp add: Lead_Update_def start_election_def Let_def split_beta SendRequestForVote_def)
next
  case (EvElection clk rnd m)
  then show ?thesis using assms
    by (simp add: Lead_Update_msg_def lead_op_defs Let_def SendVote_def split: option.split NodeState.split)
qed (use assms same_election_ops in \<open>simp_all add: same_election_def\<close>)

text \<open>a node that receives no vote reply never leads, however long it runs: a node alone in
  its group stays without a leader.\<close>

theorem no_reply_no_leader:
  assumes "\<forall>e. NodeLead e \<in> set es \<longrightarrow> \<not> is_reply e"
  shows "m_currentState (snd (fold node_step es ([], GroupLead_new clk rnd junk self))) \<noteq> LEADER"
proof -
  have "m_currentState (snd (fold node_step es ks)) \<noteq> LEADER"
    if "m_currentState (snd ks) \<noteq> LEADER" for ks
    using assms that
  proof (induction es arbitrary: ks)
    case (Cons e es)
    have "m_currentState (snd (node_step e ks)) \<noteq> LEADER"
      using Cons.prems no_reply_step [of _ "snd ks" "fst ks"] by (cases e) auto
    then show ?case using Cons by simp
  qed simp
  then show ?thesis by (simp add: GroupLead_new_def)
qed

theorem no_reply_no_leader_witness:
  "m_currentState (snd (fold node_step [NodeHeard 0 10000 ''b'', NodeLead (EvTick (\<lambda>_. milliseconds * 201)),
       NodeLead (EvTick (\<lambda>_. milliseconds * 900))] ([], GroupLead_new (\<lambda>_. 0) 200 0 ''a''))) \<noteq> LEADER"
  by (rule no_reply_no_leader) auto

end
