(* ===== verification/Time_Stamps.thy ===== *)
theory Time_Stamps
  imports Complex_Main Timeouts
begin

text \<open>
  The bytes and the numbers in the frames of a message.  Frames, the copy of an \<^verbatim>\<open>int64_t\<close> to
  memory and back, and the time stamp of the timed ports: the conversion of a \<^verbatim>\<open>timespec\<close> to a
  \<^verbatim>\<open>double\<close> in \<^verbatim>\<open>SenderPort::Send\<close> (\<^verbatim>\<open>src/componentmodel/ports/r_senderport.cc\<close>) and back in
  \<^verbatim>\<open>TimedPort::set_send_timestamp\<close> (\<^verbatim>\<open>src/componentmodel/ports/r_timedport.cc\<close>).  A value of the
  types \<^verbatim>\<open>float\<close> and \<^verbatim>\<open>double\<close> is the rational number it stands for; the operations of IEEE 754
  round the exact result to 24 and 53 significant bits, ties to even.  Overflow and
  subnormal results do not occur at the magnitudes of a time.  Lemmas: the error of one rounding,
  the round trip of a double through its 64 bits, and how far the time read by the receiver is from the
  time of the sender.
\<close>

section \<open>Frames\<close>

type_synonym frame = string
type_synonym zmsg = "frame list"

text \<open>An \<^verbatim>\<open>int64_t\<close> copied to memory and back, least significant byte first.\<close>

fun le_bytes :: "nat \<Rightarrow> nat \<Rightarrow> frame" where
  "le_bytes 0 n = []"
| "le_bytes (Suc k) n = char_of n # le_bytes k (n div 256)"

fun le_value :: "frame \<Rightarrow> nat" where
  "le_value [] = 0"
| "le_value (c # cs) = of_char c + 256 * le_value cs"

definition int64_frame :: "u64 \<Rightarrow> frame" where "int64_frame w = le_bytes 8 (unat w)"

definition frame_int64 :: "frame \<Rightarrow> u64" where "frame_int64 f = of_nat (le_value (take 8 f))"

lemma length_le_bytes [simp]: "length (le_bytes k n) = k"
  by (induction k n rule: le_bytes.induct) auto

lemma le_value_bytes: "le_value (le_bytes k n) = n mod 256 ^ k"
  by (induction k n rule: le_bytes.induct) (simp_all add: mod_mult2_eq)

lemma frame_int64_frame [simp]: "frame_int64 (int64_frame w) = w"
proof -
  have "unat w < 2 ^ 64" using unsigned_less [of w] by simp
  then show ?thesis by (simp add: frame_int64_def int64_frame_def le_value_bytes)
qed

section \<open>Rounding\<close>

fun ilog2 :: "nat \<Rightarrow> nat" where
  "ilog2 n = (if n < 2 then 0 else Suc (ilog2 (n div 2)))"

fun clog2 :: "nat \<Rightarrow> nat" where
  "clog2 n = (if n < 2 then 0 else Suc (clog2 ((n + 1) div 2)))"

declare ilog2.simps [simp del] clog2.simps [simp del]

text \<open>The exponent of the leading bit of a positive number.\<close>

definition expo :: "rat \<Rightarrow> int" where
  "expo x = (if 1 \<le> x then int (ilog2 (nat \<lfloor>x\<rfloor>)) else - int (clog2 (nat \<lceil>1 / x\<rceil>)))"

definition round_even :: "rat \<Rightarrow> int" where
  "round_even x =
     (let f = \<lfloor>x\<rfloor>; d = x - of_int f
      in if d < 1 / 2 \<or> d = 1 / 2 \<and> even f then f else f + 1)"

definition round_bits :: "nat \<Rightarrow> rat \<Rightarrow> rat" where
  "round_bits p x =
     (if x = 0 then 0
      else let u = 2 powi (expo \<bar>x\<bar> - int p + 1) in u * of_int (round_even (x / u)))"

abbreviation to_float :: "rat \<Rightarrow> rat" where "to_float \<equiv> round_bits 24"
abbreviation to_double :: "rat \<Rightarrow> rat" where "to_double \<equiv> round_bits 53"

section \<open>The bits of a double\<close>

definition double_bits :: "rat \<Rightarrow> u64" where
  "double_bits x =
     (if x = 0 then 0
      else let e = expo \<bar>x\<bar>; m = \<lfloor>\<bar>x\<bar> * 2 powi (52 - e)\<rfloor>
           in of_int ((if x < 0 then 2 ^ 63 else 0) + (e + 1023) * 2 ^ 52 + (m - 2 ^ 52)))"

text \<open>None stands for the infinities and for the values that are not numbers.\<close>

definition bits_double :: "u64 \<Rightarrow> rat option" where
  "bits_double w =
     (let n = unat w; E = n div 2 ^ 52 mod 2 ^ 11; M = n mod 2 ^ 52;
          v = (if E = 0 then of_nat M * 2 powi (- 1074) else of_nat (2 ^ 52 + M) * 2 powi (int E - 1075))
      in if E = 2047 then None else Some (if 2 ^ 63 \<le> n then - v else v))"

section \<open>Time stamps\<close>

text \<open>\<^verbatim>\<open>(float)t.tv_sec + (((float)t.tv_nsec)/1000000000.0)\<close>: the division and the sum are in double.\<close>

definition stamp_double :: "timespec \<Rightarrow> rat" where
  "stamp_double t = to_double (to_float (of_int (tv_sec t)) + to_double (to_float (of_int (tv_nsec t)) / 1000000000))"

definition stamp_frame :: "timespec \<Rightarrow> frame" where
  "stamp_frame t = int64_frame (double_bits (stamp_double t))"

text \<open>
  A double converted to a signed 64-bit integer: truncation towards zero.  Outside the range of the
  type the language leaves the result open; the model has the value x86-64 gives.
\<close>

definition double_int64 :: "rat option \<Rightarrow> int" where
  "double_int64 d =
     (case d of
        None \<Rightarrow> - (2 ^ 63)
      | Some x \<Rightarrow> (let i = (if 0 \<le> x then \<lfloor>x\<rfloor> else \<lceil>x\<rceil>)
                  in if - (2 ^ 63) \<le> i \<and> i < 2 ^ 63 then i else - (2 ^ 63)))"

definition timespec_of_double :: "rat option \<Rightarrow> timespec" where
  "timespec_of_double d =
     (let sec = double_int64 d
      in \<lparr>tv_sec = sec,
          tv_nsec = double_int64 (map_option (\<lambda>x. to_double (to_double (x - to_double (of_int sec)) * 1000000000)) d)\<rparr>)"

text \<open>\<^verbatim>\<open>memcpy\<close> of the frame into a double, then \<^verbatim>\<open>set_send_timestamp\<close>.\<close>

definition frame_timespec :: "frame \<Rightarrow> timespec" where
  "frame_timespec f = timespec_of_double (bits_double (frame_int64 f))"

section \<open>The error of one rounding\<close>

lemma ilog2_bounds: "0 < n \<Longrightarrow> 2 ^ ilog2 n \<le> n \<and> n < 2 ^ Suc (ilog2 n)"
proof (induction n rule: ilog2.induct)
  case (1 n)
  show ?case
  proof (cases "n < 2")
    case True
    with 1 show ?thesis by (simp add: ilog2.simps [of n])
  next
    case False
    with 1 have "2 ^ ilog2 (n div 2) \<le> n div 2 \<and> n div 2 < 2 ^ Suc (ilog2 (n div 2))" by simp
    with False show ?thesis by (subst (1 2) ilog2.simps) auto
  qed
qed

lemma clog2_bounds: "1 < n \<Longrightarrow> 2 ^ clog2 n < 2 * n \<and> n \<le> 2 ^ clog2 n"
proof (induction n rule: clog2.induct)
  case (1 n)
  show ?case
  proof (cases "n = 2")
    case True
    then show ?thesis by (simp add: clog2.simps [of 2] clog2.simps [of "Suc 0"])
  next
    case False
    define h where "h = (n + 1) div 2"
    have h: "1 < h" "n \<le> 2 * h" "2 * h \<le> n + 1" using False 1(2) by (auto simp: h_def)
    have "2 ^ clog2 h < 2 * h \<and> h \<le> 2 ^ clog2 h" using 1 h(1) by (simp add: h_def)
    moreover obtain j where "clog2 h = Suc j" using h(1) by (cases "clog2 h") (simp_all add: clog2.simps [of h])
    ultimately have "2 ^ clog2 h < n \<and> n \<le> 2 * 2 ^ clog2 h" using h by auto
    moreover have "clog2 n = Suc (clog2 h)" using 1(2) by (simp add: clog2.simps [of n] h_def)
    ultimately show ?thesis by simp
  qed
qed


lemma expo_bounds: "0 < x \<Longrightarrow> 2 powi expo x \<le> x \<and> x < 2 powi (expo x + 1)"
proof (cases "1 \<le> x")
  case True
  define n where "n = nat \<lfloor>x\<rfloor>"
  have "0 < n" "of_nat n \<le> x" "x < of_nat n + 1"
    using True unfolding n_def by (simp_all add: le_floor_iff of_nat_nat) linarith+
  moreover from this(1) have "2 ^ ilog2 n \<le> n \<and> n < 2 ^ Suc (ilog2 n)" by (rule ilog2_bounds)
  then have "of_nat (2 ^ ilog2 n) \<le> (of_nat n :: rat)" "of_nat (n + 1) \<le> (of_nat (2 ^ Suc (ilog2 n)) :: rat)"
    by (simp_all only: of_nat_le_iff Suc_eq_plus1 [symmetric] Suc_le_eq)
  then have "(2 :: rat) ^ ilog2 n \<le> of_nat n" "of_nat n + 1 \<le> (2 :: rat) ^ Suc (ilog2 n)" by simp_all
  ultimately have "2 ^ ilog2 n \<le> x \<and> x < 2 ^ Suc (ilog2 n)" by linarith
  moreover have "expo x = int (ilog2 n)" using True by (simp add: expo_def n_def)
  moreover have "expo x + 1 = int (Suc (ilog2 n))" using calculation(2) by simp
  ultimately show ?thesis by (metis power_int_of_nat)
next
  case False
  assume "0 < x"
  define n where "n = nat \<lceil>1 / x\<rceil>"
  have y: "1 < 1 / x" using False \<open>0 < x\<close> by simp
  then have "1 < \<lceil>1 / x\<rceil>" by (simp add: less_ceiling_iff)
  then have n: "1 < n" "1 / x \<le> of_nat n" "of_nat n < 1 / x + 1"
    unfolding n_def by (simp_all add: of_nat_nat) linarith+
  define k where "k = clog2 n"
  have "2 ^ k < 2 * n \<and> n \<le> 2 ^ k" using clog2_bounds [OF n(1)] by (simp add: k_def)
  moreover have "0 < k" using n(1) by (simp add: k_def clog2.simps [of n])
  then obtain j where j: "k = Suc j" by (cases k) auto
  ultimately have "2 ^ j + 1 \<le> n" "n \<le> 2 ^ Suc j" by auto
  then have "of_nat (2 ^ j + 1) \<le> (of_nat n :: rat)" "of_nat n \<le> (of_nat (2 ^ Suc j) :: rat)"
    by (simp_all only: of_nat_le_iff)
  then have "(2 :: rat) ^ j + 1 \<le> of_nat n" "of_nat n \<le> (2 :: rat) ^ Suc j" by simp_all
  then have "2 ^ j < 1 / x" "1 / x \<le> 2 ^ Suc j" using n by linarith+
  then have "x < inverse (2 ^ j)" "inverse (2 ^ Suc j) \<le> x" using \<open>0 < x\<close> by (simp_all add: field_simps)
  moreover have e: "expo x = - int (Suc j)" using False by (simp add: expo_def n_def [symmetric] k_def [symmetric] j)
  have "2 powi expo x = inverse ((2 :: rat) ^ Suc j)" unfolding e by (simp only: power_int_minus power_int_of_nat)
  moreover have "expo x + 1 = - int j" using e by simp
  then have "2 powi (expo x + 1) = inverse ((2 :: rat) ^ j)" by (simp only: power_int_minus power_int_of_nat)
  ultimately show ?thesis by simp
qed

lemma powi_less_iff: "(2 :: rat) powi a < 2 powi b \<longleftrightarrow> a < b"
  by (metis linorder_not_less one_less_numeral_iff power_int_increasing power_int_strict_increasing
      semiring_norm(76) less_le_not_le order_less_imp_le)

lemma expo_less: "0 < x \<Longrightarrow> x < 2 powi k \<Longrightarrow> expo x < k"
  using expo_bounds [of x] powi_less_iff [of "expo x" k] by linarith

lemma expo_unique:
  assumes "2 powi e \<le> x" "x < 2 powi (e + 1)"
  shows "expo x = e"
proof -
  have x: "0 < x" using assms(1) by (meson less_le_trans zero_less_numeral zero_less_power_int)
  have "expo x < e + 1" using expo_less [OF x assms(2)] .
  moreover have "e < expo x + 1" using expo_bounds [OF x] assms(1) powi_less_iff [of e "expo x + 1"] by linarith
  ultimately show ?thesis by simp
qed

lemma round_even_error: "\<bar>of_int (round_even x) - x\<bar> \<le> 1 / 2"
  unfolding round_even_def Let_def abs_le_iff using floor_correct [of x] by (auto split: if_splits) linarith+

lemma round_even_ge: "\<lfloor>x\<rfloor> \<le> round_even x" and round_even_le: "round_even x \<le> \<lceil>x\<rceil>"
proof -
  show "\<lfloor>x\<rfloor> \<le> round_even x" by (simp add: round_even_def Let_def)
  show "round_even x \<le> \<lceil>x\<rceil>"
  proof (cases "x = of_int \<lfloor>x\<rfloor>")
    case True
    then have "round_even x = \<lfloor>x\<rfloor>" by (simp add: round_even_def Let_def)
    then show ?thesis by (simp add: floor_le_ceiling)
  next
    case False
    then have "\<lfloor>x\<rfloor> + 1 \<le> \<lceil>x\<rceil>" by linarith
    then show ?thesis by (simp add: round_even_def Let_def)
  qed
qed

lemma round_bits_error:
  assumes "0 \<le> x" "x < 2 powi k"
  shows "\<bar>round_bits p x - x\<bar> \<le> 2 powi (k - int p - 1)"
proof (cases "x = 0")
  case True
  then show ?thesis by (simp add: round_bits_def)
next
  case False
  define u :: rat where "u = 2 powi (expo x - int p + 1)"
  have u: "0 < u" by (simp add: u_def)
  have "round_bits p x - x = u * (of_int (round_even (x / u)) - x / u)"
    using False assms(1) u by (simp add: round_bits_def Let_def u_def [symmetric] right_diff_distrib)
  then have "\<bar>round_bits p x - x\<bar> = u * \<bar>of_int (round_even (x / u)) - x / u\<bar>" using u by (simp add: abs_mult)
  also have "\<dots> \<le> u * (1 / 2)" using u round_even_error by (intro mult_left_mono) auto
  also have "\<dots> = 2 powi (expo x - int p)" by (simp add: u_def power_int_add)
  also have "\<dots> \<le> 2 powi (k - int p - 1)"
    using expo_less [of x k] assms False by (intro power_int_increasing) auto
  finally show ?thesis .
qed


text \<open>Below \<^term>\<open>2 powi p\<close> the grid contains the integers, so rounding does not cross one.\<close>

lemma round_bits_grid:
  assumes "0 < x" "x < 2 powi int p"
  obtains j :: nat where "round_bits p x = of_int (round_even (x * 2 ^ j)) / 2 ^ j" "j = nat (int p - 1 - expo x)"
proof -
  have "expo x \<le> int p - 1" using expo_less [OF assms] by simp
  then have "2 powi (expo x - int p + 1) = inverse ((2 :: rat) powi int (nat (int p - 1 - expo x)))"
    by (simp flip: power_int_minus add: algebra_simps)
  then have "2 powi (expo x - int p + 1) = 1 / (2 :: rat) ^ nat (int p - 1 - expo x)"
    by (simp only: power_int_of_nat inverse_eq_divide)
  then show thesis using assms(1) by (intro that) (simp_all add: round_bits_def Let_def)
qed

lemma round_bits_between:
  assumes "0 < x" "x < 2 powi int p"
  shows "of_int n \<le> x \<Longrightarrow> of_int n \<le> round_bits p x" "x \<le> of_int n \<Longrightarrow> round_bits p x \<le> of_int n"
proof -
  obtain j :: nat where r: "round_bits p x = of_int (round_even (x * 2 ^ j)) / 2 ^ j"
    using round_bits_grid [OF assms] by metis
  show "of_int n \<le> round_bits p x" if "of_int n \<le> x"
  proof -
    have "of_int (n * 2 ^ j) \<le> x * 2 ^ j" using that by simp
    then have "n * 2 ^ j \<le> \<lfloor>x * 2 ^ j\<rfloor>" by (simp only: le_floor_iff)
    also have "\<dots> \<le> round_even (x * 2 ^ j)" by (rule round_even_ge)
    finally have "of_int (n * 2 ^ j) \<le> (of_int (round_even (x * 2 ^ j)) :: rat)" by (simp only: of_int_le_iff)
    then show ?thesis by (simp add: r field_simps)
  qed
  show "round_bits p x \<le> of_int n" if "x \<le> of_int n"
  proof -
    have "x * 2 ^ j \<le> of_int (n * 2 ^ j)" using that by simp
    then have "\<lceil>x * 2 ^ j\<rceil> \<le> n * 2 ^ j" by (simp only: ceiling_le_iff)
    then have "round_even (x * 2 ^ j) \<le> n * 2 ^ j" using round_even_le order_trans by blast
    then have "(of_int (round_even (x * 2 ^ j)) :: rat) \<le> of_int (n * 2 ^ j)" by (simp only: of_int_le_iff)
    then show ?thesis by (simp add: r field_simps)
  qed
qed

lemma round_bits_int: "0 \<le> n \<Longrightarrow> of_int n < (2 :: rat) powi int p \<Longrightarrow> round_bits p (of_int n) = of_int n"
  using round_bits_between [of "of_int n" p n] by (cases "n = 0") (auto simp: round_bits_def)

lemma round_bits_nonneg: "0 \<le> x \<Longrightarrow> x < 2 powi int p \<Longrightarrow> 0 \<le> round_bits p x"
  using round_bits_between(1) [of x p 0] by (cases "x = 0") (auto simp: round_bits_def)

section \<open>A double survives its bits\<close>

lemma double_bits_roundtrip:
  assumes "2 ^ 52 \<le> m" "m < 2 ^ 53" "- 1074 \<le> j" "j \<le> 971"
  shows "bits_double (double_bits (of_int m * 2 powi j)) = Some (of_int m * 2 powi j)"
proof -
  let ?x = "of_int m * (2 :: rat) powi j"
  define M where "M = nat (m - 2 ^ 52)"
  define E where "E = nat (j + 1075)"
  have ME: "M < 2 ^ 52" "m = int M + 2 ^ 52" "0 < E" "E < 2047" "j = int E - 1075"
    using assms by (auto simp: M_def E_def)
  have p: "(2 :: rat) powi (j + 52) = 2 ^ 52 * 2 powi j" by (simp add: power_int_add)
  have "expo ?x = j + 52"
  proof (rule expo_unique)
    have "(2 :: rat) ^ 52 \<le> of_int m" using assms(1) by (metis of_int_le_iff of_int_numeral of_int_power)
    then show "2 powi (j + 52) \<le> ?x" by (simp add: p)
    have "of_int m < (2 :: rat) ^ 53" using assms(2) by (metis of_int_less_iff of_int_numeral of_int_power)
    then show "?x < 2 powi (j + 52 + 1)" by (simp add: power_int_add)
  qed
  moreover have "0 < ?x" using assms(1) by simp
  then have "?x \<noteq> 0" "\<not> ?x < 0" "\<bar>?x\<bar> = ?x" by (simp_all only: less_imp_neq [symmetric] less_asym abs_of_pos not_False_eq_True)
  moreover have "?x * 2 powi (52 - (j + 52)) = of_int m" by (simp add: power_int_minus)
  then have "\<lfloor>?x * 2 powi (52 - (j + 52))\<rfloor> = m" by (simp only: floor_of_int)
  ultimately have "double_bits ?x = of_int ((j + 52 + 1023) * 2 ^ 52 + (m - 2 ^ 52))"
    unfolding double_bits_def Let_def by (simp only: if_False add_0)
  also have "\<dots> = of_nat (E * 2 ^ 52 + M)"
    by (simp add: ME(2,5))
  finally have b: "double_bits ?x = of_nat (E * 2 ^ 52 + M)" .
  have "E * 2 ^ 52 + M < 2047 * 2 ^ 52" using ME(1,4) by simp
  then have "unat (double_bits ?x) = E * 2 ^ 52 + M" unfolding b by (subst unat_of_nat) simp
  then show ?thesis using ME by (simp add: bits_double_def Let_def)
qed

lemma to_double_roundtrip:
  assumes "0 < x" "- 1000 \<le> expo x" "expo x \<le> 1000"
  shows "bits_double (double_bits (to_double x)) = Some (to_double x)"
proof -
  define j where "j = expo x - 52"
  define m where "m = round_even (x / 2 powi j)"
  have r: "to_double x = of_int m * 2 powi j"
    using assms(1) by (simp add: round_bits_def Let_def m_def j_def)
  have "2 ^ 52 \<le> x / 2 powi j" "x / 2 powi j \<le> 2 ^ 53"
    using expo_bounds [OF assms(1)] by (simp_all add: j_def field_simps power_int_diff power_int_add)
  then have "2 ^ 52 \<le> m" "m \<le> 2 ^ 53"
    using round_even_ge [of "x / 2 powi j"] round_even_le [of "x / 2 powi j"]
    by (simp_all add: m_def le_floor_iff ceiling_le_iff) (linarith | simp)+
  show ?thesis
  proof (cases "m = 2 ^ 53")
    case True
    then have "to_double x = of_int (2 ^ 52) * 2 powi (j + 1)" by (simp add: r power_int_add)
    then show ?thesis using assms double_bits_roundtrip [of "2 ^ 52" "j + 1"] by (simp add: j_def)
  next
    case False
    then show ?thesis unfolding r
      using \<open>2 ^ 52 \<le> m\<close> \<open>m \<le> 2 ^ 53\<close> assms by (intro double_bits_roundtrip) (simp_all add: j_def)
  qed
qed


section \<open>How far a time stamp is off\<close>

lemma powi_values:
  "(2 :: rat) powi 30 = 1073741824" "(2 :: rat) powi 31 = 2147483648" "(2 :: rat) powi 32 = 4294967296"
  "(2 :: rat) powi 6 = 64" "(2 :: rat) powi 5 = 32" "(2 :: rat) powi 53 = 9007199254740992"
  "(2 :: rat) powi 24 = 16777216"
  "(2 :: rat) powi (- 53) = 1 / 9007199254740992" "(2 :: rat) powi (- 22) = 1 / 4194304"
  "(2 :: rat) powi (- 54) = 1 / 18014398509481984" "(2 :: rat) powi (- 23) = 1 / 8388608"
  by (simp_all add: power_int_def power_one_over)

text \<open>The fraction of a second, and the sum.\<close>

lemma stamp_fraction:
  assumes "0 \<le> ns" "ns < 1000000000" and "f = to_double (to_float (of_int ns) / 1000000000)"
  shows "0 \<le> f" "\<bar>f - of_int ns / 1000000000\<bar> \<le> 33 / 1000000000"
proof -
  define nf where "nf = to_float (of_int ns)"
  have ns: "0 \<le> (of_int ns :: rat)" "(of_int ns :: rat) < 1000000000"
    using assms(1,2) by simp_all
  have "(of_int ns :: rat) < 2 powi 30" using ns(2) by (simp add: powi_values)
  from round_bits_error [OF ns(1) this, of 24] have nf: "\<bar>nf - of_int ns\<bar> \<le> 32" by (simp add: nf_def powi_values)
  have "0 \<le> nf"
  proof (cases "of_int ns < (2 :: rat) powi 24")
    case True
    then show ?thesis using round_bits_nonneg [of "of_int ns" 24] ns(1) by (simp add: nf_def)
  next
    case False
    then show ?thesis using nf by (simp add: powi_values)
  qed
  then have q: "0 \<le> nf / 1000000000" "nf / 1000000000 < 2 powi 1" using nf ns by (simp_all add: abs_le_iff)
  then show "0 \<le> f" using round_bits_nonneg [of "nf / 1000000000" 53] by (simp add: assms(3) nf_def powi_values)
  have "\<bar>f - nf / 1000000000\<bar> \<le> 1 / 9007199254740992"
    using round_bits_error [OF q, of 53] by (simp add: assms(3) nf_def powi_values)
  moreover have "\<bar>nf / 1000000000 - of_int ns / 1000000000\<bar> \<le> 32 / 1000000000"
    using nf by (simp add: abs_le_iff diff_divide_distrib [symmetric] divide_right_mono)
  ultimately show "\<bar>f - of_int ns / 1000000000\<bar> \<le> 33 / 1000000000" by linarith
qed

text \<open>What the receiver makes of a double between zero and \<^term>\<open>2 ^ 32\<close>.\<close>

lemma timespec_of_double_error:
  assumes "0 \<le> d" "d < 2 powi 32" and "r = timespec_of_double (Some d)"
  shows "tv_sec r = \<lfloor>d\<rfloor>" "\<bar>of_int (ts_ns r) - d * 1000000000\<bar> \<le> 2"
proof -
  define g where "g = to_double (d - of_int \<lfloor>d\<rfloor>)"
  define h where "h = to_double (g * 1000000000)"
  have d: "0 \<le> \<lfloor>d\<rfloor>" "\<lfloor>d\<rfloor> < 2 ^ 32" using assms(1,2) by (simp_all add: floor_less_iff powi_values)
  then show sec: "tv_sec r = \<lfloor>d\<rfloor>"
    using assms(1) by (simp add: assms(3) timespec_of_double_def double_int64_def Let_def)
  have "(of_int \<lfloor>d\<rfloor> :: rat) < 2 powi int 53" using d(2) assms(2) of_int_floor_le [of d] by (simp add: powi_values)
  then have ex: "to_double (of_int \<lfloor>d\<rfloor>) = (of_int \<lfloor>d\<rfloor> :: rat)" using d(1) by (intro round_bits_int)
  have fr: "0 \<le> d - of_int \<lfloor>d\<rfloor>" "d - of_int \<lfloor>d\<rfloor> < 1" by linarith+
  then have g: "0 \<le> g" "\<bar>g - (d - of_int \<lfloor>d\<rfloor>)\<bar> \<le> 1 / 18014398509481984"
    using round_bits_nonneg [of "d - of_int \<lfloor>d\<rfloor>" 53] round_bits_error [of "d - of_int \<lfloor>d\<rfloor>" 0 53]
    by (simp_all add: g_def powi_values)
  then have "g < 2" using fr by linarith
  then have gb: "0 \<le> g * 1000000000" "g * 1000000000 < 2 powi 31" using g(1) by (simp_all add: powi_values)
  then have h: "0 \<le> h" "\<bar>h - g * 1000000000\<bar> \<le> 1 / 8388608"
    using round_bits_nonneg [of "g * 1000000000" 53] round_bits_error [of "g * 1000000000" 31 53] by (simp_all add: h_def powi_values)
  then have "h < 4294967296" using gb(2) unfolding powi_values by linarith
  then have "0 \<le> \<lfloor>h\<rfloor>" "\<lfloor>h\<rfloor> < 2 ^ 63" using h(1) by (simp_all add: floor_less_iff)
  then have ns: "tv_nsec r = \<lfloor>h\<rfloor>"
    using assms(1) d h(1) by (simp add: assms(3) timespec_of_double_def Let_def)
      (simp add: double_int64_def Let_def ex g_def [symmetric] h_def [symmetric])
  have "\<bar>h - y * 1000000000\<bar> \<le> 1 / 2" if "\<bar>g - y\<bar> \<le> 1 / 18014398509481984" for y
    using that h(2) by linarith
  from this [OF g(2)] have "\<bar>h - (d * 1000000000 - 1000000000 * of_int \<lfloor>d\<rfloor>)\<bar> \<le> 1 / 2"
    by (simp only: left_diff_distrib mult.commute)
  moreover have "(of_int (ts_ns r) :: rat) = 1000000000 * of_int \<lfloor>d\<rfloor> + of_int \<lfloor>h\<rfloor>" by (simp add: ts_ns_def sec ns)
  ultimately show "\<bar>of_int (ts_ns r) - d * 1000000000\<bar> \<le> 2"
    using floor_correct [of h] by linarith
qed


lemma stamp_double_error:
  assumes "ts_normal t" "2 ^ 30 \<le> tv_sec t" "tv_sec t < 2 ^ 31"
  shows "\<bar>stamp_double t - (of_int (tv_sec t) + of_int (tv_nsec t) / 1000000000)\<bar> \<le> 64 + 280 / 1000000000"
    "2 ^ 29 \<le> stamp_double t" "stamp_double t < 2 powi 32"
    "bits_double (double_bits (stamp_double t)) = Some (stamp_double t)"
proof -
  define s where "s = (of_int (tv_sec t) :: rat)"
  define sf where "sf = to_float s"
  define f where "f = to_double (to_float (of_int (tv_nsec t)) / 1000000000)"
  have s: "1073741824 \<le> s" "s < 2147483648" using assms(2,3) unfolding s_def by simp_all
  have n: "0 \<le> tv_nsec t" "tv_nsec t < 1000000000" using assms(1) by (simp_all add: ts_normal_def)
  have f: "0 \<le> f" "\<bar>f - of_int (tv_nsec t) / 1000000000\<bar> \<le> 33 / 1000000000"
    using stamp_fraction [OF n f_def] by simp_all
  have nf: "(of_int (tv_nsec t) :: rat) / 1000000000 \<le> 1" using n(2) by simp
  have sf: "\<bar>sf - s\<bar> \<le> 64"
    using round_bits_error [of s 31 24] s by (simp add: sf_def powi_values)
  have x: "1000000000 \<le> sf + f" "sf + f < 4000000000" using f nf sf s by linarith+
  then have "0 \<le> sf + f" "sf + f < 2 powi 32" by (simp_all add: powi_values)
  from round_bits_error [OF this, of 53] have d: "\<bar>stamp_double t - (sf + f)\<bar> \<le> 1 / 4194304"
    by (simp add: stamp_double_def sf_def s_def f_def powi_values)
  have "536870912 \<le> stamp_double t \<and> stamp_double t < 4294967296" using d x by linarith
  then show "2 ^ 29 \<le> stamp_double t" "stamp_double t < 2 powi 32" by (simp_all add: powi_values)
  have "\<bar>stamp_double t - (s + y)\<bar> \<le> 64 + 280 / 1000000000" if "\<bar>f - y\<bar> \<le> 33 / 1000000000" for y
    using that d sf by linarith
  from this [OF f(2)] show "\<bar>stamp_double t - (of_int (tv_sec t) + of_int (tv_nsec t) / 1000000000)\<bar>
    \<le> 64 + 280 / 1000000000" by (simp only: s_def)
  have "0 < sf + f" using x(1) by simp
  moreover have "expo (sf + f) < 32" using expo_less [OF \<open>0 < sf + f\<close> \<open>sf + f < 2 powi 32\<close>] .
  moreover have "- 1 < expo (sf + f)"
    using expo_bounds [OF \<open>0 < sf + f\<close>] x(1) powi_less_iff [of 0 "expo (sf + f) + 1"] by simp
  ultimately show "bits_double (double_bits (stamp_double t)) = Some (stamp_double t)"
    using to_double_roundtrip [of "sf + f"] by (simp add: stamp_double_def sf_def s_def f_def)
qed

text \<open>The time of the sender as the receiver reads it, for the clock of the years 2004 to 2038.\<close>

lemma stamp_roundtrip_error:
  assumes "ts_normal t" "2 ^ 30 \<le> tv_sec t" "tv_sec t < 2 ^ 31"
  shows "\<bar>ts_ns (frame_timespec (stamp_frame t)) - ts_ns t\<bar> \<le> 64 * 1000000000 + 282"
proof -
  define r where "r = frame_timespec (stamp_frame t)"
  define d where "d = stamp_double t"
  note e = stamp_double_error [OF assms, folded d_def]
  have "r = timespec_of_double (Some d)"
    using e(4) by (simp add: r_def frame_timespec_def stamp_frame_def d_def)
  then have r: "\<bar>of_int (ts_ns r) - d * 1000000000\<bar> \<le> 2"
    using e(2,3) by (intro timespec_of_double_error) auto
  have "(of_int (ts_ns t) :: rat) = (of_int (tv_sec t) + of_int (tv_nsec t) / 1000000000) * 1000000000"
    by (simp add: ts_ns_def)
  moreover have "\<bar>of_int (ts_ns r) - y * 1000000000\<bar> \<le> 64 * 1000000000 + 282"
    if "\<bar>d - y\<bar> \<le> 64 + 280 / 1000000000" for y
    using that r by linarith
  ultimately have "\<bar>(of_int (ts_ns r) :: rat) - of_int (ts_ns t)\<bar> \<le> 64 * 1000000000 + 282"
    using e(1) by (simp only:)
  then have "of_int \<bar>ts_ns r - ts_ns t\<bar> \<le> (of_int (64 * 1000000000 + 282) :: rat)" by simp
  then show ?thesis unfolding r_def by (simp only: of_int_le_iff)
qed

text \<open>For 64 seconds in every 128 the receiver sees the same second.\<close>

lemma to_float_coarse:
  assumes "2 ^ 23 \<le> q" "q < 2 ^ 24" "0 \<le> r" "r < 64"
  shows "to_float (of_int (128 * q + r)) = of_int (128 * q)"
proof -
  define x where "x = (of_int (128 * q + r) :: rat)"
  have x: "2 powi 30 \<le> x" "x < 2 powi (30 + 1)" "0 < x" using assms unfolding x_def powi_values by simp_all
  have "(of_int r :: rat) / 128 < 1 / 2" "0 \<le> (of_int r :: rat) / 128" using assms(3,4) by simp_all
  moreover have "x / 128 = of_int q + of_int r / 128" by (simp add: x_def add_divide_distrib)
  ultimately have "\<lfloor>x / 128\<rfloor> = q" "x / 128 - of_int q < 1 / 2" by (intro floor_unique, linarith+)
  then have "round_even (x / 128) = q" unfolding round_even_def Let_def by (simp only: simp_thms if_True)
  moreover have "expo x = 30" using x by (intro expo_unique) auto
  ultimately show ?thesis using x(3) by (simp add: round_bits_def Let_def x_def)
qed

lemma stamp_seconds_coarse:
  assumes "2 ^ 23 \<le> q" "q < 2 ^ 24" "0 \<le> r" "r < 64" "0 \<le> ns" "ns \<le> 999999000"
  shows "tv_sec (frame_timespec (stamp_frame \<lparr>tv_sec = 128 * q + r, tv_nsec = ns\<rparr>)) = 128 * q"
proof -
  let ?t = "\<lparr>tv_sec = 128 * q + r, tv_nsec = ns\<rparr>"
  have t: "ts_normal ?t" "2 ^ 30 \<le> tv_sec ?t" "tv_sec ?t < 2 ^ 31" using assms by (simp_all add: ts_normal_def)
  define d where "d = stamp_double ?t"
  define f where "f = to_double (to_float (of_int ns) / 1000000000)"
  have d: "d = to_double (of_int (128 * q) + f)"
    using to_float_coarse [OF assms(1-4)] by (simp add: d_def stamp_double_def f_def)
  have "ns < 1000000000" using assms(6) by simp
  note fr = stamp_fraction [OF assms(5) this f_def]
  have "(of_int ns :: rat) / 1000000000 \<le> 999999 / 1000000" using assms(6) by simp
  then have f: "0 \<le> f" "f \<le> 999999 / 1000000 + 33 / 1000000000" using fr by linarith+
  have q: "1073741824 \<le> (of_int (128 * q) :: rat)" "(of_int (128 * q) :: rat) < 2147483648" using assms(1,2) by simp_all
  define x where "x = of_int (128 * q) + f"
  have x: "0 < x" "x < 2 powi 32" "x < 2 powi int 53" using q f unfolding x_def powi_values by (simp_all add: powi_values)
  have "of_int (128 * q) \<le> d" using round_bits_between(1) [OF x(1,3), of "128 * q"] f(1) by (simp add: d x_def)
  moreover have "\<bar>d - x\<bar> \<le> 1 / 4194304" using round_bits_error [of x 32 53] x by (simp add: d x_def powi_values)
  then have "d < of_int (128 * q) + 1" using f(2) unfolding x_def by linarith
  ultimately have "\<lfloor>d\<rfloor> = 128 * q" by (intro floor_unique) simp_all
  moreover note e = stamp_double_error [OF t, folded d_def]
  have "tv_sec (timespec_of_double (Some d)) = \<lfloor>d\<rfloor>" using e(2,3) by (intro timespec_of_double_error) auto
  ultimately show ?thesis using e(4) by (simp add: frame_timespec_def stamp_frame_def d_def)
qed

end
