(* ===== verification/Disco_Api.thy ===== *)
theory Disco_Api
  imports Riaps_Messages
begin

text \<open>
  The client side of the discovery service: \<^verbatim>\<open>src/componentmodel/r_discoverdapi.cc\<close>.  Each
  function sends one request and waits for one reply; \<open>disco\<close> is the daemon at the other end,
  a function from the request to the reply, and \<open>pid\<close> the process id.
\<close>

section \<open>Requests\<close>

definition RegisterActor_req :: "int \<Rightarrow> string \<Rightarrow> string \<Rightarrow> DiscoReq" where
  "RegisterActor_req pid app_name actor_name = ReqActorReg
     \<lparr>ar_appName = app_name, ar_version = ''0'', ar_actorName = actor_name, ar_pid = pid\<rparr>"

definition DeregisterActor_req :: "int \<Rightarrow> string \<Rightarrow> string \<Rightarrow> DiscoReq" where
  "DeregisterActor_req pid actor_name app_name = ReqActorUnreg
     \<lparr>au_appName = app_name, au_version = [], au_actorName = actor_name, au_pid = pid\<rparr>"

definition RegisterService_req ::
  "int \<Rightarrow> string \<Rightarrow> string \<Rightarrow> string \<Rightarrow> string \<Rightarrow> u16 \<Rightarrow> Kind \<Rightarrow> Scope \<Rightarrow> DiscoReq" where
  "RegisterService_req pid app_name actor_name message_type ip_address port kind scope = ReqServiceReg
     \<lparr>sr_path = \<lparr>p_appName = app_name, p_actorName = actor_name, p_msgType = message_type,
                 p_kind = kind, p_scope = scope\<rparr>,
      sr_socket = \<lparr>s_host = ip_address, s_port = int (unat port)\<rparr>, sr_pid = pid\<rparr>"

text \<open>A lookup leaves the actor name of the path unset.\<close>

definition SubscribeToService_req ::
  "string \<Rightarrow> string \<Rightarrow> string \<Rightarrow> string \<Rightarrow> Kind \<Rightarrow> Scope \<Rightarrow> string \<Rightarrow> string \<Rightarrow> DiscoReq" where
  "SubscribeToService_req app_name part_name actor_name ip_address kind scope port_nm msg_type = ReqServiceLookup
     \<lparr>sl_path = \<lparr>p_appName = app_name, p_actorName = [], p_msgType = msg_type,
                 p_kind = kind, p_scope = scope\<rparr>,
      sl_client = \<lparr>c_actorHost = ip_address, c_actorName = actor_name, c_instanceName = part_name,
                   c_portName = port_nm\<rparr>\<rparr>"

definition JoinGroup_req ::
  "int \<Rightarrow> string \<Rightarrow> string \<Rightarrow> GroupId \<Rightarrow> GroupService list \<Rightarrow> DiscoReq" where
  "JoinGroup_req pid app_name component_id gid group_services = ReqGroupJoin
     \<lparr>gj_appName = app_name, gj_groupId = gid, gj_services = group_services,
      gj_componentId = component_id, gj_pid = pid\<rparr>"

section \<open>Calls\<close>

text \<open>The endpoint of the pair socket to the daemon, or nothing.\<close>

definition RegisterActor :: "(DiscoReq \<Rightarrow> DiscoRep) \<Rightarrow> int \<Rightarrow> string \<Rightarrow> string \<Rightarrow> string option" where
  "RegisterActor disco pid app_name actor_name =
     (case disco (RegisterActor_req pid app_name actor_name) of
        RepActorReg StatusOk port \<Rightarrow> Some (''tcp://localhost:'' @ to_string_int port)
      | _ \<Rightarrow> None)"

text \<open>The value says whether an error is logged.\<close>

definition DeregisterActor :: "(DiscoReq \<Rightarrow> DiscoRep) \<Rightarrow> int \<Rightarrow> string \<Rightarrow> string \<Rightarrow> bool" where
  "DeregisterActor disco pid actor_name app_name =
     (case disco (DeregisterActor_req pid actor_name app_name) of
        RepActorUnreg StatusErr _ \<Rightarrow> True | _ \<Rightarrow> False)"

definition RegisterService ::
  "(DiscoReq \<Rightarrow> DiscoRep) \<Rightarrow> int \<Rightarrow> string \<Rightarrow> string \<Rightarrow> string \<Rightarrow> string \<Rightarrow> u16 \<Rightarrow> Kind \<Rightarrow> Scope \<Rightarrow> bool" where
  "RegisterService disco pid app_name actor_name message_type ip_address port kind scope =
     (case disco (RegisterService_req pid app_name actor_name message_type ip_address port kind scope) of
        RepServiceReg StatusOk \<Rightarrow> True | _ \<Rightarrow> False)"

record ServiceLookupResult =
  slr_part_name :: string
  slr_port_name :: string
  slr_host_name :: string
  slr_port :: u16

definition SubscribeToService ::
  "(DiscoReq \<Rightarrow> DiscoRep) \<Rightarrow> string \<Rightarrow> string \<Rightarrow> string \<Rightarrow> string \<Rightarrow> Kind \<Rightarrow> Scope \<Rightarrow> string \<Rightarrow> string
   \<Rightarrow> ServiceLookupResult list" where
  "SubscribeToService disco app_name part_name actor_name ip_address kind scope port_nm msg_type =
     (case disco (SubscribeToService_req app_name part_name actor_name ip_address kind scope port_nm msg_type) of
        RepServiceLookup StatusOk sockets \<Rightarrow>
          map (\<lambda>s. \<lparr>slr_part_name = part_name, slr_port_name = port_nm, slr_host_name = s_host s,
                    slr_port = of_int (s_port s)\<rparr>) sockets
      | _ \<Rightarrow> [])"

definition JoinGroup_disco ::
  "(DiscoReq \<Rightarrow> DiscoRep) \<Rightarrow> int \<Rightarrow> string \<Rightarrow> string \<Rightarrow> GroupId \<Rightarrow> GroupService list \<Rightarrow> bool" where
  "JoinGroup_disco disco pid app_name component_id gid group_services =
     (case disco (JoinGroup_req pid app_name component_id gid group_services) of
        RepGroupJoin StatusOk \<Rightarrow> True | _ \<Rightarrow> False)"

lemmas disco_req_defs = RegisterActor_req_def DeregisterActor_req_def RegisterService_req_def
  SubscribeToService_req_def JoinGroup_req_def

end
