(* ===== verification/Network.thy ===== *)
theory Network
  imports Riaps_Prelude
begin

text \<open>
  Network interfaces: \<^verbatim>\<open>src/framework/rfw_network_interfaces.cc\<close>.  The host is a record: the
  bytes of the configuration file (absent when it cannot be opened), the interface list of
  \<^verbatim>\<open>ziflist\<close> in its order, and what \<^verbatim>\<open>/sys/class/net\<close> holds (interface name to hardware
  address).  \<^verbatim>\<open>GetFirstGlobalIface\<close> throws when only the loopback address exists.
\<close>

record host_env =
  riaps_conf :: "string option"
  iflist :: "(string \<times> string) list"
  sys_class_net :: "string \<Rightarrow> string option"

datatype net_error = Cannot_get_first_global

definition is_alnum :: "char \<Rightarrow> bool" where
  "is_alnum c = (let n = (of_char c :: nat) in 97 \<le> n \<and> n \<le> 122 \<or> 65 \<le> n \<and> n \<le> 90 \<or> 48 \<le> n \<and> n \<le> 57)"

text \<open>The regular expression of a \<^verbatim>\<open>nic_name = <name>\<close> line; its parts cannot overlap, so
  matching needs no backtracking.\<close>

definition nic_of_line :: "string \<Rightarrow> string option" where
  "nic_of_line line =
     (if starts_with ''nic_name'' line
      then (case dropWhile is_space (drop 8 line) of
              c # rest \<Rightarrow>
                if c = CHR ''=''
                then (let name = takeWhile is_alnum (dropWhile is_space rest);
                          tail = dropWhile is_alnum (dropWhile is_space rest)
                      in if name \<noteq> [] \<and> list_all is_space tail then Some name else None)
                else None
            | [] \<Rightarrow> None)
      else None)"

fun first_nic :: "string list \<Rightarrow> string" where
  "first_nic [] = []"
| "first_nic (l # ls) = (case nic_of_line l of Some n \<Rightarrow> n | None \<Rightarrow> first_nic ls)"

definition GetConfiguredIface :: "host_env \<Rightarrow> string" where
  "GetConfiguredIface h = (case riaps_conf h of Some file \<Rightarrow> first_nic (getlines file) | None \<Rightarrow> [])"

definition CheckIfaceName :: "host_env \<Rightarrow> string \<Rightarrow> bool" where
  "CheckIfaceName h ifacename = (if ifacename = [] then False else sys_class_net h ifacename \<noteq> None)"

definition GetFirstGlobalIface :: "host_env \<Rightarrow> net_error + (string \<times> string)" where
  "GetFirstGlobalIface h =
     (case find (\<lambda>p. snd p \<noteq> ''127.0.0.1'') (iflist h) of
        Some p \<Rightarrow> Inr p | None \<Rightarrow> Inl Cannot_get_first_global)"

text \<open>The scan goes on while the result is empty.\<close>

fun address_of :: "string \<Rightarrow> (string \<times> string) list \<Rightarrow> string" where
  "address_of name [] = []"
| "address_of name ((n, a) # ifs) = (if n = name \<and> a \<noteq> [] then a else address_of name ifs)"

definition GetIPAddress :: "host_env \<Rightarrow> string \<Rightarrow> net_error + string" where
  "GetIPAddress h ifacename =
     (let configuredIface = GetConfiguredIface h
      in if ifacename = []
         then (if configuredIface = [] \<or> \<not> CheckIfaceName h configuredIface
               then (case GetFirstGlobalIface h of Inl e \<Rightarrow> Inl e | Inr (_, ip) \<Rightarrow> Inr ip)
               else Inr (address_of configuredIface (iflist h)))
         else Inr (address_of ifacename (iflist h)))"

definition GetMacAddress :: "host_env \<Rightarrow> string \<Rightarrow> net_error + string" where
  "GetMacAddress h ifacename =
     (let sysaddr = (\<lambda>n. case sys_class_net h n of Some a \<Rightarrow> a | None \<Rightarrow> []);
          configuredIface = GetConfiguredIface h
      in if ifacename = []
         then (if configuredIface = [] \<or> \<not> CheckIfaceName h configuredIface
               then (case GetFirstGlobalIface h of Inl e \<Rightarrow> Inl e | Inr (n, _) \<Rightarrow> Inr (sysaddr n))
               else Inr (sysaddr configuredIface))
         else Inr (sysaddr ifacename))"

definition GetMacAddressStripped :: "host_env \<Rightarrow> string \<Rightarrow> net_error + string" where
  "GetMacAddressStripped h ifacename =
     (case GetMacAddress h ifacename of Inl e \<Rightarrow> Inl e
      | Inr a \<Rightarrow> Inr (filter (\<lambda>c. c \<noteq> CHR '':'') a))"

lemma nic_of_line_ok:
  assumes "list_all is_alnum n" "n \<noteq> []"
  shows "nic_of_line (''nic_name'' @ replicate i CHR '' '' @ ''='' @ replicate j CHR '' '' @ n) = Some n"
proof -
  have sp: "is_space (CHR '' '')" "\<not> is_space CHR ''=''" by (simp_all add: is_space_def)
  have al: "\<not> is_space c" if "is_alnum c" for c
    using that by (auto simp: is_alnum_def is_space_def Let_def)
  obtain c cs where n: "n = c # cs" using assms(2) by (cases n) auto
  have drop_sp: "dropWhile is_space (replicate k CHR '' '' @ xs) = dropWhile is_space xs" for k xs
    by (induction k) (simp_all add: sp)
  have "dropWhile is_space n = n" using assms(1) al by (simp add: n)
  moreover have tk: "takeWhile is_alnum n = n" "dropWhile is_alnum n = []"
    using assms(1) by (simp_all add: list_all_iff)
  ultimately show ?thesis using assms(2) by (simp add: nic_of_line_def drop_sp sp Let_def tk)
qed

text \<open>the address a socket binds to.  With no interface named, the address is that of the
  configured interface when the configuration names one the kernel knows, and otherwise that of the first
  interface whose address is not the loopback one; it fails only when every address is the
  loopback address.\<close>

theorem GetIPAddress_default:
  "GetIPAddress h [] =
     (if GetConfiguredIface h \<noteq> [] \<and> sys_class_net h (GetConfiguredIface h) \<noteq> None
      then Inr (address_of (GetConfiguredIface h) (iflist h))
      else case filter (\<lambda>p. snd p \<noteq> ''127.0.0.1'') (iflist h) of
             [] \<Rightarrow> Inl Cannot_get_first_global | p # _ \<Rightarrow> Inr (snd p))"
proof -
  have "find P xs = (case filter P xs of [] \<Rightarrow> None | x # _ \<Rightarrow> Some x)" for P and xs :: "(string \<times> string) list"
    by (induction xs) auto
  then show ?thesis
    by (simp add: GetIPAddress_def Let_def CheckIfaceName_def GetFirstGlobalIface_def split: list.split)
qed

end
