(* ===== verification/Ports.thy ===== *)
theory Ports
  imports Time_Stamps Disco_Api Network
begin

text \<open>
  Ports: \<^verbatim>\<open>src/componentmodel/ports/*.cc\<close> and \<^verbatim>\<open>src/componentmodel/r_payload.cc\<close>.  A port is a
  record with its configuration, its certificate and its socket; a socket records its options,
  its endpoints and the messages handed to it, in order.  A message is a list of frames and a
  frame a byte string.  What the messaging library answers (the port a bind gets, return codes,
  received messages, clock readings) is an argument.
\<close>

section \<open>Errors\<close>

record port_error =
  pe_success :: bool
  pe_code :: int

definition PortError :: "bool \<Rightarrow> int \<Rightarrow> port_error" where
  "PortError success error_code = \<lparr>pe_success = success, pe_code = error_code\<rparr>"

definition pe_error :: "port_error \<Rightarrow> bool" where
  "pe_error e = (\<not> pe_success e)"

text \<open>The conversion to \<^verbatim>\<open>bool\<close>, applied wherever a \<^verbatim>\<open>PortError\<close> is returned as a \<^verbatim>\<open>bool\<close>.\<close>

definition pe_bool :: "port_error \<Rightarrow> bool" where
  "pe_bool e = pe_error e"

section \<open>Configuration, sockets and ports\<close>

record port_config =
  pc_port_name :: string
  pc_message_type :: string
  pc_is_local :: bool
  pc_is_timed :: bool

datatype PortTypes = Publisher | Subscriber | Request | Response | Timer | Inside | Query | Answer

datatype port_class = CRequestPort | CPublisherPort | CGroupPublisherPort | CGroupSubscriberPort
  | CResponsePort | CSubscriberPort | CPeriodicTimer | CInsidePort | CQueryPort | CAnswerPort | CRecvPort

text \<open>The \<^verbatim>\<open>dynamic_cast\<close> behind \<^verbatim>\<open>GetPortAs\<close>: the class itself, or the receiving base class of
  the request, response and subscriber ports.\<close>

definition GetPortAs :: "port_class \<Rightarrow> port_class \<Rightarrow> bool" where
  "GetPortAs want cls =
     (want = cls \<or> want = CRecvPort \<and>
       cls \<in> {CRequestPort, CResponsePort, CSubscriberPort, CGroupSubscriberPort})"

datatype socket_type = ZMQ_PUB | ZMQ_SUB | ZMQ_REQ | ZMQ_REP | ZMQ_DEALER | ZMQ_ROUTER | ZMQ_PAIR | ZMQ_PULL

record socket =
  so_type :: socket_type
  so_cert :: bool
  so_curve_server :: bool
  so_curve_serverkey :: bool
  so_bound :: "string list"
  so_connected :: "string list"
  so_sent :: "zmsg list"

definition zsock_new :: "socket_type \<Rightarrow> socket" where
  "zsock_new t = \<lparr>so_type = t, so_cert = False, so_curve_server = False, so_curve_serverkey = False,
     so_bound = [], so_connected = [], so_sent = []\<rparr>"

record port =
  pt_class :: port_class
  pt_type :: PortTypes
  pt_config :: port_config
  pt_parent_security :: "bool option"
  pt_certificate :: bool
  pt_socket :: "socket option"
  pt_host :: string
  pt_port :: int
  pt_is_connected :: bool
  pt_sent_timestamp :: timespec
  pt_recv_timestamp :: timespec

text \<open>\<open>pt_parent_security\<close> is the setting of the parent component, none without a parent.\<close>

definition has_security :: "bool option \<Rightarrow> bool" where
  "has_security parent = (case parent of None \<Rightarrow> False | Some b \<Rightarrow> b)"

definition PortBase_new ::
  "port_class \<Rightarrow> PortTypes \<Rightarrow> port_config \<Rightarrow> bool option \<Rightarrow> bool \<Rightarrow> int \<Rightarrow> port" where
  "PortBase_new cls ty cfg parent curve_key junk =
     \<lparr>pt_class = cls, pt_type = ty, pt_config = cfg, pt_parent_security = parent,
      pt_certificate = (has_security parent \<and> curve_key), pt_socket = None, pt_host = [],
      pt_port = junk, pt_is_connected = False, pt_sent_timestamp = \<lparr>tv_sec = 0, tv_nsec = 0\<rparr>,
      pt_recv_timestamp = \<lparr>tv_sec = 0, tv_nsec = 0\<rparr>\<rparr>"

definition on_socket :: "(socket \<Rightarrow> socket) \<Rightarrow> port \<Rightarrow> port" where
  "on_socket f p = p\<lparr>pt_socket := map_option f (pt_socket p)\<rparr>"

text \<open>The part the binding ports share: apply the certificate when security is on, give up
  without one, then bind to a free port of the host.  The flag says whether the bind was reached.\<close>

definition secure_and_bind :: "(string \<Rightarrow> int) \<Rightarrow> port \<Rightarrow> bool \<times> port" where
  "secure_and_bind bind p =
     (if has_security (pt_parent_security p) \<and> \<not> pt_certificate p then (False, p)
      else (let p = (if has_security (pt_parent_security p)
                     then on_socket (\<lambda>s. s\<lparr>so_cert := True, so_curve_server := True\<rparr>) p else p);
                endpoint = ''tcp://'' @ pt_host p @ '':!'';
                p = on_socket (\<lambda>s. s\<lparr>so_bound := so_bound s @ [endpoint]\<rparr>) p
            in (True, p\<lparr>pt_port := bind endpoint\<rparr>)))"

text \<open>The host name of a binding port.\<close>

definition bind_host :: "host_env \<Rightarrow> bool \<Rightarrow> net_error + string" where
  "bind_host h is_local =
     (if is_local then Inr ''127.0.0.1'' else GetIPAddress h (GetConfiguredIface h))"

section \<open>Publisher ports\<close>

definition PublisherPortBase_InitSocket ::
  "host_env \<Rightarrow> (string \<Rightarrow> int) \<Rightarrow> port \<Rightarrow> net_error + port" where
  "PublisherPortBase_InitSocket h bind p =
     (let p = p\<lparr>pt_socket := Some (zsock_new ZMQ_PUB)\<rparr>
      in case bind_host h (pc_is_local (pt_config p)) of
           Inl e \<Rightarrow> Inl e
         | Inr host \<Rightarrow> Inr (snd (secure_and_bind bind (p\<lparr>pt_host := host\<rparr>))))"

definition scope_of :: "port_config \<Rightarrow> Scope" where
  "scope_of cfg = (if pc_is_local cfg then LOCAL else GLOBAL)"

text \<open>The registration of a binding port: its port number is converted to \<^verbatim>\<open>uint16_t\<close>.\<close>

definition port_registration :: "int \<Rightarrow> string \<Rightarrow> string \<Rightarrow> Kind \<Rightarrow> port \<Rightarrow> DiscoReq" where
  "port_registration pid app actor kind p =
     RegisterService_req pid app actor (pc_message_type (pt_config p)) (pt_host p) (of_int (pt_port p)) kind
       (scope_of (pt_config p))"

definition PublisherPort_new ::
  "host_env \<Rightarrow> (string \<Rightarrow> int) \<Rightarrow> bool option \<Rightarrow> bool \<Rightarrow> int \<Rightarrow> int \<Rightarrow> string \<Rightarrow> string \<Rightarrow> port_config
   \<Rightarrow> net_error + (port \<times> DiscoReq)" where
  "PublisherPort_new h bind parent curve_key junk pid app actor cfg =
     (case PublisherPortBase_InitSocket h bind
             (PortBase_new CPublisherPort Publisher cfg parent curve_key junk) of
        Inl e \<Rightarrow> Inl e
      | Inr p \<Rightarrow> Inr (p, port_registration pid app actor PUB p))"

definition GroupPublisherPort_new ::
  "host_env \<Rightarrow> (string \<Rightarrow> int) \<Rightarrow> bool option \<Rightarrow> bool \<Rightarrow> int \<Rightarrow> port_config \<Rightarrow> net_error + port" where
  "GroupPublisherPort_new h bind parent curve_key junk cfg =
     PublisherPortBase_InitSocket h bind
       (PortBase_new CGroupPublisherPort Publisher cfg parent curve_key junk)"

definition GetGroupService :: "port \<Rightarrow> GroupService" where
  "GetGroupService p =
     \<lparr>gs_message_type = pc_message_type (pt_config p),
      gs_address = pt_host p @ '':'' @ to_string_int (pt_port p)\<rparr>"

section \<open>Response and answer ports\<close>

definition ResponsePort_new ::
  "host_env \<Rightarrow> (string \<Rightarrow> int) \<Rightarrow> bool option \<Rightarrow> bool \<Rightarrow> int \<Rightarrow> int \<Rightarrow> string \<Rightarrow> string \<Rightarrow> port_config
   \<Rightarrow> net_error + (port \<times> DiscoReq list)" where
  "ResponsePort_new h bind parent curve_key junk pid app actor cfg =
     (let p = (PortBase_new CResponsePort Response cfg parent curve_key junk)
                \<lparr>pt_socket := Some (zsock_new ZMQ_REP)\<rparr>
      in case bind_host h (pc_is_local cfg) of
           Inl e \<Rightarrow> Inl e
         | Inr host \<Rightarrow>
             (let (bound, p) = secure_and_bind bind (p\<lparr>pt_host := host\<rparr>)
              in Inr (p, if bound then [port_registration pid app actor REP p] else [])))"

text \<open>An answer port binds to the configured interface even when it is local.\<close>

definition AnswerPort_new ::
  "host_env \<Rightarrow> (string \<Rightarrow> int) \<Rightarrow> bool option \<Rightarrow> bool \<Rightarrow> int \<Rightarrow> int \<Rightarrow> string \<Rightarrow> string \<Rightarrow> port_config
   \<Rightarrow> net_error + (port \<times> DiscoReq list)" where
  "AnswerPort_new h bind parent curve_key junk pid app actor cfg =
     (let p = (PortBase_new CAnswerPort Answer cfg parent curve_key junk)
                \<lparr>pt_socket := Some (zsock_new ZMQ_ROUTER)\<rparr>
      in case GetIPAddress h (GetConfiguredIface h) of
           Inl e \<Rightarrow> Inl e
         | Inr host \<Rightarrow>
             (let (bound, p) = secure_and_bind bind (p\<lparr>pt_host := host\<rparr>)
              in Inr (p, if bound then [port_registration pid app actor ANS p] else [])))"

section \<open>Subscriber, request, query and inside ports\<close>

definition SubscriberPortBase_new ::
  "port_class \<Rightarrow> port_config \<Rightarrow> bool option \<Rightarrow> bool \<Rightarrow> int \<Rightarrow> port" where
  "SubscriberPortBase_new cls cfg parent curve_key junk =
     (PortBase_new cls Subscriber cfg parent curve_key junk)\<lparr>pt_socket := Some (zsock_new ZMQ_SUB)\<rparr>"

definition apply_client_cert :: "port \<Rightarrow> port" where
  "apply_client_cert p = on_socket (\<lambda>s. s\<lparr>so_cert := True, so_curve_serverkey := True\<rparr>) p"

definition connect_socket :: "string \<Rightarrow> port \<Rightarrow> port" where
  "connect_socket endpoint p = on_socket (\<lambda>s. s\<lparr>so_connected := so_connected s @ [endpoint]\<rparr>) p"

definition ConnectToPublihser :: "(string \<Rightarrow> int) \<Rightarrow> string \<Rightarrow> port \<Rightarrow> bool \<times> port" where
  "ConnectToPublihser connect endpoint p =
     (if has_security (pt_parent_security p) \<and> \<not> pt_certificate p then (False, p)
      else (let p = (if has_security (pt_parent_security p) then apply_client_cert p else p)
            in if connect endpoint \<noteq> 0 then (False, p) else (True, connect_socket endpoint p)))"

definition ConnectToResponse :: "(string \<Rightarrow> int) \<Rightarrow> string \<Rightarrow> port \<Rightarrow> bool \<times> port" where
  "ConnectToResponse connect endpoint p =
     (if connect endpoint \<noteq> 0 then (False, p)
      else (True, (connect_socket endpoint p)\<lparr>pt_is_connected := True\<rparr>))"

definition lookup_host :: "host_env \<Rightarrow> bool \<Rightarrow> net_error + string" where
  "lookup_host h is_local = (if is_local then Inr ''127.0.0.1'' else GetIPAddress h [])"

definition result_endpoint :: "ServiceLookupResult \<Rightarrow> string" where
  "result_endpoint r = ''tcp://'' @ slr_host_name r @ '':'' @ to_string_nat (unat (slr_port r))"

definition port_lookup ::
  "(DiscoReq \<Rightarrow> DiscoRep) \<Rightarrow> string \<Rightarrow> string \<Rightarrow> string \<Rightarrow> string \<Rightarrow> Kind \<Rightarrow> port_config \<Rightarrow> ServiceLookupResult list" where
  "port_lookup disco app component actor host kind cfg =
     SubscribeToService disco app component actor host kind (scope_of cfg) (pc_port_name cfg) (pc_message_type cfg)"

definition SubscriberPort_Init ::
  "host_env \<Rightarrow> (DiscoReq \<Rightarrow> DiscoRep) \<Rightarrow> (string \<Rightarrow> int) \<Rightarrow> string \<Rightarrow> string \<Rightarrow> string \<Rightarrow> port \<Rightarrow> net_error + port" where
  "SubscriberPort_Init h disco connect app component actor p =
     (case lookup_host h (pc_is_local (pt_config p)) of
        Inl e \<Rightarrow> Inl e
      | Inr host \<Rightarrow> Inr (fold (\<lambda>r p. snd (ConnectToPublihser connect (result_endpoint r) p))
          (port_lookup disco app component actor host SUB (pt_config p)) p))"

definition RequestPort_new :: "port_config \<Rightarrow> bool option \<Rightarrow> bool \<Rightarrow> int \<Rightarrow> port" where
  "RequestPort_new cfg parent curve_key junk =
     (PortBase_new CRequestPort Request cfg parent curve_key junk)\<lparr>pt_socket := Some (zsock_new ZMQ_REQ)\<rparr>"

definition RequestPort_Init ::
  "host_env \<Rightarrow> (DiscoReq \<Rightarrow> DiscoRep) \<Rightarrow> (string \<Rightarrow> int) \<Rightarrow> string \<Rightarrow> string \<Rightarrow> string \<Rightarrow> port \<Rightarrow> net_error + port" where
  "RequestPort_Init h disco connect app component actor p =
     (case lookup_host h (pc_is_local (pt_config p)) of
        Inl e \<Rightarrow> Inl e
      | Inr host \<Rightarrow>
          if has_security (pt_parent_security p) \<and> \<not> pt_certificate p then Inr p
          else (let p = (if has_security (pt_parent_security p) then apply_client_cert p else p)
                in Inr (fold (\<lambda>r p. snd (ConnectToResponse connect (result_endpoint r) p))
                     (port_lookup disco app component actor host REQ (pt_config p)) p)))"

definition QueryPort_new :: "port_config \<Rightarrow> bool option \<Rightarrow> bool \<Rightarrow> int \<Rightarrow> port" where
  "QueryPort_new cfg parent curve_key junk =
     (PortBase_new CQueryPort Query cfg parent curve_key junk)\<lparr>pt_socket := Some (zsock_new ZMQ_DEALER)\<rparr>"

definition QueryPort_Init ::
  "host_env \<Rightarrow> (DiscoReq \<Rightarrow> DiscoRep) \<Rightarrow> (string \<Rightarrow> int) \<Rightarrow> string \<Rightarrow> string \<Rightarrow> string \<Rightarrow> port \<Rightarrow> net_error + port" where
  "QueryPort_Init h disco connect app component actor p =
     (case lookup_host h (pc_is_local (pt_config p)) of
        Inl e \<Rightarrow> Inl e
      | Inr host \<Rightarrow> Inr (fold (\<lambda>r p. snd (ConnectToResponse connect (result_endpoint r) p))
          (port_lookup disco app component actor host QRY (pt_config p)) p))"

datatype InsidePortMode = BIND | CONNECT

definition InsidePort_new :: "InsidePortMode \<Rightarrow> port_config \<Rightarrow> bool option \<Rightarrow> bool \<Rightarrow> int \<Rightarrow> port" where
  "InsidePort_new mode cfg parent curve_key junk =
     (let p = (PortBase_new CInsidePort Inside cfg parent curve_key junk)
                \<lparr>pt_socket := Some (zsock_new ZMQ_PAIR)\<rparr>;
          endpoint = ''inproc://inside_'' @ pc_port_name cfg
      in if mode = CONNECT then connect_socket endpoint p
         else on_socket (\<lambda>s. s\<lparr>so_bound := so_bound s @ [endpoint]\<rparr>) p)"

section \<open>Sending and receiving\<close>

text \<open>\<open>stamp\<close> is the current time, which a timed port adds as a frame, \<open>rc\<close> and \<open>errno\<close> what
  \<^verbatim>\<open>zmsg_send\<close> answers.\<close>

definition SenderPort_Send :: "timespec \<Rightarrow> int \<Rightarrow> int \<Rightarrow> zmsg \<Rightarrow> port \<Rightarrow> port_error \<times> port" where
  "SenderPort_Send stamp rc errno msg p =
     (let msg = (if pc_is_timed (pt_config p) then msg @ [stamp_frame stamp] else msg)
      in if rc = 0 then (PortError True 0, on_socket (\<lambda>s. s\<lparr>so_sent := so_sent s @ [msg]\<rparr>) p)
         else (PortError False errno, p))"

definition RecvPort_Recv_msg :: "timespec \<Rightarrow> zmsg \<Rightarrow> port \<Rightarrow> frame option \<times> port_error \<times> port" where
  "RecvPort_Recv_msg now msg p =
     (case msg of
        [] \<Rightarrow> (None, PortError False 0, p)
      | body # rest \<Rightarrow>
          (let p = (if pc_is_timed (pt_config p)
                    then (let p = (case rest of [] \<Rightarrow> p | ts # _ \<Rightarrow> p\<lparr>pt_sent_timestamp := frame_timespec ts\<rparr>)
                          in p\<lparr>pt_recv_timestamp := now\<rparr>)
                    else p)
           in (Some body, PortError True 0, p)))"

definition RecvPort_Recv :: "int \<Rightarrow> timespec \<Rightarrow> zmsg option \<Rightarrow> port \<Rightarrow> frame option \<times> port_error \<times> port" where
  "RecvPort_Recv errno now received p =
     (case received of
        None \<Rightarrow> (None, PortError False errno, p)
      | Some msg \<Rightarrow> RecvPort_Recv_msg now msg p)"

text \<open>\<open>rc\<close> is what \<^verbatim>\<open>zsock_send\<close> answers: 0 for success.  It is passed to the constructor of
  \<^verbatim>\<open>PortError\<close> as its success flag.\<close>

definition SendQuery ::
  "int \<Rightarrow> string \<Rightarrow> frame \<Rightarrow> u64 option \<Rightarrow> string \<Rightarrow> port \<Rightarrow> port_error \<times> string \<times> port" where
  "SendQuery rc msgId userFrame timestamp requestId p =
     (let tsFrame = (case timestamp of Some t \<Rightarrow> int64_frame t | None \<Rightarrow> [])
      in (PortError (rc \<noteq> 0) 0,
          if rc = 0 then msgId else requestId,
          if rc = 0 then on_socket (\<lambda>s. s\<lparr>so_sent := so_sent s @ [[msgId, userFrame, tsFrame]]\<rparr>) p else p))"

record message_params =
  mp_originId :: string
  mp_requestId :: string
  mp_timestamp :: u64
  mp_hasTimestamp :: bool

definition MessageParams :: "string \<Rightarrow> string \<Rightarrow> frame \<Rightarrow> message_params" where
  "MessageParams originId requestId timestamp =
     (if 0 < length timestamp
      then \<lparr>mp_originId = originId, mp_requestId = requestId, mp_timestamp = frame_int64 timestamp,
            mp_hasTimestamp = True\<rparr>
      else \<lparr>mp_originId = originId, mp_requestId = requestId, mp_timestamp = - 1,
            mp_hasTimestamp = False\<rparr>)"

definition SendAnswer ::
  "timespec \<Rightarrow> int \<Rightarrow> int \<Rightarrow> u64 \<Rightarrow> frame \<Rightarrow> message_params \<Rightarrow> port \<Rightarrow> port_error \<times> port" where
  "SendAnswer stamp rc errno now userFrame params p =
     SenderPort_Send stamp rc errno
       [mp_originId params, mp_requestId params, userFrame,
        if mp_hasTimestamp params then int64_frame now else []] p"

definition InsidePort_Recv :: "zmsg option \<Rightarrow> bool \<times> zmsg option" where
  "InsidePort_Recv received = (True, received)"

section \<open>Properties\<close>

lemma on_socket_simps [simp]:
  "pt_config (on_socket f p) = pt_config p" "pt_host (on_socket f p) = pt_host p"
  "pt_port (on_socket f p) = pt_port p" "pt_class (on_socket f p) = pt_class p"
  "pt_parent_security (on_socket f p) = pt_parent_security p"
  "pt_certificate (on_socket f p) = pt_certificate p"
  "pt_socket (on_socket f p) = map_option f (pt_socket p)"
  by (simp_all add: on_socket_def)

lemma secure_and_bind_frame:
  "secure_and_bind bind p = (b, p') \<Longrightarrow>
     pt_config p' = pt_config p \<and> pt_host p' = pt_host p \<and> pt_class p' = pt_class p \<and>
     pt_port p' = (if b then bind (''tcp://'' @ pt_host p @ '':!'') else pt_port p) \<and>
     b = (has_security (pt_parent_security p) \<longrightarrow> pt_certificate p)"
  by (auto simp: secure_and_bind_def Let_def split: if_splits)

text \<open>a publisher whose bind fails is registered all the same.  The \<^verbatim>\<open>-1\<close> of a failed bind
  is logged and then registered with the discovery service as port 65535 of the host.\<close>

theorem failed_bind_is_registered:
  assumes "bind_host h (pc_is_local cfg) = Inr host" "has_security parent \<longrightarrow> curve_key"
    and "bind (''tcp://'' @ host @ '':!'') = - 1"
  shows "\<exists>p. PublisherPort_new h bind parent curve_key junk pid app actor cfg =
     Inr (p, RegisterService_req pid app actor (pc_message_type cfg) host 65535 PUB (scope_of cfg))"
proof -
  define p0 where "p0 = (PortBase_new CPublisherPort Publisher cfg parent curve_key junk)
    \<lparr>pt_socket := Some (zsock_new ZMQ_PUB), pt_host := host\<rparr>"
  obtain b p where bp: "secure_and_bind bind p0 = (b, p)" by (cases "secure_and_bind bind p0")
  have "pt_config p = cfg \<and> pt_host p = host \<and> pt_port p = - 1"
    using secure_and_bind_frame [OF bp] assms(2,3) by (auto simp: p0_def PortBase_new_def)
  moreover have "PublisherPort_new h bind parent curve_key junk pid app actor cfg =
      Inr (p, port_registration pid app actor PUB p)"
    using assms(1) bp
    by (simp add: PublisherPort_new_def PublisherPortBase_InitSocket_def p0_def PortBase_new_def Let_def)
  moreover have "(of_int (pt_port p) :: u16) = 65535" using calculation(1) by simp
  ultimately show ?thesis unfolding port_registration_def by metis
qed

theorem failed_bind_is_registered_witness:
  "\<exists>p. PublisherPort_new \<lparr>riaps_conf = None, iflist = [(''eth0'', ''10.0.0.7'')], sys_class_net = Map.empty\<rparr>
      (\<lambda>_. - 1) (Some False) False 0 42 ''app'' ''act'' \<lparr>pc_port_name = ''p'', pc_message_type = ''T'', pc_is_local = False, pc_is_timed = False\<rparr>
    = Inr (p, RegisterService_req 42 ''app'' ''act'' ''T'' ''10.0.0.7'' 65535 PUB GLOBAL)"
  using failed_bind_is_registered
    [of "\<lparr>riaps_conf = None, iflist = [(''eth0'', ''10.0.0.7'')], sys_class_net = Map.empty\<rparr>"
      "\<lparr>pc_port_name = ''p'', pc_message_type = ''T'', pc_is_local = False, pc_is_timed = False\<rparr>" "''10.0.0.7''"
      "Some False" False "\<lambda>_. - 1" 0 42 "''app''" "''act''"]
  by (simp add: bind_host_def GetIPAddress_def GetConfiguredIface_def GetFirstGlobalIface_def has_security_def scope_of_def)

text \<open>a query reports the opposite of what happened: \<^verbatim>\<open>SendQuery\<close> passes the return code of
  the send to the constructor of \<^verbatim>\<open>PortError\<close> as its success flag, so a query that was sent
  (and gets a fresh request id) reports an error and a failed one success.\<close>

theorem query_result_inverted:
  "SendQuery 0 msgId f ts rid p =
     (PortError False 0, msgId, on_socket (\<lambda>s. s\<lparr>so_sent := so_sent s @
        [[msgId, f, case ts of Some t \<Rightarrow> int64_frame t | None \<Rightarrow> []]]\<rparr>) p)
   \<and> SendQuery (- 1) msgId f ts rid p = (PortError True 0, rid, p)"
  by (simp add: SendQuery_def Let_def)

text \<open>C20: what a timed port sends, a timed port receives.  The body comes out of \<^verbatim>\<open>Recv\<close> unchanged and both
  calls report success; the time of the receiver is its clock, and the time of the sender is
  read back to within 64 seconds and 282 nanoseconds for the clocks of the years 2004 to 2038.\<close>

theorem timed_send_recv:
  assumes "pc_is_timed (pt_config p)" "pt_socket p = Some so"
    and "pc_is_timed (pt_config q)"
    and "ts_normal stamp" "2 ^ 30 \<le> tv_sec stamp" "tv_sec stamp < 2 ^ 31"
    and "(e, p') = SenderPort_Send stamp 0 errno [body] p"
    and "(r, e', q') = RecvPort_Recv errno' now (Some (last (so_sent (the (pt_socket p'))))) q"
  shows "pe_success e \<and> r = Some body \<and> pe_success e' \<and> pt_recv_timestamp q' = now
    \<and> \<bar>ts_ns (pt_sent_timestamp q') - ts_ns stamp\<bar> \<le> 64 * BILLION + 282"
proof -
  have "pe_success e \<and> r = Some body \<and> pe_success e' \<and> pt_recv_timestamp q' = now
      \<and> pt_sent_timestamp q' = frame_timespec (stamp_frame stamp)"
    using assms(1-3,7,8) by (simp add: SenderPort_Send_def RecvPort_Recv_def RecvPort_Recv_msg_def PortError_def Let_def)
  with stamp_roundtrip_error [OF assms(4-6)] show ?thesis by simp
qed

text \<open>the send times are coarse.  The seconds are converted to a \<^verbatim>\<open>float\<close>, whose values are 128
  seconds apart at the present time: all the messages sent by a timed port in the first 64 seconds after a multiple
  of 128 (up to the last microsecond of a second) arrive with the same second in their time stamp.\<close>

theorem send_times_coarse:
  assumes "pc_is_timed (pt_config p)" "pt_socket p = Some so" "pc_is_timed (pt_config q)"
    and "stamp = \<lparr>tv_sec = 128 * k + d, tv_nsec = ns\<rparr>"
    and "2 ^ 23 \<le> k" "k < 2 ^ 24" "0 \<le> d" "d < 64" "0 \<le> ns" "ns \<le> 999999000"
    and "(e, p') = SenderPort_Send stamp 0 errno [body] p"
    and "(r, e', q') = RecvPort_Recv errno' now (Some (last (so_sent (the (pt_socket p'))))) q"
  shows "tv_sec (pt_sent_timestamp q') = 128 * k"
  using assms(1-3,11,12) stamp_seconds_coarse [OF assms(5-10)]
  by (simp add: assms(4) SenderPort_Send_def RecvPort_Recv_def RecvPort_Recv_msg_def Let_def)

text \<open>Witnesses: a message sent on 1 May 2018.\<close>

definition ex_timed :: port where
  "ex_timed = RequestPort_new \<lparr>pc_port_name = ''p'', pc_message_type = ''T'', pc_is_local = True, pc_is_timed = True\<rparr>
     None False 0"

definition ex_delivered :: "timespec \<Rightarrow> port" where
  "ex_delivered stamp = snd (snd (RecvPort_Recv 0 \<lparr>tv_sec = 9, tv_nsec = 1\<rparr>
     (Some (last (so_sent (the (pt_socket (snd (SenderPort_Send stamp 0 0 [''hello''] ex_timed))))))) ex_timed))"

lemma ex_timed_facts: "pc_is_timed (pt_config ex_timed)" "pt_socket ex_timed = Some (zsock_new ZMQ_REQ)"
  by (simp_all add: ex_timed_def RequestPort_new_def PortBase_new_def)

lemma triple_collapse: "(fst t, fst (snd t), snd (snd t)) = t"
  by simp

theorem timed_send_recv_witness:
  "\<bar>ts_ns (pt_sent_timestamp (ex_delivered \<lparr>tv_sec = 1525132800, tv_nsec = 5\<rparr>)) - ts_ns \<lparr>tv_sec = 1525132800, tv_nsec = 5\<rparr>\<bar>
    \<le> 64 * BILLION + 282"
proof -
  have "ts_normal \<lparr>tv_sec = 1525132800, tv_nsec = 5\<rparr>" by (simp add: ts_normal_def)
  then show ?thesis unfolding ex_delivered_def
    by (intro timed_send_recv [OF ex_timed_facts ex_timed_facts(1) _ _ _ prod.collapse triple_collapse,
          THEN conjunct2, THEN conjunct2, THEN conjunct2, THEN conjunct2]) simp_all
qed

theorem send_times_coarse_witness:
  "tv_sec (pt_sent_timestamp (ex_delivered \<lparr>tv_sec = 1525132800, tv_nsec = 5\<rparr>)) =
   tv_sec (pt_sent_timestamp (ex_delivered \<lparr>tv_sec = 1525132863, tv_nsec = 7\<rparr>))"
proof -
  have "tv_sec (pt_sent_timestamp (ex_delivered \<lparr>tv_sec = 128 * 11915100 + d, tv_nsec = ns\<rparr>)) = 128 * 11915100"
    if "0 \<le> d" "d < 64" "0 \<le> ns" "ns \<le> 999999000" for d ns
    unfolding ex_delivered_def
    by (rule send_times_coarse [OF ex_timed_facts ex_timed_facts(1) refl _ _ that prod.collapse triple_collapse]) simp_all
  from this [of 0 5] this [of 63 7] show ?thesis by simp
qed

end
