(* ===== verification/Group_Ops.thy ===== *)
theory Group_Ops
  imports Group_Lead Ports
begin

text \<open>
  A group as one of its members sees it: \<^verbatim>\<open>src/groups/r_group.cc\<close>.  The record \<open>group\<close> has the
  data members of the class; \<open>g_calls\<close> is the sequence of callbacks made to the component.  The ports
  are kept in a map ordered by the address of their socket, as in the code; the addresses come
  from the allocator, an argument.  Serialisation is the argument \<open>io_enc\<close>/\<open>io_dec\<close>.  The
  messages a \<open>GroupLead\<close> hands out are sent on the internal port in order (\<open>leader_do\<close>).
  Dereferencing a null pointer is the error \<open>Null_pointer\<close>.
\<close>

section \<open>State\<close>

record group_type_conf =
  gt_type_id :: string
  gt_pubs :: "port_config list"
  gt_subs :: "port_config list"
  gt_has_leader :: bool
  gt_has_consensus :: bool

datatype group_call =
    OnGroupMessage GroupId frame
  | OnMessageToLeader GroupId frame
  | OnPropose GroupId string frame
  | OnActionPropose GroupId string string timespec
  | OnAnnounce GroupId string bool

type_synonym address = nat

record group =
  g_group_id :: GroupId
  g_component_id :: string
  g_conf :: group_type_conf
  g_pubport :: "address option"
  g_subport :: "address option"
  g_ports :: "(address, port) omap"
  g_poller :: "address list"
  g_known_nodes :: members
  g_ping_timeout :: timeout
  g_leader :: "group_lead option"
  g_calls :: "group_call list"

datatype group_error = Null_pointer | Union_misread

abbreviation PING_BASE_PERIOD :: int where "PING_BASE_PERIOD \<equiv> 10 * 1000"

abbreviation INTERNAL_SUB_NAME :: string where "INTERNAL_SUB_NAME \<equiv> ''$SUB#''"
abbreviation INTERNAL_PUB_NAME :: string where "INTERNAL_PUB_NAME \<equiv> ''$PUB#''"
abbreviation INTERNAL_MESSAGETYPE :: string where "INTERNAL_MESSAGETYPE \<equiv> ''InternalGroupMessage''"

text \<open>\<open>conf0\<close> is the uninitialised group type configuration.\<close>

definition Group_new :: "int \<Rightarrow> group_type_conf \<Rightarrow> GroupId \<Rightarrow> string \<Rightarrow> group" where
  "Group_new now conf0 gid component =
     \<lparr>g_group_id = gid, g_component_id = component, g_conf = conf0, g_pubport = None, g_subport = None,
      g_ports = [], g_poller = [], g_known_nodes = [],
      g_ping_timeout = Timeout_int milliseconds now PING_BASE_PERIOD, g_leader = None, g_calls = []\<rparr>"

definition leader_id :: "group \<Rightarrow> string" where
  "leader_id g =
     (case g_leader g of Some l \<Rightarrow> if gt_has_leader (g_conf g) then m_leaderId l else [] | None \<Rightarrow> [])"

section \<open>Initialisation\<close>

text \<open>What the initialisation asks of its surroundings.\<close>

record init_env =
  ie_host :: host_env
  ie_bind :: "nat \<Rightarrow> string \<Rightarrow> int"
  ie_security :: "bool option"
  ie_curve_key :: bool
  ie_junk :: int
  ie_addr :: "nat \<Rightarrow> address"
  ie_disco :: "DiscoReq \<Rightarrow> DiscoRep"
  ie_pid :: int
  ie_app :: string

definition internal_config :: "string \<Rightarrow> port_config" where
  "internal_config name = \<lparr>pc_port_name = name, pc_message_type = INTERNAL_MESSAGETYPE,
     pc_is_local = False, pc_is_timed = False\<rparr>"

text \<open>The publishers, created in order; \<open>k\<close> counts the sockets created so far.\<close>

fun init_pubs ::
  "init_env \<Rightarrow> nat \<Rightarrow> port_config list \<Rightarrow> (address, port) omap
   \<Rightarrow> net_error + (nat \<times> (address, port) omap \<times> GroupService list)" where
  "init_pubs env k [] m = Inr (k, m, [])"
| "init_pubs env k (cfg # cfgs) m =
     (case GroupPublisherPort_new (ie_host env) (ie_bind env k) (ie_security env) (ie_curve_key env) (ie_junk env) cfg of
        Inl e \<Rightarrow> Inl e
      | Inr p \<Rightarrow> (case init_pubs env (Suc k) cfgs (om_put (ie_addr env k) p m) of
                   Inl e \<Rightarrow> Inl e
                 | Inr (k', m', ss) \<Rightarrow> Inr (k', m', GetGroupService p # ss)))"

fun init_subs ::
  "init_env \<Rightarrow> nat \<Rightarrow> port_config list \<Rightarrow> (address, port) omap \<Rightarrow> (address, port) omap \<times> address list" where
  "init_subs env k [] m = (m, [])"
| "init_subs env k (cfg # cfgs) m =
     (let p = SubscriberPortBase_new CGroupSubscriberPort cfg (ie_security env) (ie_curve_key env) (ie_junk env);
          (m', poll) = init_subs env (Suc k) cfgs (om_put (ie_addr env k) p m)
      in (m', ie_addr env k # poll))"

definition InitGroup ::
  "init_env \<Rightarrow> clock \<Rightarrow> int \<Rightarrow> u32 \<Rightarrow> group_type_conf option \<Rightarrow> group \<Rightarrow> net_error + (bool \<times> group)" where
  "InitGroup env clk rnd junk groupTypeConf g =
     (case groupTypeConf of
        None \<Rightarrow> Inr (False, g)
      | Some conf \<Rightarrow>
          (case init_pubs env 0 [internal_config INTERNAL_PUB_NAME] [] of
             Inl e \<Rightarrow> Inl e
           | Inr (k1, m1, s1) \<Rightarrow>
               (let (m2, poll1) = init_subs env k1 [internal_config INTERNAL_SUB_NAME] m1
                in case init_pubs env (Suc k1) (gt_pubs conf) m2 of
                     Inl e \<Rightarrow> Inl e
                   | Inr (k3, m3, s3) \<Rightarrow>
                       (let (m4, poll2) = init_subs env k3 (gt_subs conf) m3;
                            hasJoined = JoinGroup_disco (ie_disco env) (ie_pid env) (ie_app env)
                                          (g_component_id g) (g_group_id g) (s1 @ s3);
                            leader = (if hasJoined \<and> gt_has_leader conf
                                      then Some (SetOnLeaderChanged (GroupLead_new clk rnd junk (g_component_id g)))
                                      else g_leader g)
                        in Inr (hasJoined,
                             g\<lparr>g_conf := conf, g_pubport := Some (ie_addr env 0), g_subport := Some (ie_addr env k1),
                               g_ports := m4, g_poller := poll1 @ poll2, g_leader := leader\<rparr>)))))"

section \<open>Sending\<close>

record io =
  io_enc :: "GroupInternals \<Rightarrow> frame"
  io_dec :: "frame \<Rightarrow> GroupInternals"
  io_stamp :: timespec
  io_rc :: "zmsg \<Rightarrow> int"
  io_errno :: int

definition send_on :: "io \<Rightarrow> zmsg \<Rightarrow> address \<Rightarrow> group \<Rightarrow> bool \<times> group" where
  "send_on io msg a g =
     (case map_of (g_ports g) a of
        None \<Rightarrow> (False, g)
      | Some p \<Rightarrow> (let (e, p') = SenderPort_Send (io_stamp io) (io_rc io msg) (io_errno io) msg p
                  in (pe_bool e, g\<lparr>g_ports := om_put a p' (g_ports g)\<rparr>)))"

text \<open>The first publisher of that name, in the order of the map.\<close>

definition publisher_named :: "string \<Rightarrow> group \<Rightarrow> address option" where
  "publisher_named name g =
     map_option fst (find (\<lambda>(a, p). GetPortAs CGroupPublisherPort (pt_class p) \<and>
        pc_port_name (pt_config p) = name) (g_ports g))"

definition SendMessage_zmsg :: "io \<Rightarrow> zmsg \<Rightarrow> string \<Rightarrow> group \<Rightarrow> bool \<times> group" where
  "SendMessage_zmsg io msg name g =
     (case publisher_named name g of None \<Rightarrow> (False, g) | Some a \<Rightarrow> send_on io msg a g)"

definition Group_SendMessage :: "io \<Rightarrow> frame \<Rightarrow> string \<Rightarrow> group \<Rightarrow> bool \<times> group" where
  "Group_SendMessage io content name g =
     (if name \<noteq> [] then SendMessage_zmsg io [content] name g
      else SendMessage_zmsg io [io_enc io (IntGroupMessage (g_component_id g)), content] INTERNAL_PUB_NAME g)"

definition SendInternalMessage :: "io \<Rightarrow> GroupInternals \<Rightarrow> group \<Rightarrow> bool \<times> group" where
  "SendInternalMessage io m g = Group_SendMessage io (io_enc io m) INTERNAL_PUB_NAME g"

definition SendMessageToLeader :: "io \<Rightarrow> frame \<Rightarrow> group \<Rightarrow> bool \<times> group" where
  "SendMessageToLeader io content g =
     (if leader_id g = [] then (False, g)
      else SendMessage_zmsg io [io_enc io (IntMessageToLeader (g_component_id g)), content] INTERNAL_PUB_NAME g)"

definition ProposeValueToLeader :: "io \<Rightarrow> frame \<Rightarrow> string \<Rightarrow> group \<Rightarrow> bool \<times> group" where
  "ProposeValueToLeader io content proposeId g =
     (if leader_id g = [] then (False, g)
      else SendMessage_zmsg io
        [io_enc io (IntConsensus \<lparr>cs_sourceComponentId = g_component_id g, cs_voteType = VALUE,
           cs_body = ProposeToLeader proposeId, cs_tsyncCoordA = default_TimeSyncCoordA\<rparr>), content]
        INTERNAL_PUB_NAME g)"

text \<open>The fields of the time are 32 bits wide in the message.\<close>

definition ProposeActionToLeader :: "io \<Rightarrow> string \<Rightarrow> string \<Rightarrow> timespec \<Rightarrow> group \<Rightarrow> bool \<times> group" where
  "ProposeActionToLeader io proposeId actionId absTime g =
     (if leader_id g = [] then (False, g)
      else SendMessage_zmsg io
        [io_enc io (IntConsensus \<lparr>cs_sourceComponentId = g_component_id g, cs_voteType = ACTION,
           cs_body = ProposeToLeader proposeId,
           cs_tsyncCoordA = \<lparr>ts_actionId = actionId, ts_tvSec = trunc32 (tv_sec absTime),
             ts_tvNsec = trunc32 (tv_nsec absTime)\<rparr>\<rparr>)]
        INTERNAL_PUB_NAME g)"

definition SendLeaderMessage :: "io \<Rightarrow> frame \<Rightarrow> group \<Rightarrow> bool \<times> group" where
  "SendLeaderMessage io content g =
     (if leader_id g \<noteq> g_component_id g then (False, g)
      else SendMessage_zmsg io [io_enc io (IntGroupMessage (g_component_id g)), content] INTERNAL_PUB_NAME g)"

definition Group_SendVote :: "io \<Rightarrow> string \<Rightarrow> bool \<Rightarrow> group \<Rightarrow> bool \<times> group" where
  "Group_SendVote io propose_id accept g =
     SendInternalMessage io (IntConsensus \<lparr>cs_sourceComponentId = g_component_id g, cs_voteType = VALUE,
        cs_body = Vote propose_id (if accept then ACCEPTED else REJECTED),
        cs_tsyncCoordA = default_TimeSyncCoordA\<rparr>) g"

section \<open>Heartbeats and new services\<close>

definition SendHeartBeat :: "io \<Rightarrow> HeartBeatType \<Rightarrow> group \<Rightarrow> bool \<times> group" where
  "SendHeartBeat io ty g =
     (case g_pubport g of
        None \<Rightarrow> (False, g)
      | Some a \<Rightarrow> send_on io [io_enc io (GroupHeartBeat ty (g_component_id g))] a g)"

definition SendPing :: "io \<Rightarrow> int \<Rightarrow> group \<Rightarrow> bool \<times> group" where
  "SendPing io now g = SendHeartBeat io PING (g\<lparr>g_ping_timeout := Timeout_Reset now (g_ping_timeout g)\<rparr>)"

definition SendPong :: "io \<Rightarrow> group \<Rightarrow> bool \<times> group" where
  "SendPong io g = SendHeartBeat io PONG g"

text \<open>Some member, scanned in order, is overdue while a ping is due; two readings per member.\<close>

fun suspicious :: "clock \<Rightarrow> nat \<Rightarrow> timeout \<Rightarrow> members \<Rightarrow> bool" where
  "suspicious clk k ping [] = False"
| "suspicious clk k ping ((n, t) # ms) =
     (IsTimeout (clk k) t \<and> IsTimeout (clk (Suc k)) ping \<or> suspicious clk (k + 2) ping ms)"

definition SendPingWithPeriod :: "io \<Rightarrow> clock \<Rightarrow> int \<Rightarrow> group \<Rightarrow> bool \<times> group" where
  "SendPingWithPeriod io clk now g =
     (if g_known_nodes g = [] \<and> IsTimeout (clk 0) (g_ping_timeout g) \<or>
         g_known_nodes g \<noteq> [] \<and> suspicious clk 0 (g_ping_timeout g) (g_known_nodes g)
      then SendPing io now (g\<lparr>g_ping_timeout := Timeout_Reset now (g_ping_timeout g)\<rparr>)
      else (False, g))"

definition connect_service :: "(string \<Rightarrow> int) \<Rightarrow> GroupService \<Rightarrow> port \<Rightarrow> port" where
  "connect_service connect svc p =
     (if GetPortAs CGroupSubscriberPort (pt_class p) \<and> pc_message_type (pt_config p) = gs_message_type svc
      then snd (ConnectToPublihser connect (''tcp://'' @ gs_address svc) p) else p)"

definition ConnectToNewServices :: "(string \<Rightarrow> int) \<Rightarrow> GroupUpdate \<Rightarrow> group \<Rightarrow> group" where
  "ConnectToNewServices connect upd g =
     fold (\<lambda>svc g. g\<lparr>g_ports := map (\<lambda>(a, p). (a, connect_service connect svc p)) (g_ports g)\<rparr>)
       (gu_services upd) g"

section \<open>Receiving\<close>

definition call_component :: "group_call \<Rightarrow> group \<Rightarrow> group" where
  "call_component c g = g\<lparr>g_calls := g_calls g @ [c]\<rparr>"

text \<open>A step of the leader logic; what it sends goes out on the internal port.\<close>

definition lead_zmsg :: "io \<Rightarrow> group_msg \<Rightarrow> zmsg" where
  "lead_zmsg io m = io_enc io (fst m) # (case snd m of Some f \<Rightarrow> [f] | None \<Rightarrow> [])"

definition leader_do :: "io \<Rightarrow> lead_event \<Rightarrow> group \<Rightarrow> group_error + group" where
  "leader_do io e g =
     (case g_leader g of
        None \<Rightarrow> Inl Null_pointer
      | Some l \<Rightarrow>
          (let (kn', l') = lead_step e (g_known_nodes g, l)
           in Inr (fold (\<lambda>m g. snd (SendMessage_zmsg io (lead_zmsg io m) INTERNAL_PUB_NAME g))
                (drop (length (gl_sent l)) (gl_sent l')) (g\<lparr>g_known_nodes := kn', g_leader := Some l'\<rparr>))))"

definition on_heartbeat :: "io \<Rightarrow> int \<Rightarrow> int \<Rightarrow> HeartBeatType \<Rightarrow> string \<Rightarrow> group \<Rightarrow> group" where
  "on_heartbeat io now rnd ty src g =
     (let g = g\<lparr>g_known_nodes := heard_from now rnd src (g_known_nodes g)\<rparr>
      in if ty = PING then snd (SendPong io g) else g)"

definition on_consensus_leader ::
  "io \<Rightarrow> clock \<Rightarrow> bool \<Rightarrow> Consensus \<Rightarrow> zmsg \<Rightarrow> group \<Rightarrow> group_error + group" where
  "on_consensus_leader io clk junk c rest g =
     (case cs_body c of
        ProposeToLeader p \<Rightarrow>
          if cs_voteType c = VALUE
          then leader_do io (EvPropose clk junk p (case rest of f # _ \<Rightarrow> Some f | [] \<Rightarrow> None)) g
          else leader_do io (EvActionPropose clk p (cs_tsyncCoordA c)) g
      | Vote p r \<Rightarrow> leader_do io (EvVote clk p r (cs_sourceComponentId c)) g
      | _ \<Rightarrow> Inr g)"

definition on_consensus_member :: "Consensus \<Rightarrow> zmsg \<Rightarrow> group \<Rightarrow> group_error + group" where
  "on_consensus_member c rest g =
     (case cs_body c of
        ProposeToClients p _ \<Rightarrow>
          if cs_voteType c = VALUE
          then (case rest of [] \<Rightarrow> Inl Null_pointer
                | f # _ \<Rightarrow> Inr (call_component (OnPropose (g_group_id g) p f) g))
          else Inr (call_component (OnActionPropose (g_group_id g) p (ts_actionId (cs_tsyncCoordA c))
                 \<lparr>tv_sec = ts_tvSec (cs_tsyncCoordA c), tv_nsec = ts_tvNsec (cs_tsyncCoordA c)\<rparr>) g)
      | Announce p r \<Rightarrow> Inr (call_component (OnAnnounce (g_group_id g) p (r = ACCEPTED)) g)
      | _ \<Rightarrow> Inr g)"

definition on_internal ::
  "io \<Rightarrow> clock \<Rightarrow> int \<Rightarrow> bool \<Rightarrow> GroupInternals \<Rightarrow> zmsg \<Rightarrow> group \<Rightarrow> group_error + group" where
  "on_internal io clk rnd junk m rest g =
     (case m of
        IntGroupMessage _ \<Rightarrow>
          (case rest of f # _ \<Rightarrow> Inr (call_component (OnGroupMessage (g_group_id g) f) g) | [] \<Rightarrow> Inr g)
      | GroupHeartBeat ty src \<Rightarrow> Inr (on_heartbeat io (clk 0) rnd ty src g)
      | IntLeaderElection e \<Rightarrow> leader_do io (EvElection clk rnd e) g
      | IntMessageToLeader _ \<Rightarrow>
          if leader_id g \<noteq> g_component_id g then Inr g
          else (case rest of f # _ \<Rightarrow> Inr (call_component (OnMessageToLeader (g_group_id g) f) g) | [] \<Rightarrow> Inr g)
      | IntConsensus c \<Rightarrow>
          if leader_id g = g_component_id g then on_consensus_leader io clk junk c rest g
          else on_consensus_member c rest g
      | IntLeaderMessage _ \<Rightarrow> Inr g)"

text \<open>\<open>which\<close> is the socket that became readable, \<open>received\<close> the message on it.\<close>

definition FetchNextMessage ::
  "io \<Rightarrow> clock \<Rightarrow> int \<Rightarrow> bool \<Rightarrow> address option \<Rightarrow> zmsg option \<Rightarrow> group \<Rightarrow> group_error + group" where
  "FetchNextMessage io clk rnd junk which received g =
     (case which of
        None \<Rightarrow> if gt_has_leader (g_conf g) then leader_do io (EvTick clk) g else Inr g
      | Some a \<Rightarrow>
          (case map_of (g_ports g) a of
             None \<Rightarrow> Inr g
           | Some p \<Rightarrow>
               if \<not> GetPortAs CGroupSubscriberPort (pt_class p) then Inr g
               else (case received of
                       None \<Rightarrow> Inr g
                     | Some [] \<Rightarrow> Inl Null_pointer
                     | Some (first # rest) \<Rightarrow>
                         if g_subport g = Some a then on_internal io clk rnd junk (io_dec io first) rest g
                         else Inr g)))"

section \<open>Well-formed groups\<close>

definition port_sigs :: "(address, port) omap \<Rightarrow> (address \<times> port_class \<times> port_config) list" where
  "port_sigs m = map (\<lambda>(a, p). (a, pt_class p, pt_config p)) m"

definition port_is :: "(port_class \<Rightarrow> port_config \<Rightarrow> bool) \<Rightarrow> address \<Rightarrow> (address, port) omap \<Rightarrow> bool" where
  "port_is P a m = (case map_of m a of None \<Rightarrow> False | Some p \<Rightarrow> P (pt_class p) (pt_config p))"

definition internal_ports :: "address option \<Rightarrow> address option \<Rightarrow> (address, port) omap \<Rightarrow> bool" where
  "internal_ports pub sub m \<longleftrightarrow>
     (\<exists>a. pub = Some a \<and> port_is (\<lambda>c k. c = CGroupPublisherPort \<and> k = internal_config INTERNAL_PUB_NAME) a m) \<and>
     (\<exists>a. sub = Some a \<and> port_is (\<lambda>c k. c = CGroupSubscriberPort \<and> k = internal_config INTERNAL_SUB_NAME) a m)"

definition leader_ok :: "bool \<Rightarrow> string \<Rightarrow> members \<Rightarrow> group_lead option \<Rightarrow> bool" where
  "leader_ok has_leader component kn leader = (case leader of
      None \<Rightarrow> \<not> has_leader
    | Some l \<Rightarrow> has_leader \<and> gl_componentId l = component \<and> lead_inv (kn, l))"

definition group_ok :: "group \<Rightarrow> bool" where
  "group_ok g \<longleftrightarrow> om_inv (g_ports g) \<and> um_inv (g_known_nodes g) \<and>
     internal_ports (g_pubport g) (g_subport g) (g_ports g) \<and>
     leader_ok (gt_has_leader (g_conf g)) (g_component_id g) (g_known_nodes g) (g_leader g)"

lemma port_sigs_put:
  assumes "om_inv m" "map_of m a = Some p" "pt_class p' = pt_class p" "pt_config p' = pt_config p"
  shows "port_sigs (om_put a p' m) = port_sigs m"
  using assms
proof (induction a p' m rule: om_put.induct)
  case (2 k v a b m)
  have "om_inv m" using 2(2) by (simp add: om_inv_def)
  moreover have "\<not> k < a" using 2(2,3) by (fastforce simp: om_inv_def split: if_splits dest!: map_of_SomeD)
  ultimately show ?case using 2 by (auto simp: port_sigs_def)
qed simp

lemma port_sigs_get:
  "port_sigs m' = port_sigs m \<Longrightarrow>
     map_option (\<lambda>p. (pt_class p, pt_config p)) (map_of m' a) = map_option (\<lambda>p. (pt_class p, pt_config p)) (map_of m a)"
proof -
  have "map_option (\<lambda>p. (pt_class p, pt_config p)) (map_of m a) = map_of (port_sigs m) a" for m :: "(address, port) omap"
    unfolding port_sigs_def by (induction m) auto
  then show "port_sigs m' = port_sigs m \<Longrightarrow> ?thesis" by simp
qed

lemma port_sigs_keys: "port_sigs m' = port_sigs m \<Longrightarrow> map fst m' = map fst m"
proof -
  have "map fst m = map fst (port_sigs m)" for m by (simp add: port_sigs_def case_prod_unfold)
  then show "port_sigs m' = port_sigs m \<Longrightarrow> ?thesis" by metis
qed

lemma port_is_sigs: "port_sigs m' = port_sigs m \<Longrightarrow> port_is P a m' = port_is P a m"
  using port_sigs_get [of m' m a] by (auto simp: port_is_def split: option.splits)

lemma Send_frame [simp]:
  "pt_class (snd (SenderPort_Send st rc en msg p)) = pt_class p"
  "pt_config (snd (SenderPort_Send st rc en msg p)) = pt_config p"
  by (simp_all add: SenderPort_Send_def Let_def)

text \<open>Sending changes nothing but the ports, and of these nothing but what was sent.\<close>

definition ports_only :: "group \<Rightarrow> group \<Rightarrow> bool" where
  "ports_only g g' \<longleftrightarrow> (\<exists>m. g' = g\<lparr>g_ports := m\<rparr> \<and> port_sigs m = port_sigs (g_ports g))"

lemma ports_only_refl [simp]: "ports_only g g"
  unfolding ports_only_def by (rule exI [of _ "g_ports g"]) simp

lemma ports_only_trans: "ports_only g g1 \<Longrightarrow> ports_only g1 g2 \<Longrightarrow> ports_only g g2"
  by (auto simp: ports_only_def)

lemma ports_only_inv: "ports_only g g' \<Longrightarrow> om_inv (g_ports g') = om_inv (g_ports g)"
  by (auto simp: ports_only_def om_inv_def dest: port_sigs_keys)

lemma send_on_frame: "om_inv (g_ports g) \<Longrightarrow> ports_only g (snd (send_on io msg a g))"
  by (auto simp: send_on_def split_beta ports_only_def intro!: port_sigs_put split: option.split
      intro: exI [of _ "g_ports g"])

lemma SendMessage_frame: "om_inv (g_ports g) \<Longrightarrow> ports_only g (snd (SendMessage_zmsg io msg name g))"
  by (simp add: SendMessage_zmsg_def send_on_frame split: option.split)

lemma SendMessage_leader [simp]: "g_leader (snd (SendMessage_zmsg io msg name g)) = g_leader g"
  by (simp add: SendMessage_zmsg_def send_on_def split_beta split: option.split)

lemma send_all_frame:
  "om_inv (g_ports g) \<Longrightarrow> ports_only g (fold (\<lambda>m g. snd (SendMessage_zmsg io (f m) name g)) ms g)"
proof (induction ms arbitrary: g)
  case (Cons m ms)
  note one = SendMessage_frame [OF Cons.prems, of io "f m" name]
  then show ?case
    using Cons.IH [of "snd (SendMessage_zmsg io (f m) name g)"] Cons.prems ports_only_inv [OF one]
    by (simp add: ports_only_trans)
qed simp

lemma group_ok_ports_only: "group_ok g \<Longrightarrow> ports_only g g' \<Longrightarrow> group_ok g'"
proof -
  assume ok: "group_ok g" and po: "ports_only g g'"
  then obtain m where m: "g' = g\<lparr>g_ports := m\<rparr>" "port_sigs m = port_sigs (g_ports g)"
    by (auto simp: ports_only_def)
  have "internal_ports pub sub m = internal_ports pub sub (g_ports g)" for pub sub
    by (simp add: internal_ports_def port_is_sigs [OF m(2)])
  then show ?thesis using ok ports_only_inv [OF po] by (simp add: group_ok_def m(1))
qed

lemma lead_step_component: "gl_componentId (snd (lead_step e (kn, s))) = gl_componentId s"
proof (cases e)
  case (EvTick clk)
  then show ?thesis
    by (simp add: Lead_Update_def start_election_def Let_def split_beta SendRequestForVote_def SendAppendEntry_def
        reject_expired_eq)
next
  case (EvElection clk rnd m)
  then show ?thesis
    by (simp add: Lead_Update_msg_def lead_op_defs Let_def SendVote_def SendAppendEntry_def
        split: option.split NodeState.split)
next
  case (EvVote clk p r src)
  then show ?thesis
    by (simp add: OnVote_def Let_def Lead_Announce_def erase_proposal_def erase_action_def split: option.split)
qed (simp_all add: OnActionProposeFromClient_def OnProposeFromClient_def Let_def)

lemma leader_do_ok:
  assumes "group_ok g" "leader_do io e g = Inr g'"
  shows "group_ok g'"
proof -
  obtain l where l: "g_leader g = Some l" using assms(2) by (auto simp: leader_do_def split: option.splits)
  obtain kn' l' where st: "lead_step e (g_known_nodes g, l) = (kn', l')" by (cases "lead_step e (g_known_nodes g, l)")
  define g1 where "g1 = g\<lparr>g_known_nodes := kn', g_leader := Some l'\<rparr>"
  have inv: "lead_inv (kn', l')"
    using lead_inv_step [of "(g_known_nodes g, l)" e] assms(1) l st by (simp add: group_ok_def leader_ok_def)
  moreover have "gl_componentId l' = gl_componentId l" using lead_step_component [of e "g_known_nodes g" l] st by simp
  ultimately have "group_ok g1"
    using assms(1) l by (simp add: group_ok_def g1_def leader_ok_def) (simp add: lead_inv_def)
  moreover have "ports_only g1 g'"
    using assms(2) l st send_all_frame [of g1] assms(1) by (auto simp: leader_do_def g1_def group_ok_def)
  ultimately show ?thesis by (rule group_ok_ports_only)
qed

lemma leader_ok_table: "leader_ok b c kn l \<Longrightarrow> um_inv kn' \<Longrightarrow> leader_ok b c kn' l"
  by (auto simp: leader_ok_def lead_inv_def split: option.splits)

lemma on_heartbeat_ok:
  assumes "group_ok g"
  shows "group_ok (on_heartbeat io now rnd ty src g)"
proof -
  define g1 where "g1 = g\<lparr>g_known_nodes := heard_from now rnd src (g_known_nodes g)\<rparr>"
  have "group_ok g1"
    using assms leader_ok_table [of _ _ "g_known_nodes g"] heard_from_inv [of "g_known_nodes g"] by (auto simp: group_ok_def g1_def)
  moreover have "ports_only g1 (snd (SendPong io g1))"
    using calculation send_on_frame [of g1]
    by (simp add: SendPong_def SendHeartBeat_def group_ok_def split: option.split)
  ultimately show ?thesis
    using group_ok_ports_only by (auto simp: on_heartbeat_def Let_def simp flip: g1_def)
qed

lemma call_component_ok: "group_ok g \<Longrightarrow> group_ok (call_component c g)"
  by (simp add: group_ok_def call_component_def)

lemma fetch_ok:
  assumes "group_ok g" "FetchNextMessage io clk rnd junk which received g = Inr g'"
  shows "group_ok g'"
  using assms leader_do_ok [OF assms(1)] on_heartbeat_ok [OF assms(1)] call_component_ok [OF assms(1)]
  by (auto simp: FetchNextMessage_def on_internal_def on_consensus_leader_def on_consensus_member_def
      split: option.splits list.splits if_splits GroupInternals.splits ConsensusBody.splits)

text \<open>the invariant of a group.  Whatever message arrives and whatever it holds, a step of
  the receive loop that completes keeps the group well formed: the ports are ordered by address, the two
  internal ports are in place, a leader object exists exactly when the group type has a
  leader, it belongs to this component and satisfies the invariant of the election.\<close>

theorem fetch_keeps_group_ok:
  assumes "group_ok g" "FetchNextMessage io clk rnd junk which received g = Inr g'"
  shows "group_ok g'"
  using assms by (rule fetch_ok)

text \<open>The other operations of the loop keep it too.\<close>

lemma group_ok_ping: "group_ok (g\<lparr>g_ping_timeout := t\<rparr>) = group_ok g"
  by (simp add: group_ok_def)

lemma heartbeat_ok: "group_ok g \<Longrightarrow> group_ok (snd (SendHeartBeat io ty g))"
  using group_ok_ports_only [of g "snd (send_on io msg a g)" for msg a] send_on_frame [of g io]
  by (auto simp: SendHeartBeat_def split: option.split) (auto simp: group_ok_def)

lemma ping_ok: "group_ok g \<Longrightarrow> group_ok (snd (SendPingWithPeriod io clk now g))"
  by (simp add: SendPingWithPeriod_def SendPing_def heartbeat_ok group_ok_ping)

lemma connect_service_frame [simp]:
  "pt_class (connect_service cn svc p) = pt_class p" "pt_config (connect_service cn svc p) = pt_config p"
  by (simp_all add: connect_service_def ConnectToPublihser_def connect_socket_def apply_client_cert_def Let_def)

lemma connect_all_ok: "group_ok g \<Longrightarrow> group_ok (ConnectToNewServices cn upd g)"
proof -
  have one: "ports_only g (g\<lparr>g_ports := map (\<lambda>(a, p). (a, connect_service cn svc p)) (g_ports g)\<rparr>)" for g svc
    unfolding ports_only_def
    by (rule exI [of _ "map (\<lambda>(a, p). (a, connect_service cn svc p)) (g_ports g)"]) (simp add: port_sigs_def split_beta)
  have "ports_only g (fold (\<lambda>svc g. g\<lparr>g_ports := map (\<lambda>(a, p). (a, connect_service cn svc p)) (g_ports g)\<rparr>) svcs g)" for g svcs
  proof (induction svcs arbitrary: g)
    case (Cons svc svcs)
    then show ?case using ports_only_trans [OF one [of g svc]] by simp
  qed simp
  then show "group_ok g \<Longrightarrow> ?thesis" 
    unfolding ConnectToNewServices_def using group_ok_ports_only by blast
qed

section \<open>Properties\<close>

lemma send_result:
  assumes "publisher_named name g = Some a"
  shows "fst (SendMessage_zmsg io msg name g) \<longleftrightarrow> io_rc io msg \<noteq> 0"
proof -
  obtain p where "(a, p) \<in> set (g_ports g)"
    using assms by (force simp: publisher_named_def find_Some_iff in_set_conv_nth)
  then obtain q where "map_of (g_ports g) a = Some q" by (metis map_of_eq_None_iff image_eqI fst_conv not_Some_eq)
  then show ?thesis
    using assms by (simp add: SendMessage_zmsg_def send_on_def SenderPort_Send_def PortError_def pe_bool_def
        pe_error_def Let_def)
qed

text \<open>sending on a group port returns \<^verbatim>\<open>true\<close> exactly when it fails.  The result of the port is
  a \<^verbatim>\<open>PortError\<close>, whose conversion to \<^verbatim>\<open>bool\<close> is \<^verbatim>\<open>error()\<close>; the group returns it as its own
  success flag.\<close>

theorem group_send_result_inverted:
  assumes "publisher_named name g = Some a"
  shows "fst (SendMessage_zmsg io msg name g) \<longleftrightarrow> io_rc io msg \<noteq> 0"
  using assms by (rule send_result)

lemma heartbeat_deadline:
  assumes "um_inv (g_known_nodes g)" "map_of (g_known_nodes g) n = Some t"
  shows "\<exists>t'. map_of (g_known_nodes (on_heartbeat io now rnd ty src g)) n = Some t' \<and> m_endPoint t' = m_endPoint t
    \<and> um_inv (g_known_nodes (on_heartbeat io now rnd ty src g))"
proof -
  have pong: "g_known_nodes (snd (SendPong io h)) = g_known_nodes h" for h
    by (simp add: SendPong_def SendHeartBeat_def send_on_def split_beta split: option.split)
  show ?thesis using assms
    by (auto simp: on_heartbeat_def heard_from_def Let_def pong um_get_put um.inv_put timeout_defs split: option.splits)
qed

text \<open>heartbeats do not keep a member alive.  For a member already in the table the
  heartbeat handler calls \<^verbatim>\<open>Timeout::Reset(int64_t)\<close>, which does not restart the timeout: after
  any sequence of heartbeats, of this member or others, the member is left out of the known
  components once its first deadline has passed, so a leader asks none of its votes.\<close>

theorem heartbeats_do_not_refresh_members:
  assumes "um_inv (g_known_nodes g)" "map_of (g_known_nodes g) n = Some t" "m_endPoint t < now"
    and "g' = fold (\<lambda>(tm, rnd, ty, src). on_heartbeat io tm rnd ty src) hbs g"
  shows "n \<notin> set (GetKnownComponents (\<lambda>_. now) k (g_known_nodes g'))"
proof -
  have "\<exists>t'. map_of (g_known_nodes g') n = Some t' \<and> m_endPoint t' = m_endPoint t \<and> um_inv (g_known_nodes g')"
    using assms(1,2) unfolding assms(4)
  proof (induction hbs arbitrary: g t)
    case (Cons hb hbs)
    obtain tm rnd ty src where hb: "hb = (tm, rnd, ty, src)" by (cases hb)
    from heartbeat_deadline [OF Cons.prems, of io tm rnd ty src] Cons.IH show ?case
      by (fastforce simp: hb)
  qed simp
  then show ?thesis using assms(3)
    by (auto simp: GetKnownComponents_def purge_const IsTimeout_def um_inv_def dest: map_of_is_SomeI)
qed

text \<open>messages on the user-defined group ports are lost.  The receive loop reads a message
  of any subscriber port of the group, but handles only those of the internal one; the message
  of another subscriber is dropped without any call of the component.\<close>

theorem user_group_message_dropped:
  assumes "g_subport g \<noteq> Some a" "received \<noteq> Some []"
  shows "FetchNextMessage io clk rnd junk (Some a) received g = Inr g"
  using assms by (simp add: FetchNextMessage_def split: option.split list.split)


text \<open>The wire: what the internal publisher has sent.\<close>

definition ready :: "group \<Rightarrow> bool" where
  "ready g \<longleftrightarrow> om_inv (g_ports g) \<and> (\<exists>a p so. publisher_named INTERNAL_PUB_NAME g = Some a \<and>
     map_of (g_ports g) a = Some p \<and> pt_socket p = Some so \<and> \<not> pc_is_timed (pt_config p))"

definition on_wire :: "group \<Rightarrow> zmsg list" where
  "on_wire g = (case publisher_named INTERNAL_PUB_NAME g of None \<Rightarrow> []
     | Some a \<Rightarrow> (case map_of (g_ports g) a of None \<Rightarrow> []
         | Some p \<Rightarrow> (case pt_socket p of None \<Rightarrow> [] | Some so \<Rightarrow> so_sent so)))"

lemma publisher_named_sigs:
  "publisher_named name g = map_option fst (find (\<lambda>(a, c, k). GetPortAs CGroupPublisherPort c \<and> pc_port_name k = name)
     (port_sigs (g_ports g)))"
proof -
  have "map_option fst (find (\<lambda>(a, p). GetPortAs CGroupPublisherPort (pt_class p) \<and> pc_port_name (pt_config p) = name) m) =
     map_option fst (find (\<lambda>(a, c, k). GetPortAs CGroupPublisherPort c \<and> pc_port_name k = name) (port_sigs m))"
    for m :: "(address, port) omap"
    unfolding port_sigs_def by (induction m) auto
  then show ?thesis by (simp add: publisher_named_def)
qed

lemma send_on_wire:
  assumes "ready g" "io_rc io msg = 0"
  shows "on_wire (snd (SendMessage_zmsg io msg INTERNAL_PUB_NAME g)) = on_wire g @ [msg]"
proof -
  obtain a p so where r: "publisher_named INTERNAL_PUB_NAME g = Some a" "map_of (g_ports g) a = Some p"
    "pt_socket p = Some so" "\<not> pc_is_timed (pt_config p)" "om_inv (g_ports g)"
    using assms(1) by (auto simp: ready_def)
  let ?g' = "snd (SendMessage_zmsg io msg INTERNAL_PUB_NAME g)"
  have "port_sigs (g_ports ?g') = port_sigs (g_ports g)"
    using SendMessage_frame [OF r(5), of io msg INTERNAL_PUB_NAME] by (auto simp: ports_only_def)
  then have "publisher_named INTERNAL_PUB_NAME ?g' = Some a" using r(1) by (simp add: publisher_named_sigs)
  moreover have "g_ports ?g' = om_put a (on_socket (\<lambda>s. s\<lparr>so_sent := so_sent s @ [msg]\<rparr>) p) (g_ports g)"
    using r assms(2) by (simp add: SendMessage_zmsg_def send_on_def SenderPort_Send_def Let_def)
  ultimately show ?thesis using r by (simp add: on_wire_def om_get_put)
qed

lemma wire_leader [simp]:
  "publisher_named name (g\<lparr>g_leader := l\<rparr>) = publisher_named name g"
  "ready (g\<lparr>g_leader := l\<rparr>) = ready g"
  "on_wire (g\<lparr>g_leader := l\<rparr>) = on_wire g"
  by (simp_all add: publisher_named_def ready_def on_wire_def cong: option.case_cong)

definition value_proposal :: "string \<Rightarrow> string \<Rightarrow> GroupInternals" where
  "value_proposal src pid = IntConsensus \<lparr>cs_sourceComponentId = src, cs_voteType = VALUE,
     cs_body = ProposeToLeader pid, cs_tsyncCoordA = default_TimeSyncCoordA\<rparr>"

definition value_proposal_to_clients :: "string \<Rightarrow> string \<Rightarrow> GroupInternals" where
  "value_proposal_to_clients leader pid = IntConsensus \<lparr>cs_sourceComponentId = leader, cs_voteType = VALUE,
     cs_body = ProposeToClients pid leader, cs_tsyncCoordA = default_TimeSyncCoordA\<rparr>"

definition vote_message :: "string \<Rightarrow> string \<Rightarrow> bool \<Rightarrow> GroupInternals" where
  "vote_message src pid accept = IntConsensus \<lparr>cs_sourceComponentId = src, cs_voteType = VALUE,
     cs_body = Vote pid (if accept then ACCEPTED else REJECTED), cs_tsyncCoordA = default_TimeSyncCoordA\<rparr>"

text \<open>The serialiser gives back these messages.\<close>

definition lossless :: "io \<Rightarrow> GroupInternals set \<Rightarrow> bool" where
  "lossless io M \<longleftrightarrow> (\<forall>m \<in> M. io_dec io (io_enc io m) = m)"

section \<open>Witnesses\<close>

definition ex_pub :: port where
  "ex_pub = (PortBase_new CGroupPublisherPort Publisher (internal_config INTERNAL_PUB_NAME) None False 0)
     \<lparr>pt_socket := Some (zsock_new ZMQ_PUB)\<rparr>"

definition ex_sub :: port where
  "ex_sub = SubscriberPortBase_new CGroupSubscriberPort (internal_config INTERNAL_SUB_NAME) None False 0"

definition ex_group :: "string \<Rightarrow> string \<Rightarrow> group" where
  "ex_group self leader =
     (Group_new 0 \<lparr>gt_type_id = ''T'', gt_pubs = [], gt_subs = [], gt_has_leader = True, gt_has_consensus = True\<rparr>
        (GroupId ''T'' ''g'') self)
     \<lparr>g_pubport := Some 0, g_subport := Some 1, g_ports := [(0, ex_pub), (1, ex_sub)],
      g_known_nodes := [(''b'', Timeout_dur 0 (milliseconds * 11000))],
      g_leader := Some ((GroupLead_new (\<lambda>_. 0) 200 0 self)\<lparr>m_leaderId := leader\<rparr>)\<rparr>"

definition ex_io :: "GroupInternals \<Rightarrow> GroupInternals \<Rightarrow> io" where
  "ex_io m1 m2 = \<lparr>io_enc = (\<lambda>m. if m = m1 then ''1'' else ''2''), io_dec = (\<lambda>f. if f = ''1'' then m1 else m2),
     io_stamp = \<lparr>tv_sec = 0, tv_nsec = 0\<rparr>, io_rc = (\<lambda>_. 0), io_errno = 0\<rparr>"

lemma ex_group_ok: "group_ok (ex_group self leader)"
  by (simp add: group_ok_def ex_group_def Group_new_def om_inv_def um_inv_def internal_ports_def port_is_def leader_ok_def
      lead_inv_def GroupLead_new_def ex_pub_def ex_sub_def PortBase_new_def SubscriberPortBase_new_def)

lemma ex_group_ready: "ready (ex_group self leader)"
  by (simp add: ready_def ex_group_def om_inv_def publisher_named_def ex_pub_def PortBase_new_def GetPortAs_def
      internal_config_def)

lemma ex_group_simps [simp]:
  "leader_id (ex_group self leader) = leader" "g_component_id (ex_group self leader) = self"
  "g_subport (ex_group self leader) = Some 1" "g_group_id (ex_group self leader) = GroupId ''T'' ''g''"
  by (simp_all add: ex_group_def leader_id_def Group_new_def)

theorem fetch_keeps_group_ok_witness:
  "\<exists>g'. FetchNextMessage (ex_io (GroupHeartBeat PING ''z'') (IntGroupMessage [])) (\<lambda>_. 0) 12000 False (Some 1) (Some [''1''])
      (ex_group ''a'' ''a'') = Inr g' \<and> group_ok g'"
proof -
  let ?f = "FetchNextMessage (ex_io (GroupHeartBeat PING ''z'') (IntGroupMessage [])) (\<lambda>_. 0) 12000 False (Some 1) (Some [''1''])
      (ex_group ''a'' ''a'')"
  have "\<exists>g'. ?f = Inr g'"
    by (simp add: FetchNextMessage_def ex_io_def)
       (simp add: ex_group_def ex_sub_def SubscriberPortBase_new_def PortBase_new_def GetPortAs_def on_internal_def)
  with fetch_keeps_group_ok [OF ex_group_ok] show ?thesis by blast
qed

theorem group_send_result_inverted_witness:
  "\<not> fst (SendMessage_zmsg (ex_io (IntGroupMessage []) (IntGroupMessage [])) [''x''] INTERNAL_PUB_NAME (ex_group ''a'' ''a''))"
  using group_send_result_inverted [of INTERNAL_PUB_NAME "ex_group ''a'' ''a''" 0]
  by (simp add: publisher_named_def ex_group_def ex_pub_def PortBase_new_def GetPortAs_def internal_config_def ex_io_def)

theorem heartbeats_do_not_refresh_members_witness:
  "''b'' \<notin> set (GetKnownComponents (\<lambda>_. milliseconds * 11001) 0 (g_known_nodes
     (on_heartbeat (ex_io (IntGroupMessage []) (IntGroupMessage [])) (milliseconds * 10000) 20000 PONG ''b'' (ex_group ''a'' ''a''))))"
  using heartbeats_do_not_refresh_members [of "ex_group ''a'' ''a''" "''b''" "Timeout_dur 0 (milliseconds * 11000)"
      "milliseconds * 11001" _ "ex_io (IntGroupMessage []) (IntGroupMessage [])" "[(milliseconds * 10000, 20000, PONG, ''b'')]", OF _ _ _ refl]
  by (simp add: ex_group_def um_inv_def timeout_defs)

theorem user_group_message_dropped_witness:
  "FetchNextMessage (ex_io (IntGroupMessage []) (IntGroupMessage [])) (\<lambda>_. 0) 1 False (Some 7) (Some [''data''])
     ((ex_group ''a'' ''a'')\<lparr>g_ports := [(0, ex_pub), (1, ex_sub), (7, ex_sub)]\<rparr>)
   = Inr ((ex_group ''a'' ''a'')\<lparr>g_ports := [(0, ex_pub), (1, ex_sub), (7, ex_sub)]\<rparr>)"
  by (rule user_group_message_dropped) (simp_all add: ex_group_def)

section \<open>A joined group is well formed\<close>

lemma GroupPublisherPort_new_is:
  "GroupPublisherPort_new h bind par ck junk cfg = Inr p \<Longrightarrow> pt_class p = CGroupPublisherPort \<and> pt_config p = cfg"
proof -
  assume "GroupPublisherPort_new h bind par ck junk cfg = Inr p"
  then obtain host where "p = snd (secure_and_bind bind ((PortBase_new CGroupPublisherPort Publisher cfg par ck junk)
      \<lparr>pt_socket := Some (zsock_new ZMQ_PUB), pt_host := host\<rparr>))"
    by (auto simp: GroupPublisherPort_new_def PublisherPortBase_InitSocket_def Let_def split: sum.splits)
  then show ?thesis
    using secure_and_bind_frame [OF prod.collapse [symmetric], of bind] by (simp add: PortBase_new_def)
qed

text \<open>What is at an address of the port table, and where the sockets created with the numbers from \<open>k\<close> on are.\<close>

definition held :: "(address, port) omap \<Rightarrow> address \<Rightarrow> (port_class \<times> port_config) option" where
  "held m a = map_option (\<lambda>p. (pt_class p, pt_config p)) (map_of m a)"

definition holds_from :: "port_class \<Rightarrow> nat \<Rightarrow> port_config list \<Rightarrow> (address, port) omap \<Rightarrow> init_env \<Rightarrow> (address, port) omap \<Rightarrow> bool" where
  "holds_from cls k cfgs m env m' \<longleftrightarrow>
     (\<forall>j. held m' (ie_addr env j) = (if k \<le> j \<and> j < k + length cfgs then Some (cls, cfgs ! (j - k)) else held m (ie_addr env j))) \<and>
     (\<forall>a. a \<notin> range (ie_addr env) \<longrightarrow> held m' a = held m a)"

lemma held_put [simp]: "held (om_put a p m) b = (if b = a then Some (pt_class p, pt_config p) else held m b)"
  by (simp add: held_def om_get_put)

lemma held_Nil [simp]: "held [] a = None"
  by (simp add: held_def)

lemma holds_from_Nil: "holds_from cls k [] m env m"
  by (auto simp: holds_from_def)

lemma holds_from_Cons:
  assumes "inj (ie_addr env)" "holds_from cls (Suc k) cfgs (om_put (ie_addr env k) p m) env m'" "pt_class p = cls" "pt_config p = cfg"
  shows "holds_from cls k (cfg # cfgs) m env m'"
proof -
  have "ie_addr env j = ie_addr env k \<longleftrightarrow> j = k" for j using assms(1) by (simp add: inj_eq)
  moreover have "a \<noteq> ie_addr env k" if "a \<notin> range (ie_addr env)" for a using that by blast
  ultimately show ?thesis
    using assms(2-4) by (auto simp: holds_from_def nth_Cons' less_Suc_eq_le Suc_le_eq)
qed

lemma init_pubs_creates:
  assumes "inj (ie_addr env)" "init_pubs env k cfgs m = Inr (k', m', ss)" "om_inv m"
  shows "om_inv m' \<and> k' = k + length cfgs \<and> holds_from CGroupPublisherPort k cfgs m env m'"
  using assms
proof (induction env k cfgs m arbitrary: k' m' ss rule: init_pubs.induct)
  case (2 env k cfg cfgs m)
  then obtain p ss' where p: "GroupPublisherPort_new (ie_host env) (ie_bind env k) (ie_security env) (ie_curve_key env)
      (ie_junk env) cfg = Inr p" "init_pubs env (Suc k) cfgs (om_put (ie_addr env k) p m) = Inr (k', m', ss')"
    by (auto split: sum.splits)
  have "om_inv (om_put (ie_addr env k) p m)" using om.inv_put [OF "2.prems"(3)] by simp
  then show ?case
    using "2.IH" [OF p(1) "2.prems"(1) p(2)] holds_from_Cons [OF "2.prems"(1), of _ k cfgs p m m'] GroupPublisherPort_new_is [OF p(1)] by auto
qed (simp add: holds_from_Nil)

lemma init_subs_creates:
  assumes "inj (ie_addr env)" "init_subs env k cfgs m = (m', poll)" "om_inv m"
  shows "om_inv m' \<and> poll = map (ie_addr env) [k..<k + length cfgs] \<and> holds_from CGroupSubscriberPort k cfgs m env m'"
  using assms
proof (induction env k cfgs m arbitrary: m' poll rule: init_subs.induct)
  case (2 env k cfg cfgs m)
  define p where "p = SubscriberPortBase_new CGroupSubscriberPort cfg (ie_security env) (ie_curve_key env) (ie_junk env)"
  obtain poll' where r: "init_subs env (Suc k) cfgs (om_put (ie_addr env k) p m) = (m', poll')" "poll = ie_addr env k # poll'"
    using "2.prems"(2) by (auto simp: Let_def p_def split: prod.splits)
  have "om_inv (om_put (ie_addr env k) p m)" using om.inv_put [OF "2.prems"(3)] by simp
  moreover have "pt_class p = CGroupSubscriberPort" "pt_config p = cfg"
    by (simp_all add: p_def SubscriberPortBase_new_def PortBase_new_def)
  moreover have "[k..<k + length (cfg # cfgs)] = k # [Suc k..<Suc k + length cfgs]" by (simp add: upt_rec)
  ultimately show ?case
    using "2.IH" [OF refl "2.prems"(1) r(1) [unfolded p_def]] holds_from_Cons [OF "2.prems"(1), of _ k cfgs p m m'] r(2) by (auto simp: p_def)
qed (simp add: holds_from_Nil)

text \<open>C21: a group that was joined is well formed and its poller watches exactly its subscriber ports: each once, in order the
  internal one and those of its type, each holding its configuration; no other socket of the group is a subscriber.
  The sockets of a group have different addresses.\<close>

theorem joined_group_ok:
  assumes "inj (ie_addr env)"
    and "InitGroup env clk rnd junk (Some conf) (Group_new now conf0 gid self) = Inr (True, g)"
  shows "group_ok g \<and> g_conf g = conf \<and> distinct (g_poller g) \<and>
    map (held (g_ports g)) (g_poller g) =
      map (\<lambda>cfg. Some (CGroupSubscriberPort, cfg)) (internal_config INTERNAL_SUB_NAME # gt_subs conf) \<and>
    set (g_poller g) = {a. \<exists>cfg. held (g_ports g) a = Some (CGroupSubscriberPort, cfg)}"
proof -
  let ?pub = "internal_config INTERNAL_PUB_NAME" and ?sub = "internal_config INTERNAL_SUB_NAME" and ?np = "length (gt_pubs conf)"
    and ?ns = "length (gt_subs conf)" and ?ad = "ie_addr env"
  obtain k1 m1 s1 where i1: "init_pubs env 0 [?pub] [] = Inr (k1, m1, s1)"
    using assms(2) by (auto simp: InitGroup_def simp del: init_pubs.simps split: sum.splits)
  obtain m2 poll1 where i2: "init_subs env k1 [?sub] m1 = (m2, poll1)" by (cases "init_subs env k1 [?sub] m1")
  obtain k3 m3 s3 where i3: "init_pubs env (Suc k1) (gt_pubs conf) m2 = Inr (k3, m3, s3)"
    using assms(2) i1 i2 by (auto simp: InitGroup_def simp del: init_pubs.simps init_subs.simps split: sum.splits)
  obtain m4 poll2 where i4: "init_subs env k3 (gt_subs conf) m3 = (m4, poll2)" by (cases "init_subs env k3 (gt_subs conf) m3")
  have f1: "om_inv m1" "k1 = 1" "holds_from CGroupPublisherPort 0 [?pub] [] env m1"
    using init_pubs_creates [OF assms(1) i1] by (simp_all add: om_inv_def)
  note f2 = init_subs_creates [OF assms(1) i2 f1(1), unfolded f1(2)]
  note f3 = init_pubs_creates [OF assms(1) i3 conjunct1 [OF f2], unfolded f1(2)]
  note f4 = init_subs_creates [OF assms(1) i4 conjunct1 [OF f3]]
  have k3: "k3 = 2 + ?np" using f3 by simp
  have at: "held m4 (?ad j) =
      (if j = 0 then Some (CGroupPublisherPort, ?pub) else if j = 1 then Some (CGroupSubscriberPort, ?sub)
       else if j < 2 + ?np then Some (CGroupPublisherPort, gt_pubs conf ! (j - 2))
       else if j < 2 + ?np + ?ns then Some (CGroupSubscriberPort, gt_subs conf ! (j - (2 + ?np))) else None)" for j
    using f1(3) f2 f3 f4 by (simp add: holds_from_def k3 numeral_2_eq_2)
  have away: "held m4 a = None" if "a \<notin> range ?ad" for a
    using f1(3) f2 f3 f4 that by (simp add: holds_from_def)
  have g: "g = (Group_new now conf0 gid self)\<lparr>g_conf := conf, g_pubport := Some (?ad 0),
      g_subport := Some (?ad 1), g_ports := m4, g_poller := poll1 @ poll2,
      g_leader := (if gt_has_leader conf then Some (SetOnLeaderChanged (GroupLead_new clk rnd junk self)) else None)\<rparr>"
    using assms(2) i1 i2 i3 i4 f1(2)
    by (auto simp: InitGroup_def Group_new_def Let_def simp del: init_pubs.simps init_subs.simps)
  have poll: "g_poller g = map ?ad (1 # [2 + ?np ..< 2 + ?np + ?ns])" using f2 f4 k3 by (simp add: g)
  have "lead_inv ([], SetOnLeaderChanged (GroupLead_new clk rnd junk self))"
    by (simp add: SetOnLeaderChanged_def lead_inv_def GroupLead_new_def um_inv_def)
  moreover have "internal_ports (Some (?ad 0)) (Some (?ad 1)) m4"
    using at [of 0] at [of 1] by (auto simp: internal_ports_def port_is_def held_def)
  ultimately have "group_ok g"
    using f4 by (simp add: g group_ok_def Group_new_def leader_ok_def um_inv_def SetOnLeaderChanged_def GroupLead_new_def)
  moreover have "distinct (g_poller g)" unfolding poll distinct_map using assms(1) by (intro conjI inj_on_subset [OF assms(1)]) (simp_all del: upt_Suc)
  moreover have "map (held m4) (g_poller g) = map (\<lambda>cfg. Some (CGroupSubscriberPort, cfg)) (?sub # gt_subs conf)"
  proof -
    have "map (\<lambda>j. held m4 (?ad j)) [2 + ?np ..< 2 + ?np + ?ns] = map (\<lambda>cfg. Some (CGroupSubscriberPort, cfg)) (gt_subs conf)"
      by (rule nth_equalityI) (simp_all add: at del: upt_Suc)
    then show ?thesis using at [of 1] by (simp add: poll o_def del: upt_Suc)
  qed
  moreover have "set (g_poller g) = {a. \<exists>cfg. held m4 a = Some (CGroupSubscriberPort, cfg)}"
  proof -
    have "{a. \<exists>cfg. held m4 a = Some (CGroupSubscriberPort, cfg)} = ?ad ` {j. \<exists>cfg. held m4 (?ad j) = Some (CGroupSubscriberPort, cfg)}"
      using away by (auto simp: image_iff) (metis option.distinct(1) rangeE)
    also have "{j. \<exists>cfg. held m4 (?ad j) = Some (CGroupSubscriberPort, cfg)} = insert 1 {2 + ?np ..< 2 + ?np + ?ns}"
      by (auto simp: at split: if_splits)
    finally show ?thesis by (simp add: poll del: upt_Suc)
  qed
  ultimately show ?thesis by (simp add: g)
qed

definition ex_init_env :: init_env where
  "ex_init_env = \<lparr>ie_host = \<lparr>riaps_conf = None, iflist = [(''eth0'', ''10.0.0.7'')], sys_class_net = Map.empty\<rparr>,
     ie_bind = (\<lambda>k _. 5000 + int k), ie_security = Some False, ie_curve_key = False, ie_junk = 0, ie_addr = (\<lambda>k. k + 100),
     ie_disco = (\<lambda>_. RepGroupJoin StatusOk), ie_pid = 1, ie_app = ''app''\<rparr>"

definition ex_conf :: group_type_conf where
  "ex_conf = \<lparr>gt_type_id = ''T'', gt_pubs = [], gt_subs = [\<lparr>pc_port_name = ''s'', pc_message_type = ''M'',
     pc_is_local = False, pc_is_timed = False\<rparr>], gt_has_leader = True, gt_has_consensus = True\<rparr>"

theorem joined_group_ok_witness:
  "\<exists>g. InitGroup ex_init_env (\<lambda>_. 0) 200 0 (Some ex_conf) (Group_new 0 ex_conf (GroupId ''T'' ''g'') ''a'') = Inr (True, g)
     \<and> group_ok g \<and> distinct (g_poller g) \<and> map (held (g_ports g)) (g_poller g) =
         [Some (CGroupSubscriberPort, internal_config INTERNAL_SUB_NAME), Some (CGroupSubscriberPort, hd (gt_subs ex_conf))]"
proof -
  have "inj (ie_addr ex_init_env)" by (simp add: ex_init_env_def inj_def)
  moreover have "\<exists>g. InitGroup ex_init_env (\<lambda>_. 0) 200 0 (Some ex_conf) (Group_new 0 ex_conf (GroupId ''T'' ''g'') ''a'')
      = Inr (True, g)"
    by (simp add: InitGroup_def ex_init_env_def ex_conf_def GroupPublisherPort_new_def PublisherPortBase_InitSocket_def
        bind_host_def PortBase_new_def GetIPAddress_def GetConfiguredIface_def GetFirstGlobalIface_def JoinGroup_disco_def
        internal_config_def Let_def split_beta)
  ultimately show ?thesis using joined_group_ok [of ex_init_env] by (fastforce simp: ex_conf_def)
qed

end
