(* ===== verification/Consensus_Round.thy ===== *)
theory Consensus_Round
  imports Group_Ops
begin

text \<open>
  A round of consensus over the wire, the composition of \<^verbatim>\<open>src/groups/r_group.cc\<close> on the members with
  \<^verbatim>\<open>src/groups/r_grouplead.cc\<close> on the leader: the proposal of a member, the votes of the others and the announcement
  of the leader, each as the message one group puts on its wire and another takes from it.  Lemmas:
  what a step of the leader logic puts on the wire, and that handling the messages of the votes is the run of
  votes for which the decision is known.
\<close>

section \<open>The wire of a leader\<close>

lemma send_ready:
  assumes "ready g"
  shows "ready (snd (SendMessage_zmsg io msg INTERNAL_PUB_NAME g))"
proof -
  obtain a p so where r: "publisher_named INTERNAL_PUB_NAME g = Some a" "map_of (g_ports g) a = Some p"
    "pt_socket p = Some so" "\<not> pc_is_timed (pt_config p)" "om_inv (g_ports g)"
    using assms by (auto simp: ready_def)
  let ?g' = "snd (SendMessage_zmsg io msg INTERNAL_PUB_NAME g)"
  note frame = SendMessage_frame [OF r(5), of io msg INTERNAL_PUB_NAME]
  then have "port_sigs (g_ports ?g') = port_sigs (g_ports g)" by (auto simp: ports_only_def)
  then have "publisher_named INTERNAL_PUB_NAME ?g' = Some a" using r(1) by (simp add: publisher_named_sigs)
  moreover have "\<exists>so'. map_of (g_ports ?g') a = Some (p\<lparr>pt_socket := Some so'\<rparr>)"
    using r by (auto simp: SendMessage_zmsg_def send_on_def SenderPort_Send_def Let_def om_get_put on_socket_def
        intro: exI [of _ so])
  ultimately show ?thesis using r(4) ports_only_inv [OF frame] r(5) by (auto simp: ready_def)
qed

lemma send_all_wire:
  assumes "ready g" "\<And>z. io_rc io z = 0"
  shows "on_wire (fold (\<lambda>m g. snd (SendMessage_zmsg io (f m) INTERNAL_PUB_NAME g)) ms g) = on_wire g @ map f ms \<and>
    ready (fold (\<lambda>m g. snd (SendMessage_zmsg io (f m) INTERNAL_PUB_NAME g)) ms g)"
  using assms(1)
proof (induction ms arbitrary: g)
  case (Cons m ms)
  then show ?case using Cons.IH [OF send_ready [OF Cons.prems]] send_on_wire [OF Cons.prems] assms(2) by simp
qed simp

lemma wire_known [simp]:
  "publisher_named name (g\<lparr>g_known_nodes := kn\<rparr>) = publisher_named name g"
  "ready (g\<lparr>g_known_nodes := kn\<rparr>) = ready g"
  "on_wire (g\<lparr>g_known_nodes := kn\<rparr>) = on_wire g"
  by (simp_all add: publisher_named_def ready_def on_wire_def cong: option.case_cong)

text \<open>A step of the leader logic puts on the wire exactly the messages it adds to those sent.\<close>

lemma leader_do_wire:
  assumes "ready g" "\<And>z. io_rc io z = 0" "g_leader g = Some l" "lead_step e (g_known_nodes g, l) = (kn', l')"
  obtains g' where "leader_do io e g = Inr g'" "ready g'"
    "on_wire g' = on_wire g @ map (lead_zmsg io) (drop (length (gl_sent l)) (gl_sent l'))"
    "ports_only (g\<lparr>g_known_nodes := kn', g_leader := Some l'\<rparr>) g'"
proof -
  let ?g = "g\<lparr>g_known_nodes := kn', g_leader := Some l'\<rparr>"
  have r: "ready ?g" "om_inv (g_ports ?g)" "on_wire ?g = on_wire g" using assms(1) by simp_all (simp add: ready_def)
  define ms where "ms = drop (length (gl_sent l)) (gl_sent l')"
  let ?g' = "fold (\<lambda>m g. snd (SendMessage_zmsg io (lead_zmsg io m) INTERNAL_PUB_NAME g)) ms ?g"
  have "leader_do io e g = Inr ?g'" using assms(3,4) by (simp add: leader_do_def ms_def)
  moreover have "ready ?g'" "on_wire ?g' = on_wire g @ map (lead_zmsg io) ms"
    using send_all_wire [OF r(1) assms(2), of "lead_zmsg io" ms] r(3) by simp_all
  moreover have "ports_only ?g ?g'" by (rule send_all_frame [OF r(2)])
  ultimately show ?thesis using that unfolding ms_def by blast
qed

section \<open>The leader of a group\<close>

definition leads :: "address \<Rightarrow> group_lead \<Rightarrow> group \<Rightarrow> bool" where
  "leads a l g \<longleftrightarrow> group_ok g \<and> ready g \<and> g_leader g = Some l \<and> g_subport g = Some a \<and>
     leader_id g = g_component_id g \<and> m_leaderId l = g_component_id g \<and> gl_componentId l = g_component_id g"

lemma leads_start:
  assumes "group_ok g" "ready g" "leader_id g = g_component_id g" "g_component_id g \<noteq> []" "g_subport g = Some a"
  obtains l where "leads a l g"
  using assms by (auto simp: leads_def leader_id_def group_ok_def leader_ok_def split: option.splits if_splits)

lemma leads_internal:
  assumes "leads a l g" "io_dec io f = m"
  shows "FetchNextMessage io clk rnd junk (Some a) (Some (f # rest)) g = on_internal io clk rnd junk m rest g"
proof -
  obtain p where "map_of (g_ports g) a = Some p" "pt_class p = CGroupSubscriberPort"
    using assms(1) by (auto simp: leads_def group_ok_def internal_ports_def port_is_def split: option.splits)
  then show ?thesis using assms by (simp add: FetchNextMessage_def leads_def GetPortAs_def)
qed

lemma member_internal:
  assumes "group_ok g" "g_subport g = Some a" "io_dec io f = m"
  shows "FetchNextMessage io clk rnd junk (Some a) (Some (f # rest)) g = on_internal io clk rnd junk m rest g"
proof -
  obtain p where "map_of (g_ports g) a = Some p" "pt_class p = CGroupSubscriberPort"
    using assms(1,2) by (auto simp: group_ok_def internal_ports_def port_is_def split: option.splits)
  then show ?thesis using assms by (simp add: FetchNextMessage_def GetPortAs_def)
qed

lemma leads_do:
  assumes "leads a l g" "\<And>z. io_rc io z = 0" "lead_step e (g_known_nodes g, l) = (g_known_nodes g, l')" "m_leaderId l' = m_leaderId l"
  obtains g' where "leader_do io e g = Inr g'" "leads a l' g'" "g_component_id g' = g_component_id g"
    "on_wire g' = on_wire g @ map (lead_zmsg io) (drop (length (gl_sent l)) (gl_sent l'))"
proof -
  have l: "group_ok g" "ready g" "g_leader g = Some l" using assms(1) by (simp_all add: leads_def)
  obtain g' where g': "leader_do io e g = Inr g'" "ready g'"
    "on_wire g' = on_wire g @ map (lead_zmsg io) (drop (length (gl_sent l)) (gl_sent l'))"
    "ports_only (g\<lparr>g_known_nodes := g_known_nodes g, g_leader := Some l'\<rparr>) g'"
    by (rule leader_do_wire [OF l(2) assms(2) l(3) assms(3)])
  obtain m where m: "g' = g\<lparr>g_leader := Some l', g_ports := m\<rparr>" using g'(4) by (auto simp: ports_only_def)
  have "gl_componentId l' = gl_componentId l" using lead_step_component [of e "g_known_nodes g" l] assms(3) by simp
  then have "leads a l' g'"
    using assms(1,4) g'(2) leader_do_ok [OF l(1) g'(1)] by (auto simp: leads_def m leader_id_def)
  then show ?thesis using that g' m by simp
qed


section \<open>The votes\<close>

text \<open>A ballot: the readings of the leader's clock, its random number and uninitialised flag when the message
  of the vote is handled, the voting member and its vote.\<close>

type_synonym ballot = "clock \<times> int \<times> bool \<times> group \<times> bool"

definition ballot_message :: "io \<Rightarrow> string \<Rightarrow> ballot \<Rightarrow> zmsg" where
  "ballot_message io pid = (\<lambda>(clk, rnd, junk, gm, accept). last (on_wire (snd (Group_SendVote io pid accept gm))))"

definition receive_ballot :: "io \<Rightarrow> address \<Rightarrow> string \<Rightarrow> ballot \<Rightarrow> group \<Rightarrow> group_error + group" where
  "receive_ballot io a pid b = (case b of (clk, rnd, junk, gm, accept) \<Rightarrow>
     FetchNextMessage io clk rnd junk (Some a) (Some (ballot_message io pid b)))"

definition receive_ballots :: "io \<Rightarrow> address \<Rightarrow> string \<Rightarrow> ballot list \<Rightarrow> group \<Rightarrow> group_error + group" where
  "receive_ballots io a pid = loop (\<lambda>_. False) (receive_ballot io a pid)"

definition ballot_vote :: "ballot \<Rightarrow> timed_vote" where
  "ballot_vote = (\<lambda>(clk, rnd, junk, gm, accept). (clk, g_component_id gm, if accept then ACCEPTED else REJECTED))"

definition ballot_ok :: "io \<Rightarrow> string \<Rightarrow> ballot \<Rightarrow> bool" where
  "ballot_ok io pid = (\<lambda>(clk, rnd, junk, gm, accept). ready gm \<and> lossless io {vote_message (g_component_id gm) pid accept})"

lemma OnVote_sent: "\<exists>ms. gl_sent (OnVote clk p v src l) = gl_sent l @ ms"
  by (simp add: OnVote_def Lead_Announce_def SendInternal_def Let_def split: option.split)

lemma vote_run_sent: "\<exists>ms. gl_sent (vote_run p tvs l) = gl_sent l @ ms"
proof (induction tvs arbitrary: l)
  case (Cons tv tvs)
  obtain clk src v where tv: "tv = (clk, src, v)" by (cases tv)
  obtain ms ms' where "gl_sent (OnVote clk p v src l) = gl_sent l @ ms"
    "gl_sent (vote_run p tvs (OnVote clk p v src l)) = gl_sent (OnVote clk p v src l) @ ms'"
    using OnVote_sent [of clk p v src l] Cons.IH [of "OnVote clk p v src l"] by blast
  then show ?case by (simp add: tv vote_run_Cons)
qed (simp add: vote_run_def)

lemma OnVote_leader: "m_leaderId (OnVote clk p v src l) = m_leaderId l"
  by (simp add: OnVote_def Lead_Announce_def SendInternal_def erase_proposal_def erase_action_def Let_def split: option.split)

lemma ballot_received:
  assumes "leads a l g" "\<And>z. io_rc io z = 0" "ballot_ok io pid b" "ballot_vote b = (clk, src, v)"
  obtains g' where "receive_ballot io a pid b g = Inr g'" "leads a (OnVote clk pid v src l) g'"
    "on_wire g' = on_wire g @ map (lead_zmsg io) (drop (length (gl_sent l)) (gl_sent (OnVote clk pid v src l)))"
proof -
  obtain rnd junk gm accept where b: "b = (clk, rnd, junk, gm, accept)" "src = g_component_id gm" "v = (if accept then ACCEPTED else REJECTED)"
    using assms(4) by (cases b) (auto simp: ballot_vote_def)
  have gm: "ready gm" "io_dec io (io_enc io (vote_message src pid accept)) = vote_message src pid accept"
    using assms(3) by (simp_all add: ballot_ok_def b lossless_def)
  have "ballot_message io pid b = [io_enc io (vote_message src pid accept)]"
    using send_on_wire [OF gm(1)] assms(2)
    by (simp add: ballot_message_def b Group_SendVote_def SendInternalMessage_def Group_SendMessage_def vote_message_def)
  then have "receive_ballot io a pid b g = on_internal io clk rnd junk (vote_message src pid accept) [] g"
    using leads_internal [OF assms(1) gm(2)] by (simp add: receive_ballot_def b)
  also have "\<dots> = leader_do io (EvVote clk pid v src) g"
    using assms(1) by (simp add: on_internal_def vote_message_def on_consensus_leader_def leads_def b)
  finally have eq: "receive_ballot io a pid b g = leader_do io (EvVote clk pid v src) g" .
  show ?thesis
    by (rule leads_do [OF assms(1,2), of "EvVote clk pid v src" "OnVote clk pid v src l"]) (use that eq in \<open>simp_all add: OnVote_leader\<close>)
qed

lemma ballots_received:
  assumes "leads a l g" "\<And>z. io_rc io z = 0" "list_all (ballot_ok io pid) bs"
  shows "\<exists>g'. receive_ballots io a pid bs g = Inr g' \<and> g_leader g' = Some (vote_run pid (map ballot_vote bs) l) \<and>
    on_wire g' = on_wire g @ map (lead_zmsg io) (drop (length (gl_sent l)) (gl_sent (vote_run pid (map ballot_vote bs) l)))"
  using assms(1,3)
proof (induction bs arbitrary: g l)
  case Nil
  then show ?case by (simp add: receive_ballots_def vote_run_def leads_def)
next
  case (Cons b bs)
  obtain clk src v where v: "ballot_vote b = (clk, src, v)" by (cases "ballot_vote b")
  let ?l = "OnVote clk pid v src l"
  have ok: "ballot_ok io pid b" "list_all (ballot_ok io pid) bs" using Cons.prems(2) by simp_all
  obtain g1 where g1: "receive_ballot io a pid b g = Inr g1" "leads a ?l g1"
    "on_wire g1 = on_wire g @ map (lead_zmsg io) (drop (length (gl_sent l)) (gl_sent ?l))"
    by (rule ballot_received [OF Cons.prems(1) assms(2) ok(1) v])
  obtain ms ms' where "gl_sent ?l = gl_sent l @ ms" "gl_sent (vote_run pid (map ballot_vote bs) ?l) = gl_sent ?l @ ms'"
    using OnVote_sent [of clk pid v src l] vote_run_sent [of pid "map ballot_vote bs" ?l] by blast
  then show ?case using Cons.IH [OF g1(2) ok(2)] g1(1,3) by (auto simp: receive_ballots_def v vote_run_Cons)
qed


section \<open>The round\<close>

lemma proposal_received:
  assumes "leads a l g" "\<And>z. io_rc io z = 0" "lossless io {value_proposal src pid}"
  obtains g' where "FetchNextMessage io clk rnd junk (Some a) (Some [io_enc io (value_proposal src pid), content]) g = Inr g'"
    "leads a (OnProposeFromClient clk (g_known_nodes g) junk pid (Some content) l) g'"
    "on_wire g' = on_wire g @ [lead_zmsg io (value_proposal_to_clients (g_component_id g) pid, Some content)]"
proof -
  let ?l = "OnProposeFromClient clk (g_known_nodes g) junk pid (Some content) l"
  have "m_leaderId l = gl_componentId l" "gl_componentId l = g_component_id g" using assms(1) by (simp_all add: leads_def)
  then have l: "m_leaderId ?l = m_leaderId l" "gl_sent ?l = gl_sent l @ [(value_proposal_to_clients (g_component_id g) pid, Some content)]"
    by (simp_all add: OnProposeFromClient_def Let_def value_proposal_to_clients_def)
  have dec: "io_dec io (io_enc io (value_proposal src pid)) = value_proposal src pid" using assms(3) by (simp add: lossless_def)
  have eq: "FetchNextMessage io clk rnd junk (Some a) (Some [io_enc io (value_proposal src pid), content]) g =
      leader_do io (EvPropose clk junk pid (Some content)) g"
    using leads_internal [OF assms(1) dec] assms(1)
    by (simp add: on_internal_def value_proposal_def on_consensus_leader_def leads_def)
  show ?thesis
    by (rule leads_do [OF assms(1,2), of "EvPropose clk junk pid (Some content)" ?l]) (use that eq in \<open>simp_all add: l\<close>)
qed

lemma announcement_received:
  assumes "group_ok g" "g_subport g = Some a" "leader_id g \<noteq> g_component_id g" "lossless io {announce_msg pid r}"
  shows "FetchNextMessage io clk rnd junk (Some a) (Some (lead_zmsg io (announce_msg pid r, None))) g =
    Inr (call_component (OnAnnounce (g_group_id g) pid (r = ACCEPTED)) g)"
  using member_internal [OF assms(1,2), of io "io_enc io (announce_msg pid r)" "announce_msg pid r"] assms(3,4)
  by (simp add: lossless_def lead_zmsg_def on_internal_def announce_msg_def on_consensus_member_def)

lemma ballot_counts:
  "votes_of N ACCEPTED (map snd (map ballot_vote bs)) = length (filter (\<lambda>(clk, rnd, junk, gm, accept). g_component_id gm \<in> set N \<and> accept) bs)"
  "votes_of N REJECTED (map snd (map ballot_vote bs)) = length (filter (\<lambda>(clk, rnd, junk, gm, accept). g_component_id gm \<in> set N \<and> \<not> accept) bs)"
  by (induction bs) (simp_all add: ballot_vote_def split_beta)

lemma ballot_senders: "map (fst \<circ> snd) (map ballot_vote bs) = map (\<lambda>(c, rnd, junk, gm, accept). g_component_id gm) bs"
  by (simp add: ballot_vote_def split_beta)

text \<open>C4: a round of consensus.  A member proposes a value; the leader handles its message, then the messages of the
  votes that different members sent, all before the deadline; another member takes from the leader's wire what
  it puts there.  Every message is handled.  The other member is handed the proposed value first.  If the members that
  accept, of those the leader knew when it got the proposal, are a majority of these, then it is told once that the
  proposal was accepted; if the members that reject are a majority, once that it was rejected; otherwise the
  leader announces nothing.\<close>

theorem consensus_round:
  assumes io: "\<And>z. io_rc io z = 0" "list_all (ballot_ok io pid) bs"
      "lossless io {value_proposal (g_component_id gc) pid, value_proposal_to_clients (g_component_id gL) pid,
         announce_msg pid ACCEPTED, announce_msg pid REJECTED}"
    and proposer: "leader_id gc \<noteq> []" "ready gc"
    and leader: "group_ok gL" "ready gL" "leader_id gL = g_component_id gL" "g_component_id gL \<noteq> []" "g_subport gL = Some aL"
    and known: "length (g_known_nodes gL) < 2 ^ 16" "N = GetKnownComponents clk 0 (g_known_nodes gL)"
    and votes: "distinct (map (\<lambda>(c, rnd, junk, gm, accept). g_component_id gm) bs)"
      "list_all (\<lambda>(c, rnd, junk, gm, accept). c 0 \<le> clk (length (g_known_nodes gL)) + PROPOSE_PERIOD) bs"
      "acc = length (filter (\<lambda>(c, rnd, junk, gm, accept). g_component_id gm \<in> set N \<and> accept) bs)"
      "rej = length (filter (\<lambda>(c, rnd, junk, gm, accept). g_component_id gm \<in> set N \<and> \<not> accept) bs)"
    and other: "group_ok gO" "leader_id gO \<noteq> g_component_id gO" "g_subport gO = Some aO"
  shows "\<exists>gL1 gL2 z. FetchNextMessage io clk rnd junk (Some aL) (Some (last (on_wire (snd (ProposeValueToLeader io content pid gc))))) gL = Inr gL1 \<and>
    receive_ballots io aL pid bs gL1 = Inr gL2 \<and> on_wire gL1 = on_wire gL @ [z] \<and>
    FetchNextMessage io clkO rndO junkO (Some aO) (Some z) gO = Inr (call_component (OnPropose (g_group_id gO) pid content) gO) \<and>
    (if consensus_majority (length N) \<le> acc \<or> consensus_majority (length N) \<le> rej
     then \<exists>z'. on_wire gL2 = on_wire gL1 @ [z'] \<and> FetchNextMessage io clkA rndA junkA (Some aO) (Some z') gO =
       Inr (call_component (OnAnnounce (g_group_id gO) pid (consensus_majority (length N) \<le> acc)) gO)
     else on_wire gL2 = on_wire gL1)"
proof -
  obtain l where l: "leads aL l gL" by (rule leads_start [OF leader])
  have dec: "lossless io {value_proposal (g_component_id gc) pid}" "lossless io {announce_msg pid r}"
    "io_dec io (io_enc io (value_proposal_to_clients (g_component_id gL) pid)) = value_proposal_to_clients (g_component_id gL) pid" for r
    using io(3) by (cases r; simp add: lossless_def)+
  have "last (on_wire (snd (ProposeValueToLeader io content pid gc))) = [io_enc io (value_proposal (g_component_id gc) pid), content]"
    using send_on_wire [OF proposer(2)] io(1) proposer(1) by (simp add: ProposeValueToLeader_def value_proposal_def)
  moreover let ?l1 = "OnProposeFromClient clk (g_known_nodes gL) junk pid (Some content) l"
    and ?z = "lead_zmsg io (value_proposal_to_clients (g_component_id gL) pid, Some content)"
  obtain gL1 where gL1: "FetchNextMessage io clk rnd junk (Some aL) (Some [io_enc io (value_proposal (g_component_id gc) pid), content]) gL = Inr gL1"
    "leads aL ?l1 gL1" "on_wire gL1 = on_wire gL @ [?z]"
    by (rule proposal_received [OF l io(1) dec(1)])
  moreover define l2 where "l2 = vote_run pid (map ballot_vote bs) ?l1"
  obtain gL2 where gL2: "receive_ballots io aL pid bs gL1 = Inr gL2"
    "on_wire gL2 = on_wire gL1 @ map (lead_zmsg io) (drop (length (gl_sent ?l1)) (gl_sent l2))"
    using ballots_received [OF gL1(2) io(1,2)] by (auto simp: l2_def)
  moreover have "FetchNextMessage io clkO rndO junkO (Some aO) (Some ?z) gO = Inr (call_component (OnPropose (g_group_id gO) pid content) gO)"
    using member_internal [OF other(1,3) dec(3)] other(2)
    by (simp add: lead_zmsg_def on_internal_def value_proposal_to_clients_def on_consensus_member_def)
  moreover have on_time: "\<forall>(c, src, v) \<in> set (map ballot_vote bs). c 0 \<le> clk (length (g_known_nodes gL)) + PROPOSE_PERIOD"
    using votes(2) by (auto simp: list_all_iff ballot_vote_def)
  moreover have "outcome pid ?l1 l2 (if consensus_majority (length N) \<le> acc then Some ACCEPTED
      else if consensus_majority (length N) \<le> rej then Some REJECTED else None)"
    unfolding votes(3,4) ballot_counts [symmetric] l2_def
    by (rule consensus_outcome [OF _ _ known refl _ on_time])
      (use l leader(1) votes(1) in \<open>simp_all add: leads_def group_ok_def ballot_senders del: map_map\<close>)
  ultimately show ?thesis
    using announcement_received [OF other(1,3,2) dec(2)] by (auto simp: outcome_def split: if_splits)
qed


section \<open>Actions\<close>

definition action_proposal :: "string \<Rightarrow> string \<Rightarrow> TimeSyncCoordA \<Rightarrow> GroupInternals" where
  "action_proposal src pid tsca = IntConsensus \<lparr>cs_sourceComponentId = src, cs_voteType = ACTION,
     cs_body = ProposeToLeader pid, cs_tsyncCoordA = tsca\<rparr>"

definition action_proposal_to_clients :: "string \<Rightarrow> string \<Rightarrow> TimeSyncCoordA \<Rightarrow> GroupInternals" where
  "action_proposal_to_clients leader pid tsca = IntConsensus \<lparr>cs_sourceComponentId = leader, cs_voteType = ACTION,
     cs_body = ProposeToClients pid leader, cs_tsyncCoordA = tsca\<rparr>"

text \<open>The same action is being voted on.\<close>

definition action_pending :: "clock \<Rightarrow> string \<Rightarrow> group_lead \<Rightarrow> bool" where
  "action_pending clk aid l =
     (case map_of (m_actionData l) aid of None \<Rightarrow> False | Some pd \<Rightarrow> \<not> IsTimeout (clk 0) (proposeDeadline pd))"

text \<open>C22: a proposed action reaches the members once at a time.  While no vote on the action is open, the leader
  registers the proposal and passes it on, and another member is asked about the same action at the
  same time, with seconds and nanoseconds reduced to 32 bits; while a vote on the action is open, the proposal is
  dropped, and the proposer is told nothing.\<close>

theorem action_reaches_members:
  assumes io: "\<And>z. io_rc io z = 0" "lossless io {action_proposal (g_component_id gc) pid tsca, action_proposal_to_clients (g_component_id gL) pid tsca}"
      "tsca = \<lparr>ts_actionId = aid, ts_tvSec = trunc32 (tv_sec t), ts_tvNsec = trunc32 (tv_nsec t)\<rparr>"
    and proposer: "leader_id gc \<noteq> []" "ready gc"
    and leader: "group_ok gL" "ready gL" "leader_id gL = g_component_id gL" "g_component_id gL \<noteq> []" "g_subport gL = Some aL" "g_leader gL = Some l"
    and other: "group_ok gO" "leader_id gO \<noteq> g_component_id gO" "g_subport gO = Some aO"
  shows "\<exists>gL1 l1. FetchNextMessage io clk rnd junk (Some aL) (Some (last (on_wire (snd (ProposeActionToLeader io pid aid t gc))))) gL = Inr gL1 \<and>
    g_leader gL1 = Some l1 \<and>
    (if action_pending clk aid l then l1 = l \<and> on_wire gL1 = on_wire gL
     else action_pending (\<lambda>k. clk (1 + length (g_known_nodes gL))) aid l1 \<and>
       (\<exists>z. on_wire gL1 = on_wire gL @ [z] \<and> FetchNextMessage io clkO rndO junkO (Some aO) (Some z) gO =
         Inr (call_component (OnActionPropose (g_group_id gO) pid aid \<lparr>tv_sec = trunc32 (tv_sec t), tv_nsec = trunc32 (tv_nsec t)\<rparr>) gO)))"
proof -
  have l: "leads aL l gL" using leads_start [OF leader(1-5)] leader(6) by (metis leads_def option.inject)
  have dec: "io_dec io (io_enc io (action_proposal (g_component_id gc) pid tsca)) = action_proposal (g_component_id gc) pid tsca"
    "io_dec io (io_enc io (action_proposal_to_clients (g_component_id gL) pid tsca)) = action_proposal_to_clients (g_component_id gL) pid tsca"
    using io(2) by (simp_all add: lossless_def)
  let ?l = "OnActionProposeFromClient clk (g_known_nodes gL) pid tsca l"
    and ?z = "lead_zmsg io (action_proposal_to_clients (g_component_id gL) pid tsca, None)"
  have own: "m_leaderId l = gl_componentId l" "gl_componentId l = g_component_id gL" using l by (simp_all add: leads_def)
  have "last (on_wire (snd (ProposeActionToLeader io pid aid t gc))) = [io_enc io (action_proposal (g_component_id gc) pid tsca)]"
    using send_on_wire [OF proposer(2)] io(1) proposer(1) by (simp add: ProposeActionToLeader_def action_proposal_def io(3))
  then have eq: "FetchNextMessage io clk rnd junk (Some aL) (Some (last (on_wire (snd (ProposeActionToLeader io pid aid t gc))))) gL =
      leader_do io (EvActionPropose clk pid tsca) gL"
    using leads_internal [OF l dec(1)] l by (simp add: on_internal_def action_proposal_def on_consensus_leader_def leads_def)
  have "m_leaderId ?l = m_leaderId l" by (simp add: OnActionProposeFromClient_def Let_def)
  then obtain gL1 where gL1: "leader_do io (EvActionPropose clk pid tsca) gL = Inr gL1" "leads aL ?l gL1"
    "on_wire gL1 = on_wire gL @ map (lead_zmsg io) (drop (length (gl_sent l)) (gl_sent ?l))"
    by (rule leads_do [OF l io(1), of "EvActionPropose clk pid tsca" ?l, rotated]) simp_all
  have "FetchNextMessage io clkO rndO junkO (Some aO) (Some ?z) gO =
      Inr (call_component (OnActionPropose (g_group_id gO) pid aid \<lparr>tv_sec = trunc32 (tv_sec t), tv_nsec = trunc32 (tv_nsec t)\<rparr>) gO)"
    using member_internal [OF other(1,3) dec(2)] other(2)
    by (simp add: lead_zmsg_def on_internal_def action_proposal_to_clients_def on_consensus_member_def io(3))
  moreover have "?l = l" if "action_pending clk aid l"
    using that by (simp add: OnActionProposeFromClient_def action_pending_def io(3))
  moreover have "gl_sent ?l = gl_sent l @ [(action_proposal_to_clients (g_component_id gL) pid tsca, None)]"
    "action_pending (\<lambda>k. clk (1 + length (g_known_nodes gL))) aid ?l" if "\<not> action_pending clk aid l"
    using that own by (simp_all add: OnActionProposeFromClient_def action_pending_def io(3) Let_def um_get_put
        action_proposal_to_clients_def ProposeData_new_def timeout_defs)
  ultimately show ?thesis using eq gL1 by (auto simp: leads_def)
qed

section \<open>Witnesses\<close>

text \<open>A serialiser for the messages of a list.\<close>

definition table_io :: "GroupInternals list \<Rightarrow> io" where
  "table_io ms = \<lparr>io_enc = (\<lambda>m. replicate (length (takeWhile (\<lambda>x. x \<noteq> m) ms)) CHR ''m''), io_dec = (\<lambda>f. ms ! length f),
     io_stamp = \<lparr>tv_sec = 0, tv_nsec = 0\<rparr>, io_rc = (\<lambda>_. 0), io_errno = 0\<rparr>"

lemma table_io_lossless: "lossless (table_io ms) (set ms)"
proof -
  have "ms ! length (takeWhile (\<lambda>x. x \<noteq> m) ms) = m" if "m \<in> set ms" for m
    using that by (induction ms) auto
  then show ?thesis by (simp add: lossless_def table_io_def)
qed

lemma table_io_rc: "io_rc (table_io ms) z = 0"
  by (simp add: table_io_def)

lemma lossless_mono: "lossless io M \<Longrightarrow> M' \<subseteq> M \<Longrightarrow> lossless io M'"
  by (auto simp: lossless_def)


definition ex_ballots :: "ballot list" where
  "ex_ballots = [(\<lambda>_. 5, 0, False, ex_group ''b'' ''a'', True), (\<lambda>_. 6, 0, False, ex_group ''x'' ''a'', False)]"

definition ex_round :: "GroupInternals list" where
  "ex_round = [value_proposal ''b'' ''p1'', value_proposal_to_clients ''a'' ''p1'', announce_msg ''p1'' ACCEPTED, announce_msg ''p1'' REJECTED,
     vote_message ''b'' ''p1'' True, vote_message ''x'' ''p1'' False]"

lemma ex_round_io:
  "list_all (ballot_ok (table_io ex_round) ''p1'') ex_ballots"
  "lossless (table_io ex_round) {value_proposal ''b'' ''p1'', value_proposal_to_clients ''a'' ''p1'', announce_msg ''p1'' ACCEPTED, announce_msg ''p1'' REJECTED}"
  using table_io_lossless [of ex_round, THEN lossless_mono]
  by (simp_all add: ex_ballots_def ballot_ok_def ex_group_ready ex_round_def)

theorem consensus_round_witness:
  "\<exists>gL1 gL2 z. receive_ballots (table_io ex_round) 1 ''p1'' ex_ballots gL1 = Inr gL2 \<and> on_wire gL2 = on_wire gL1 @ [z] \<and>
     FetchNextMessage (table_io ex_round) (\<lambda>_. 9) 0 False (Some 1) (Some z) (ex_group ''b'' ''a'') =
       Inr (call_component (OnAnnounce (GroupId ''T'' ''g'') ''p1'' True) (ex_group ''b'' ''a''))"
proof -
  have N: "GetKnownComponents (\<lambda>_. 0) 0 (g_known_nodes (ex_group ''a'' ''a'')) = [''b'']" "length (g_known_nodes (ex_group ''a'' ''a'')) = 1"
    by (simp_all add: ex_group_def Group_new_def GetKnownComponents_def timeout_defs)
  have bs: "distinct (map (\<lambda>(c, rnd, junk, gm, accept). g_component_id gm) ex_ballots)"
    "list_all (\<lambda>(c, rnd, junk, gm, accept). c 0 \<le> 0 + PROPOSE_PERIOD) ex_ballots"
    "length (filter (\<lambda>(c, rnd, junk, gm, accept). g_component_id gm \<in> set [''b''] \<and> accept) ex_ballots) = 1"
    by (simp_all add: ex_ballots_def)
  show ?thesis
    using consensus_round [OF table_io_rc ex_round_io(1), of "ex_group ''b'' ''a''" "ex_group ''a'' ''a''" 1 _ "\<lambda>_. 0" _ _ "ex_group ''b'' ''a''" 1 0 False
        "''42''" "\<lambda>_. 8" 0 False "\<lambda>_. 9" 0 False, OF _ _ _ _ _ _ _ _ _ refl _ _ refl refl] ex_round_io(2) bs
    by (simp add: N ex_group_ok ex_group_ready consensus_majority_def) blast
qed

definition ex_action :: TimeSyncCoordA where
  "ex_action = \<lparr>ts_actionId = ''act'', ts_tvSec = 100, ts_tvNsec = 7\<rparr>"

theorem action_reaches_members_witness:
  "let io = table_io [action_proposal ''b'' ''p1'' ex_action, action_proposal_to_clients ''a'' ''p1'' ex_action] in
   \<exists>gL1 z. on_wire gL1 = on_wire (ex_group ''a'' ''a'') @ [z] \<and>
     FetchNextMessage io (\<lambda>_. 9) 0 False (Some 1) (Some z) (ex_group ''b'' ''a'') =
       Inr (call_component (OnActionPropose (GroupId ''T'' ''g'') ''p1'' ''act'' \<lparr>tv_sec = 100, tv_nsec = 7\<rparr>) (ex_group ''b'' ''a''))"
proof -
  let ?ms = "[action_proposal ''b'' ''p1'' ex_action, action_proposal_to_clients ''a'' ''p1'' ex_action]"
  let ?l = "(GroupLead_new (\<lambda>_. 0) 200 0 ''a'')\<lparr>m_leaderId := ''a''\<rparr>"
  have t: "ex_action = \<lparr>ts_actionId = ''act'', ts_tvSec = trunc32 (tv_sec \<lparr>tv_sec = 100, tv_nsec = 7\<rparr>),
      ts_tvNsec = trunc32 (tv_nsec \<lparr>tv_sec = 100, tv_nsec = 7\<rparr>)\<rparr>"
    by (simp add: ex_action_def trunc32_id)
  have l: "g_leader (ex_group ''a'' ''a'') = Some ?l" "\<not> action_pending (\<lambda>_. 0) ''act'' ?l"
    by (simp_all add: ex_group_def action_pending_def GroupLead_new_def)
  have "lossless (table_io ?ms) {action_proposal ''b'' ''p1'' ex_action, action_proposal_to_clients ''a'' ''p1'' ex_action}"
    using table_io_lossless [of ?ms] by simp
  then show ?thesis
    using action_reaches_members [OF table_io_rc _ t _ _ _ _ _ _ _ l(1), of ?ms "ex_group ''b'' ''a''" "''p1''" 1 "ex_group ''b'' ''a''" 1 "\<lambda>_. 0" 0 False
        "\<lambda>_. 9" 0 False] l(2)
    by (simp add: ex_group_ok ex_group_ready Let_def trunc32_id) blast
qed

end
