(* ===== verification/Component.thy ===== *)
theory Component
  imports Group_Ops
begin

text \<open>
  Components: \<^verbatim>\<open>src/componentmodel/r_componentbase.cc\<close> and \<^verbatim>\<open>src/componentmodel/r_pyactor.cc\<close>.  The
  record \<open>component\<close> holds the ports by name, the groups by id, the group types of the actor
  and the scheduled action; \<open>cb_calls\<close> is the sequence of handlers called and \<open>cb_pipe\<close>
  the messages sent to the component thread.  One iteration of the thread \<^verbatim>\<open>component_actor\<close> is
  \<open>actor_step\<close>.
\<close>

section \<open>State\<close>

datatype comp_call =
    DispatchMessage string
  | DispatchInsideMessage string zmsg
  | CallScheduled nat u64

record component =
  cb_application :: string
  cb_actor :: string
  cb_name :: string
  cb_uuid :: string
  cb_has_security :: bool
  cb_grouptypes :: "group_type_conf list"
  cb_ports :: "(string, port) umap"
  cb_groups :: "(GroupId, group) omap"
  cb_timer_counter :: u64
  cb_scheduled_action :: "nat option"
  cb_calls :: "comp_call list"
  cb_pipe :: "zmsg list"

text \<open>The constructor and \<^verbatim>\<open>set_config\<close>; \<open>junk\<close> is the initial value of the timer counter.  The
  list of group types of the actor starts empty, and nothing ever adds to it.\<close>

definition ComponentBase_new :: "bool \<Rightarrow> string \<Rightarrow> u64 \<Rightarrow> string \<Rightarrow> string \<Rightarrow> string \<Rightarrow> component" where
  "ComponentBase_new security uuid junk application actor name =
     \<lparr>cb_application = application, cb_actor = actor, cb_name = name, cb_uuid = uuid,
      cb_has_security = security, cb_grouptypes = [], cb_ports = [], cb_groups = [],
      cb_timer_counter = junk, cb_scheduled_action = None, cb_calls = [], cb_pipe = []\<rparr>"

definition GetGroupType :: "string \<Rightarrow> component \<Rightarrow> group_type_conf option" where
  "GetGroupType groupTypeId c = find (\<lambda>t. gt_type_id t = groupTypeId) (cb_grouptypes c)"

section \<open>Ports\<close>

definition GetPortByName :: "string \<Rightarrow> component \<Rightarrow> port option" where
  "GetPortByName portName c = map_of (cb_ports c) portName"

text \<open>The typed getters: a port of that name that is of the class.\<close>

definition GetPortByNameAs :: "port_class \<Rightarrow> string \<Rightarrow> component \<Rightarrow> port option" where
  "GetPortByNameAs cls portName c =
     (case GetPortByName portName c of
        None \<Rightarrow> None | Some p \<Rightarrow> if GetPortAs cls (pt_class p) then Some p else None)"

definition GetPublisherPortByName :: "string \<Rightarrow> component \<Rightarrow> port option" where
  "GetPublisherPortByName = GetPortByNameAs CPublisherPort"
definition GetQueryPortByName :: "string \<Rightarrow> component \<Rightarrow> port option" where
  "GetQueryPortByName = GetPortByNameAs CQueryPort"
definition GetRequestPortByName :: "string \<Rightarrow> component \<Rightarrow> port option" where
  "GetRequestPortByName = GetPortByNameAs CRequestPort"
definition GetResponsePortByName :: "string \<Rightarrow> component \<Rightarrow> port option" where
  "GetResponsePortByName = GetPortByNameAs CResponsePort"
definition GetSubscriberPortByName :: "string \<Rightarrow> component \<Rightarrow> port option" where
  "GetSubscriberPortByName = GetPortByNameAs CSubscriberPort"

definition is_sender :: "port_class \<Rightarrow> bool" where
  "is_sender cls = (cls \<in> {CRequestPort, CResponsePort, CPublisherPort, CGroupPublisherPort, CInsidePort, CAnswerPort})"

definition put_port :: "port \<Rightarrow> component \<Rightarrow> component" where
  "put_port p c = c\<lparr>cb_ports := um_put (pc_port_name (pt_config p)) p (cb_ports c)\<rparr>"

record port_env =
  ev_host :: host_env
  ev_bind :: "string \<Rightarrow> int"
  ev_connect :: "string \<Rightarrow> int"
  ev_disco :: "DiscoReq \<Rightarrow> DiscoRep"
  ev_curve_key :: bool
  ev_junk :: int
  ev_pid :: int

definition InitPublisherPort :: "port_env \<Rightarrow> port_config \<Rightarrow> component \<Rightarrow> net_error + (component \<times> DiscoReq list)" where
  "InitPublisherPort ev cfg c =
     (case PublisherPort_new (ev_host ev) (ev_bind ev) (Some (cb_has_security c)) (ev_curve_key ev) (ev_junk ev)
             (ev_pid ev) (cb_application c) (cb_actor c) cfg of
        Inl e \<Rightarrow> Inl e | Inr (p, r) \<Rightarrow> Inr (put_port p c, [r]))"

definition InitResponsePort :: "port_env \<Rightarrow> port_config \<Rightarrow> component \<Rightarrow> net_error + (component \<times> DiscoReq list)" where
  "InitResponsePort ev cfg c =
     (case ResponsePort_new (ev_host ev) (ev_bind ev) (Some (cb_has_security c)) (ev_curve_key ev) (ev_junk ev)
             (ev_pid ev) (cb_application c) (cb_actor c) cfg of
        Inl e \<Rightarrow> Inl e | Inr (p, rs) \<Rightarrow> Inr (put_port p c, rs))"

definition InitAnswerPort :: "port_env \<Rightarrow> port_config \<Rightarrow> component \<Rightarrow> net_error + (component \<times> DiscoReq list)" where
  "InitAnswerPort ev cfg c =
     (case AnswerPort_new (ev_host ev) (ev_bind ev) (Some (cb_has_security c)) (ev_curve_key ev) (ev_junk ev)
             (ev_pid ev) (cb_application c) (cb_actor c) cfg of
        Inl e \<Rightarrow> Inl e | Inr (p, rs) \<Rightarrow> Inr (put_port p c, rs))"

definition InitSubscriberPort :: "port_env \<Rightarrow> port_config \<Rightarrow> component \<Rightarrow> net_error + component" where
  "InitSubscriberPort ev cfg c =
     (case SubscriberPort_Init (ev_host ev) (ev_disco ev) (ev_connect ev) (cb_application c) (cb_name c) (cb_actor c)
             (SubscriberPortBase_new CSubscriberPort cfg (Some (cb_has_security c)) (ev_curve_key ev) (ev_junk ev)) of
        Inl e \<Rightarrow> Inl e | Inr p \<Rightarrow> Inr (put_port p c))"

definition InitRequestPort :: "port_env \<Rightarrow> port_config \<Rightarrow> component \<Rightarrow> net_error + component" where
  "InitRequestPort ev cfg c =
     (case RequestPort_Init (ev_host ev) (ev_disco ev) (ev_connect ev) (cb_application c) (cb_name c) (cb_actor c)
             (RequestPort_new cfg (Some (cb_has_security c)) (ev_curve_key ev) (ev_junk ev)) of
        Inl e \<Rightarrow> Inl e | Inr p \<Rightarrow> Inr (put_port p c))"

definition InitQueryPort :: "port_env \<Rightarrow> port_config \<Rightarrow> component \<Rightarrow> net_error + component" where
  "InitQueryPort ev cfg c =
     (case QueryPort_Init (ev_host ev) (ev_disco ev) (ev_connect ev) (cb_application c) (cb_name c) (cb_actor c)
             (QueryPort_new cfg (Some (cb_has_security c)) (ev_curve_key ev) (ev_junk ev)) of
        Inl e \<Rightarrow> Inl e | Inr p \<Rightarrow> Inr (put_port p c))"

definition InitInsidePort :: "port_env \<Rightarrow> port_config \<Rightarrow> component \<Rightarrow> component" where
  "InitInsidePort ev cfg c =
     put_port (InsidePort_new BIND cfg (Some (cb_has_security c)) (ev_curve_key ev) (ev_junk ev)) c"

section \<open>Sending on ports\<close>

text \<open>A missing or wrong port is only logged and then dereferenced.\<close>

definition SendMessageOnPort ::
  "timespec \<Rightarrow> int \<Rightarrow> int \<Rightarrow> frame \<Rightarrow> string \<Rightarrow> component \<Rightarrow> group_error + (port_error \<times> component)" where
  "SendMessageOnPort stamp rc errno content portName c =
     (case GetPortByName portName c of
        None \<Rightarrow> Inl Null_pointer
      | Some p \<Rightarrow> if is_sender (pt_class p)
                  then (let (e, p') = SenderPort_Send stamp rc errno [content] p in Inr (e, put_port p' c))
                  else Inl Null_pointer)"

definition SendMessageOnPort_inside ::
  "timespec \<Rightarrow> int \<Rightarrow> int \<Rightarrow> zmsg \<Rightarrow> string \<Rightarrow> component \<Rightarrow> group_error + (bool \<times> component)" where
  "SendMessageOnPort_inside stamp rc errno msg portName c =
     (case GetPortByName portName c of
        None \<Rightarrow> Inr (False, c)
      | Some p \<Rightarrow> if GetPortAs CInsidePort (pt_class p)
                  then (let (e, p') = SenderPort_Send stamp rc errno msg p in Inr (pe_bool e, put_port p' c))
                  else Inl Null_pointer)"

definition SendMessageOnPort_answer ::
  "timespec \<Rightarrow> int \<Rightarrow> int \<Rightarrow> u64 \<Rightarrow> frame \<Rightarrow> string \<Rightarrow> message_params \<Rightarrow> component \<Rightarrow> group_error + (port_error \<times> component)" where
  "SendMessageOnPort_answer stamp rc errno now content portName params c =
     (case GetPortByNameAs CAnswerPort portName c of
        None \<Rightarrow> Inl Null_pointer
      | Some p \<Rightarrow> (let (e, p') = SendAnswer stamp rc errno now content params p in Inr (e, put_port p' c)))"

definition SendMessageOnPort_query ::
  "int \<Rightarrow> string \<Rightarrow> u64 option \<Rightarrow> frame \<Rightarrow> string \<Rightarrow> string \<Rightarrow> component \<Rightarrow> group_error + (port_error \<times> string \<times> component)" where
  "SendMessageOnPort_query rc msgId ts content portName requestId c =
     (case GetPortByNameAs CQueryPort portName c of
        None \<Rightarrow> Inl Null_pointer
      | Some p \<Rightarrow> (let (e, rid, p') = SendQuery rc msgId content ts requestId p in Inr (e, rid, put_port p' c)))"

abbreviation CMD_UPDATE_PORT :: string where "CMD_UPDATE_PORT \<equiv> ''portUpdate''"
abbreviation CMD_UPDATE_GROUP :: string where "CMD_UPDATE_GROUP \<equiv> ''groupUpdate''"

definition HandlePortUpdate :: "string \<Rightarrow> string \<Rightarrow> int \<Rightarrow> component \<Rightarrow> component" where
  "HandlePortUpdate portName host port c =
     c\<lparr>cb_pipe := cb_pipe c @ [[CMD_UPDATE_PORT, portName, host, to_string_int port]]\<rparr>"

section \<open>Groups\<close>

definition getGroupById :: "GroupId \<Rightarrow> component \<Rightarrow> group option" where
  "getGroupById gid c = map_of (cb_groups c) gid"

definition on_group :: "(group \<Rightarrow> bool \<times> group) \<Rightarrow> GroupId \<Rightarrow> component \<Rightarrow> bool \<times> component" where
  "on_group f gid c =
     (case getGroupById gid c of
        None \<Rightarrow> (False, c)
      | Some g \<Rightarrow> (let (b, g') = f g in (b, c\<lparr>cb_groups := om_put gid g' (cb_groups c)\<rparr>)))"

definition SendGroupMessage :: "io \<Rightarrow> GroupId \<Rightarrow> frame \<Rightarrow> string \<Rightarrow> component \<Rightarrow> bool \<times> component" where
  "SendGroupMessage io gid content portName c = on_group (Group_SendMessage io content portName) gid c"

definition comp_SendMessageToLeader :: "io \<Rightarrow> GroupId \<Rightarrow> frame \<Rightarrow> component \<Rightarrow> bool \<times> component" where
  "comp_SendMessageToLeader io gid content c = on_group (SendMessageToLeader io content) gid c"

definition IsLeader_group :: "group \<Rightarrow> component \<Rightarrow> bool" where
  "IsLeader_group g c = (cb_uuid c = leader_id g)"

definition comp_SendLeaderMessage :: "io \<Rightarrow> GroupId \<Rightarrow> frame \<Rightarrow> component \<Rightarrow> bool \<times> component" where
  "comp_SendLeaderMessage io gid content c =
     on_group (\<lambda>g. if \<not> IsLeader_group g c then (False, g) else SendLeaderMessage io content g) gid c"

definition IsLeader :: "GroupId \<Rightarrow> component \<Rightarrow> bool" where
  "IsLeader gid c = (case getGroupById gid c of None \<Rightarrow> False | Some g \<Rightarrow> IsLeader_group g c)"

definition IsLeaderAvailable :: "GroupId \<Rightarrow> component \<Rightarrow> bool" where
  "IsLeaderAvailable gid c = (case getGroupById gid c of None \<Rightarrow> False | Some g \<Rightarrow> leader_id g \<noteq> [])"

definition comp_GetLeaderId :: "GroupId \<Rightarrow> component \<Rightarrow> string" where
  "comp_GetLeaderId gid c = (case getGroupById gid c of None \<Rightarrow> [] | Some g \<Rightarrow> leader_id g)"

definition GetGroupMemberCount :: "clock \<Rightarrow> GroupId \<Rightarrow> component \<Rightarrow> u16 \<times> component" where
  "GetGroupMemberCount clk gid c =
     (case getGroupById gid c of
        None \<Rightarrow> (0, c)
      | Some g \<Rightarrow> (let (n, kn) = GetMemberCount clk 0 (g_known_nodes g)
                  in (n, c\<lparr>cb_groups := om_put gid (g\<lparr>g_known_nodes := kn\<rparr>) (cb_groups c)\<rparr>)))"

definition JoinGroup :: "init_env \<Rightarrow> clock \<Rightarrow> int \<Rightarrow> u32 \<Rightarrow> group_type_conf \<Rightarrow> GroupId \<Rightarrow> component \<Rightarrow> net_error + (bool \<times> component)" where
  "JoinGroup env clk rnd junk conf0 gid c =
     (if getGroupById gid c \<noteq> None then Inr (False, c)
      else case InitGroup env clk rnd junk (GetGroupType (group_type_id gid) c)
                  (Group_new (clk 0) conf0 gid (cb_uuid c)) of
             Inl e \<Rightarrow> Inl e
           | Inr (ok, g) \<Rightarrow>
               if ok then Inr (True, c\<lparr>cb_groups := om_put gid g (cb_groups c)\<rparr>) else Inr (False, c))"

definition LeaveGroup :: "GroupId \<Rightarrow> component \<Rightarrow> bool \<times> component" where
  "LeaveGroup gid c =
     (if getGroupById gid c = None then (False, c)
      else (True, c\<lparr>cb_groups := kv_del gid (cb_groups c)\<rparr>))"

text \<open>The overload for a temporary group id.\<close>

definition LeaveGroup_rvalue ::
  "init_env \<Rightarrow> clock \<Rightarrow> int \<Rightarrow> u32 \<Rightarrow> group_type_conf \<Rightarrow> GroupId \<Rightarrow> component \<Rightarrow> net_error + (bool \<times> component)" where
  "LeaveGroup_rvalue env clk rnd junk conf0 gid c = JoinGroup env clk rnd junk conf0 gid c"

definition GetGroupMemberships :: "component \<Rightarrow> GroupId list" where
  "GetGroupMemberships c = map fst (cb_groups c)"

definition GetGroupMembershipsByType :: "string \<Rightarrow> component \<Rightarrow> GroupId list" where
  "GetGroupMembershipsByType groupType c = filter (\<lambda>gid. group_type_id gid = groupType) (map fst (cb_groups c))"

definition IsMemberOf :: "GroupId \<Rightarrow> component \<Rightarrow> bool" where
  "IsMemberOf gid c = list_ex (\<lambda>g. GroupId_eq (fst g) gid) (cb_groups c)"

text \<open>\<open>uuid\<close> is the fresh proposal id.\<close>

definition SendPropose :: "io \<Rightarrow> string \<Rightarrow> GroupId \<Rightarrow> frame \<Rightarrow> component \<Rightarrow> string \<times> component" where
  "SendPropose io uuid gid content c =
     (let (b, c') = on_group (ProposeValueToLeader io content uuid) gid c in (if b then uuid else [], c'))"

definition ProposeAction :: "io \<Rightarrow> string \<Rightarrow> GroupId \<Rightarrow> string \<Rightarrow> timespec \<Rightarrow> component \<Rightarrow> string \<times> component" where
  "ProposeAction io uuid gid actionId absTime c =
     (let (b, c') = on_group (ProposeActionToLeader io uuid actionId absTime) gid c in (if b then uuid else [], c'))"

definition comp_SendVote :: "io \<Rightarrow> GroupId \<Rightarrow> string \<Rightarrow> bool \<Rightarrow> component \<Rightarrow> bool \<times> component" where
  "comp_SendVote io gid proposeId accept c = on_group (Group_SendVote io proposeId accept) gid c"

definition UpdateGroup :: "(string \<Rightarrow> int) \<Rightarrow> GroupUpdate \<Rightarrow> component \<Rightarrow> component" where
  "UpdateGroup connect upd c =
     (case getGroupById (gu_groupId upd) c of
        None \<Rightarrow> c
      | Some g \<Rightarrow> c\<lparr>cb_groups := om_put (gu_groupId upd) (ConnectToNewServices connect upd g) (cb_groups c)\<rparr>)"

section \<open>Timers of a component\<close>

text \<open>The wake-up time: the offset is unsigned and the difference is taken modulo \<^verbatim>\<open>2^64\<close> before it
  is stored in a signed field.\<close>

definition minus_u64 :: "int \<Rightarrow> u64 \<Rightarrow> int" where
  "minus_u64 a w = sint (of_int a - w :: u64)"

definition earlyWakeup :: "timespec \<Rightarrow> u64 \<Rightarrow> timespec" where
  "earlyWakeup tp wakeupOffset =
     (let s = minus_u64 (tv_sec tp) (wakeupOffset div 1000000000);
          n = minus_u64 (tv_nsec tp) (wakeupOffset mod 1000000000)
      in if n < 0 then \<lparr>tv_sec = s - 1, tv_nsec = n + BILLION\<rparr> else \<lparr>tv_sec = s, tv_nsec = n\<rparr>)"

text \<open>The timer thread sleeps until the wake-up time and sends the timer id; the value is the
  pair of both.\<close>

definition ScheduleAbsTimer :: "timespec \<Rightarrow> u64 \<Rightarrow> component \<Rightarrow> u64 \<times> (timespec \<times> u64) \<times> component" where
  "ScheduleAbsTimer tp wakeupOffset c =
     (cb_timer_counter c, (earlyWakeup tp wakeupOffset, cb_timer_counter c),
      c\<lparr>cb_timer_counter := cb_timer_counter c + 1\<rparr>)"

definition ScheduleAction :: "timespec \<Rightarrow> nat \<Rightarrow> u64 \<Rightarrow> component \<Rightarrow> u64 \<times> (timespec \<times> u64) \<times> component" where
  "ScheduleAction tp action wakeupOffset c =
     (cb_timer_counter c, (earlyWakeup tp wakeupOffset, cb_timer_counter c),
      c\<lparr>cb_scheduled_action := Some action, cb_timer_counter := cb_timer_counter c + 1\<rparr>)"

abbreviation TIMER_ACCURACY :: int where "TIMER_ACCURACY \<equiv> 50 * 1000"

text \<open>The busy wait: \<open>clk\<close> gives the readings of the real-time clock one after the other, and
  \<open>fuel\<close> bounds the number of readings.\<close>

definition wait_target :: "timespec \<Rightarrow> timespec" where
  "wait_target t =
     (let n = tv_nsec t - TIMER_ACCURACY
      in if n < 0 then \<lparr>tv_sec = tv_sec t - 1, tv_nsec = n + BILLION\<rparr> else t\<lparr>tv_nsec := n\<rparr>)"

fun wait_loop :: "nat \<Rightarrow> (nat \<Rightarrow> timespec) \<Rightarrow> nat \<Rightarrow> timespec \<Rightarrow> timespec option" where
  "wait_loop 0 clk k target = None"
| "wait_loop (Suc fuel) clk k target =
     (if timespec_greater (clk k) target then Some (clk k) else wait_loop fuel clk (Suc k) target)"

definition WaitUntil :: "nat \<Rightarrow> (nat \<Rightarrow> timespec) \<Rightarrow> timespec \<Rightarrow> timespec option" where
  "WaitUntil fuel clk targetTimepoint = wait_loop fuel clk 0 (wait_target targetTimepoint)"

section \<open>The component thread\<close>

datatype poll_event =
    PollTimeout
  | PollPipe "zmsg option"
  | PollOneShot zmsg
  | PollPort string zmsg

record actor_state =
  as_component :: component
  as_terminated :: bool

text \<open>An update of a port: connect a subscriber, request or query port of that name.\<close>

definition update_port :: "(string \<Rightarrow> int) \<Rightarrow> zmsg \<Rightarrow> component \<Rightarrow> component" where
  "update_port connect args c =
     (case args of
        portname # host # portnum # _ \<Rightarrow>
          (case GetPortByName portname c of
             None \<Rightarrow> c
           | Some p \<Rightarrow>
               (let endpoint = ''tcp://'' @ host @ '':'' @ portnum
                in if pt_type p = Subscriber then put_port (snd (ConnectToPublihser connect endpoint p)) c
                   else if pt_type p = Request \<or> pt_type p = Query
                   then put_port (snd (ConnectToResponse connect endpoint p)) c
                   else c))
      | _ \<Rightarrow> c)"

text \<open>\<open>dec_upd\<close> reads a discovery update from a frame.  Reading the group update of a message that holds a
  port update is an error of the caller.\<close>

definition on_pipe ::
  "(frame \<Rightarrow> DiscoUpd) \<Rightarrow> (string \<Rightarrow> int) \<Rightarrow> zmsg option \<Rightarrow> actor_state \<Rightarrow> group_error + (bool \<times> actor_state)" where
  "on_pipe dec_upd connect received a =
     (case received of
        None \<Rightarrow> Inr (False, a)
      | Some [] \<Rightarrow> Inl Null_pointer
      | Some (command # args) \<Rightarrow>
          if command = ''$TERM'' then Inr (True, a\<lparr>as_terminated := True\<rparr>)
          else if command = CMD_UPDATE_PORT
          then Inr (True, a\<lparr>as_component := update_port connect args (as_component a)\<rparr>)
          else if command = CMD_UPDATE_GROUP
          then (case args of
                  [] \<Rightarrow> Inl Null_pointer
                | body # _ \<Rightarrow>
                    (case dec_upd body of
                       DiscoGroupUpdate upd \<Rightarrow> Inr (True, a\<lparr>as_component := UpdateGroup connect upd (as_component a)\<rparr>)
                     | PortUpdate _ \<Rightarrow> Inl Union_misread))
          else Inr (True, a))"

definition call_handler :: "comp_call \<Rightarrow> actor_state \<Rightarrow> actor_state" where
  "call_handler h a = a\<lparr>as_component := (as_component a)\<lparr>cb_calls := cb_calls (as_component a) @ [h]\<rparr>\<rparr>"

text \<open>A one-shot timer fired: the scheduled action is called with the id in the message; an empty
  action throws.\<close>

definition on_oneshot :: "zmsg \<Rightarrow> actor_state \<Rightarrow> group_error + actor_state" where
  "on_oneshot msg a =
     (case msg of
        [] \<Rightarrow> Inl Null_pointer
      | idframe # _ \<Rightarrow>
          (case cb_scheduled_action (as_component a) of
             None \<Rightarrow> Inl Null_pointer
           | Some act \<Rightarrow> Inr (call_handler (CallScheduled act (frame_int64 idframe)) a)))"

text \<open>A message on a port.  On an answer or query port the frames are parsed and the parameters
  built, but nothing is dispatched and both are dropped; the ids are read as C strings.  When a frame is missing,
  \<^verbatim>\<open>zsock_recv\<close> succeeds and sets the pointers to null, which the parameters dereference.\<close>

definition on_port :: "string \<Rightarrow> zmsg \<Rightarrow> actor_state \<Rightarrow> group_error + actor_state" where
  "on_port portName msg a =
     (case GetPortByName portName (as_component a) of
        None \<Rightarrow> Inl Null_pointer
      | Some p \<Rightarrow>
          if GetPortAs CAnswerPort (pt_class p)
          then (case msg of
                  originId # messageId # body # timestamp # _ \<Rightarrow>
                    (let params = MessageParams (c_str originId) (c_str messageId) timestamp in Inr a)
                | _ \<Rightarrow> Inl Null_pointer)
          else if GetPortAs CQueryPort (pt_class p)
          then (case msg of
                  messageId # body # timestamp # _ \<Rightarrow>
                    (let params = MessageParams [] (c_str messageId) timestamp in Inr a)
                | _ \<Rightarrow> Inl Null_pointer)
          else if GetPortAs CInsidePort (pt_class p)
          then Inr (if as_terminated a then a else call_handler (DispatchInsideMessage portName msg) a)
          else if GetPortAs CRecvPort (pt_class p) \<or> GetPortAs CPeriodicTimer (pt_class p)
          then Inr (if as_terminated a then a else call_handler (DispatchMessage portName) a)
          else Inr a)"

record group_env =
  ge_io :: io
  ge_clk :: clock
  ge_now :: int
  ge_rnd :: int
  ge_junk :: bool
  ge_which :: "address option"
  ge_received :: "zmsg option"

fun process_groups ::
  "(GroupId \<Rightarrow> group_env) \<Rightarrow> (GroupId, group) omap \<Rightarrow> group_error + (GroupId, group) omap" where
  "process_groups ge [] = Inr []"
| "process_groups ge ((gid, g) # gs) =
     (let e = ge gid;
          g1 = snd (SendPingWithPeriod (ge_io e) (ge_clk e) (ge_now e) g)
      in case FetchNextMessage (ge_io e) (ge_clk e) (ge_rnd e) (ge_junk e) (ge_which e) (ge_received e) g1 of
           Inl err \<Rightarrow> Inl err
         | Inr g2 \<Rightarrow> (case process_groups ge gs of Inl err \<Rightarrow> Inl err | Inr gs' \<Rightarrow> Inr ((gid, g2) # gs')))"

text \<open>One iteration of the loop; the flag says whether the loop goes on.\<close>

definition actor_step ::
  "(frame \<Rightarrow> DiscoUpd) \<Rightarrow> (string \<Rightarrow> int) \<Rightarrow> (GroupId \<Rightarrow> group_env) \<Rightarrow> poll_event \<Rightarrow> actor_state
   \<Rightarrow> group_error + (bool \<times> actor_state)" where
  "actor_step dec_upd connect ge ev a =
     (case (case ev of
              PollTimeout \<Rightarrow> Inr (True, a)
            | PollPipe received \<Rightarrow> on_pipe dec_upd connect received a
            | PollOneShot msg \<Rightarrow> map_sum id (Pair True) (if as_terminated a then Inl Null_pointer else on_oneshot msg a)
            | PollPort portName msg \<Rightarrow> map_sum id (Pair True) (on_port portName msg a)) of
        Inl e \<Rightarrow> Inl e
      | Inr (False, a1) \<Rightarrow> Inr (False, a1)
      | Inr (True, a1) \<Rightarrow>
          (case process_groups ge (cb_groups (as_component a1)) of
             Inl e \<Rightarrow> Inl e
           | Inr gs \<Rightarrow> Inr (\<not> as_terminated a1, a1\<lparr>as_component := (as_component a1)\<lparr>cb_groups := gs\<rparr>\<rparr>)))"

text \<open>The loop of the thread over the events its poller reports.\<close>

definition component_iteration ::
  "(frame \<Rightarrow> DiscoUpd) \<Rightarrow> (string \<Rightarrow> int) \<Rightarrow> (GroupId \<Rightarrow> group_env) \<times> poll_event \<Rightarrow> bool \<times> actor_state
   \<Rightarrow> group_error + (bool \<times> actor_state)" where
  "component_iteration dec_upd connect x s = (case x of (ge, ev) \<Rightarrow> actor_step dec_upd connect ge ev (snd s))"

definition component_run ::
  "(frame \<Rightarrow> DiscoUpd) \<Rightarrow> (string \<Rightarrow> int) \<Rightarrow> ((GroupId \<Rightarrow> group_env) \<times> poll_event) list \<Rightarrow> actor_state
   \<Rightarrow> group_error + (bool \<times> actor_state)" where
  "component_run dec_upd connect es a = loop (\<lambda>s. \<not> fst s) (component_iteration dec_upd connect) es (True, a)"

section \<open>The invariant of a component\<close>

definition comp_ok :: "component \<Rightarrow> bool" where
  "comp_ok c \<longleftrightarrow> om_inv (cb_groups c) \<and> um_inv (cb_ports c) \<and>
     (\<forall>(gid, g) \<in> set (cb_groups c). g_group_id g = gid \<and> g_component_id g = cb_uuid c \<and> group_ok g)"

lemma comp_ok_new: "comp_ok (ComponentBase_new sec uuid junk app act name)"
  by (simp add: comp_ok_def ComponentBase_new_def om_inv_def um_inv_def)

lemma group_ids_fetch:
  assumes "FetchNextMessage io clk rnd junk which received g = Inr g'"
  shows "g_group_id g' = g_group_id g \<and> g_component_id g' = g_component_id g"
proof -
  have send: "g_group_id (snd (SendMessage_zmsg io z n h)) = g_group_id h \<and>
      g_component_id (snd (SendMessage_zmsg io z n h)) = g_component_id h" for z n h
    by (simp add: SendMessage_zmsg_def send_on_def split_beta split: option.split)
  have sends: "g_group_id (fold (\<lambda>m g. snd (SendMessage_zmsg io (f m) n g)) ms h) = g_group_id h \<and>
      g_component_id (fold (\<lambda>m g. snd (SendMessage_zmsg io (f m) n g)) ms h) = g_component_id h" for f n ms h
    by (induction ms arbitrary: h) (auto simp: send)
  have lead: "g_group_id h' = g_group_id h \<and> g_component_id h' = g_component_id h"
    if "leader_do io e h = Inr h'" for e h h'
    using that by (auto simp: leader_do_def sends split: option.splits prod.splits)
  have hb: "g_group_id (on_heartbeat io now rnd ty src h) = g_group_id h \<and>
      g_component_id (on_heartbeat io now rnd ty src h) = g_component_id h" for now ty src h
    by (simp add: on_heartbeat_def Let_def SendPong_def SendHeartBeat_def send_on_def split_beta split: option.split)
  show ?thesis
    using assms lead hb
    by (auto simp: FetchNextMessage_def on_internal_def on_consensus_leader_def on_consensus_member_def call_component_def
        split: option.splits list.splits if_splits GroupInternals.splits ConsensusBody.splits)
qed

lemma group_ids_ping:
  "g_group_id (snd (SendPingWithPeriod io clk now g)) = g_group_id g"
  "g_component_id (snd (SendPingWithPeriod io clk now g)) = g_component_id g"
  by (simp_all add: SendPingWithPeriod_def SendPing_def SendHeartBeat_def send_on_def split_beta split: option.split)

lemma group_ids_connect:
  "g_group_id (ConnectToNewServices cn upd g) = g_group_id g \<and> g_component_id (ConnectToNewServices cn upd g) = g_component_id g"
proof -
  have "g_group_id (fold (\<lambda>svc g. g\<lparr>g_ports := F svc g\<rparr>) svcs g) = g_group_id g \<and>
    g_component_id (fold (\<lambda>svc g. g\<lparr>g_ports := F svc g\<rparr>) svcs g) = g_component_id g" for F svcs g
    by (induction svcs arbitrary: g) auto
  then show ?thesis by (simp add: ConnectToNewServices_def)
qed

lemma process_groups_ok:
  "process_groups ge gs = Inr gs' \<Longrightarrow> map fst gs' = map fst gs \<and>
     ((\<forall>(gid, g) \<in> set gs. g_group_id g = gid \<and> g_component_id g = u \<and> group_ok g) \<longrightarrow>
      (\<forall>(gid, g) \<in> set gs'. g_group_id g = gid \<and> g_component_id g = u \<and> group_ok g))"
proof (induction gs arbitrary: gs')
  case (Cons p gs)
  obtain gid g where p: "p = (gid, g)" by (cases p)
  obtain g2 rest where r: "FetchNextMessage (ge_io (ge gid)) (ge_clk (ge gid)) (ge_rnd (ge gid)) (ge_junk (ge gid))
      (ge_which (ge gid)) (ge_received (ge gid)) (snd (SendPingWithPeriod (ge_io (ge gid)) (ge_clk (ge gid)) (ge_now (ge gid)) g))
      = Inr g2" "process_groups ge gs = Inr rest" "gs' = (gid, g2) # rest"
    using Cons.prems by (auto simp: p Let_def split: sum.splits)
  show ?case
    using Cons.IH [OF r(2)] group_ids_fetch [OF r(1)] fetch_ok [OF ping_ok r(1)] p r(3) group_ids_ping by auto
qed simp

lemma put_port_frame [simp]:
  "cb_groups (put_port p c) = cb_groups c" "cb_uuid (put_port p c) = cb_uuid c"
  "cb_grouptypes (put_port p c) = cb_grouptypes c"
  "um_inv (cb_ports c) \<Longrightarrow> um_inv (cb_ports (put_port p c))"
  by (simp_all add: put_port_def um.inv_put)

lemma update_port_ok: "comp_ok c \<Longrightarrow> comp_ok (update_port cn args c)"
  by (auto simp: update_port_def comp_ok_def Let_def split: list.split option.split)

lemma UpdateGroup_ok: "comp_ok c \<Longrightarrow> comp_ok (UpdateGroup cn upd c)"
  using om.item_get [of "cb_groups c"]
  by (auto simp: UpdateGroup_def comp_ok_def getGroupById_def om.inv_put om.put_in connect_all_ok group_ids_connect
      split: option.splits) (metis (mono_tags, lifting) case_prodD group_ids_connect connect_all_ok)+

lemma call_handler_ok: "comp_ok (as_component a) \<Longrightarrow> comp_ok (as_component (call_handler h a))"
  by (simp add: comp_ok_def call_handler_def)

lemma on_pipe_ok: "on_pipe du cn received a = Inr (go, a1) \<Longrightarrow> comp_ok (as_component a) \<Longrightarrow> comp_ok (as_component a1)"
  by (auto simp: on_pipe_def update_port_ok UpdateGroup_ok split: option.splits list.splits if_splits DiscoUpd.splits)

lemma on_oneshot_ok: "on_oneshot msg a = Inr a1 \<Longrightarrow> comp_ok (as_component a) \<Longrightarrow> comp_ok (as_component a1)"
  by (auto simp: on_oneshot_def call_handler_ok split: list.splits option.splits)

lemma on_port_ok: "on_port pn msg a = Inr a1 \<Longrightarrow> comp_ok (as_component a) \<Longrightarrow> comp_ok (as_component a1)"
  by (auto simp: on_port_def call_handler_ok split: list.splits option.splits if_splits)

lemma actor_step_ok:
  assumes "comp_ok (as_component a)" "actor_step dec_upd connect ge ev a = Inr (go, a')"
  shows "comp_ok (as_component a')"
proof -
  let ?first = "case ev of
              PollTimeout \<Rightarrow> Inr (True, a)
            | PollPipe received \<Rightarrow> on_pipe dec_upd connect received a
            | PollOneShot msg \<Rightarrow> map_sum id (Pair True) (if as_terminated a then Inl Null_pointer else on_oneshot msg a)
            | PollPort portName msg \<Rightarrow> map_sum id (Pair True) (on_port portName msg a)"
  obtain go1 a1 where first: "?first = Inr (go1, a1)"
    using assms(2) by (cases ?first) (auto simp: actor_step_def)
  have ok1: "comp_ok (as_component a1)"
    using first assms(1) on_pipe_ok on_oneshot_ok on_port_ok
    by (cases ev) (auto simp: map_sum_def split: sum.splits if_splits)
  show ?thesis
  proof (cases go1)
    case False
    then show ?thesis using assms(2) first ok1 by (simp add: actor_step_def)
  next
    case True
    then obtain gs where gs: "process_groups ge (cb_groups (as_component a1)) = Inr gs"
      and a': "a' = a1\<lparr>as_component := (as_component a1)\<lparr>cb_groups := gs\<rparr>\<rparr>"
      using assms(2) first by (auto simp: actor_step_def split: sum.splits)
    show ?thesis
      using process_groups_ok [OF gs, of "cb_uuid (as_component a1)"] ok1
      by (simp add: a' comp_ok_def om_inv_def)
  qed
qed

interpretation component_loop: event_loop "\<lambda>s. \<not> fst s" "component_iteration dec_upd connect" "\<lambda>s. comp_ok (as_component (snd s))"
  for dec_upd connect
  by unfold_locales (auto simp: component_iteration_def split: prod.splits intro: actor_step_ok)

text \<open>C10: the thread of a component, whatever it receives and however long it runs, keeps the component well
  formed: its groups are ordered by id, each is well formed and belongs to the component.\<close>

theorem component_run_keeps_comp_ok:
  assumes "comp_ok (as_component a)" "component_run dec_upd connect es a = Inr (go, a')"
  shows "comp_ok (as_component a')"
  using component_loop.loop_inv [of "(True, a)" dec_upd connect es "(go, a')"] assms by (simp add: component_run_def)

section \<open>Group membership\<close>

text \<open>no group can be joined.  The group types of an actor are kept in a list that is never
  filled, so the configuration of the group type is never found and \<^verbatim>\<open>InitGroup\<close> gives up: a component
  whose actor has no group types joins no group, and joining changes nothing.\<close>

theorem no_group_can_be_joined:
  "JoinGroup env clk rnd junk conf0 gid (ComponentBase_new sec uuid junk' app act name) =
     Inr (False, ComponentBase_new sec uuid junk' app act name)"
  by (simp add: JoinGroup_def ComponentBase_new_def getGroupById_def GetGroupType_def InitGroup_def)

text \<open>leaving a group named by a temporary id does nothing.  The overload of \<^verbatim>\<open>LeaveGroup\<close> for a temporary
  calls \<^verbatim>\<open>JoinGroup\<close>: a member is still a member afterwards and the call returns \<^verbatim>\<open>false\<close>, whereas
  the other overload removes the group.\<close>

theorem leave_by_temporary_keeps_group:
  assumes "getGroupById gid c = Some g" "om_inv (cb_groups c)"
  shows "LeaveGroup_rvalue env clk rnd junk conf0 gid c = Inr (False, c)
    \<and> fst (LeaveGroup gid c) \<and> getGroupById gid (snd (LeaveGroup gid c)) = None"
  using assms by (simp add: LeaveGroup_rvalue_def JoinGroup_def LeaveGroup_def getGroupById_def om.get_del)

lemma leader_send_result:
  "publisher_named INTERNAL_PUB_NAME g \<noteq> None \<Longrightarrow> fst (SendMessage_zmsg io msg INTERNAL_PUB_NAME g) = (io_rc io msg \<noteq> 0)"
  using send_result [of INTERNAL_PUB_NAME g] by auto

text \<open>C37: the proposal id is handed out only when the proposal was not sent.  \<^verbatim>\<open>SendPropose\<close> returns
  the id when the group reports success, and the group reports success exactly when the send fails.\<close>

theorem propose_returns_id_on_failure:
  assumes "getGroupById gid c = Some g" "leader_id g \<noteq> []" "publisher_named INTERNAL_PUB_NAME g \<noteq> None"
    and "uuid \<noteq> []" "\<And>z. io_rc io z = rc"
  shows "fst (SendPropose io uuid gid content c) = (if rc = 0 then [] else uuid)"
  using assms leader_send_result [OF assms(3)]
  by (simp add: SendPropose_def on_group_def ProposeValueToLeader_def split_beta)

section \<open>Timers\<close>

lemma sint_of_int_small: "- (2 ^ 63) \<le> x \<Longrightarrow> x < 2 ^ 63 \<Longrightarrow> sint (of_int x :: u64) = x"
  by (simp add: sint_sbintrunc' signed_take_bit_int_eq_self)

lemma minus_u64_small:
  assumes "0 \<le> a" "a < 2 ^ 63" "uint w < 2 ^ 63"
  shows "minus_u64 a w = a - uint w"
proof -
  have "of_int a - w = (of_int (a - uint w) :: u64)" by simp
  moreover have "sint (of_int (a - uint w) :: u64) = a - uint w"
    using assms uint_ge_0 [of w] by (intro sint_of_int_small) (linarith, linarith)
  ultimately show ?thesis by (simp only: minus_u64_def)
qed

text \<open>C23: a scheduled timer wakes up exactly the given offset before its time point: although the
  offset is unsigned and is subtracted modulo \<^verbatim>\<open>2^64\<close>, the wake-up time is the normalised time
  point minus the offset.\<close>

theorem early_wakeup_exact:
  assumes "ts_normal tp" "0 \<le> tv_sec tp" "tv_sec tp < 2 ^ 62"
  shows "ts_ns (earlyWakeup tp w) = ts_ns tp - uint w \<and> ts_normal (earlyWakeup tp w)"
proof -
  have w: "0 \<le> uint w" "uint w < 2 ^ 64" using unsigned_less [of w] by simp_all
  have parts: "uint (w div 1000000000) = uint w div 1000000000" "uint (w mod 1000000000) = uint w mod 1000000000"
    by (simp_all add: uint_div uint_mod)
  have lt: "uint (w div 1000000000) < 2 ^ 63" "uint (w mod 1000000000) < 2 ^ 63" using w by (simp_all add: parts)
  have s: "minus_u64 (tv_sec tp) (w div 1000000000) = tv_sec tp - uint w div 1000000000"
    using minus_u64_small [OF assms(2) _ lt(1)] assms(3) by (simp add: parts)
  have n: "minus_u64 (tv_nsec tp) (w mod 1000000000) = tv_nsec tp - uint w mod 1000000000"
    using minus_u64_small [OF _ _ lt(2), of "tv_nsec tp"] assms(1) by (simp add: parts ts_normal_def)
  have "uint w div 1000000000 * 1000000000 + uint w mod 1000000000 = uint w" by simp
  then have "- (uint w mod 1000000000) - 1000000000 * (uint w div 1000000000) = - uint w" by linarith
  moreover have "uint w mod 1000000000 < 1000000000" "0 \<le> uint w mod 1000000000" by simp_all
  ultimately show ?thesis using assms(1) by (auto simp: earlyWakeup_def s n ts_ns_def ts_normal_def Let_def)
qed

theorem early_wakeup_exact_witness:
  "ts_ns (earlyWakeup \<lparr>tv_sec = 10, tv_nsec = 5\<rparr> 2000000010) = 7999999995 \<and>
   ts_normal (earlyWakeup \<lparr>tv_sec = 10, tv_nsec = 5\<rparr> 2000000010)"
  using early_wakeup_exact [of "\<lparr>tv_sec = 10, tv_nsec = 5\<rparr>" 2000000010]
  by (simp add: ts_normal_def ts_ns_def)

lemma wait_loop_reads:
  assumes "\<forall>i < n. \<not> timespec_greater (clk (k + i)) target" "timespec_greater (clk (k + n)) target" "n < fuel"
  shows "wait_loop fuel clk k target = Some (clk (k + n))"
  using assms
proof (induction n arbitrary: k fuel)
  case 0
  then show ?case by (cases fuel) auto
next
  case (Suc n)
  obtain f where f: "fuel = Suc f" using Suc.prems(3) by (cases fuel) auto
  have "\<not> timespec_greater (clk k) target" using Suc.prems(1) by (metis add.right_neutral zero_less_Suc)
  moreover have "wait_loop f clk (Suc k) target = Some (clk (Suc k + n))"
    using Suc.prems f by (intro Suc.IH) (metis Suc_less_eq add_Suc add_Suc_right, simp, simp)
  ultimately show ?case by (simp add: f)
qed

lemma wait_target_ns: "ts_normal t \<Longrightarrow> ts_ns (wait_target t) = ts_ns t - TIMER_ACCURACY \<and> ts_normal (wait_target t)"
  by (auto simp: wait_target_def Let_def ts_ns_def ts_normal_def)

text \<open>C24: the busy wait ends and is accurate: once the clock passes the target, \<^verbatim>\<open>WaitUntil\<close> returns with
  the first reading later than 50 microseconds before the target, after as many readings.\<close>

theorem wait_until_returns:
  assumes "ts_normal target" "\<forall>i. ts_normal (clk i)"
    and "\<forall>i < n. ts_ns (clk i) \<le> ts_ns target - TIMER_ACCURACY" "ts_ns (clk n) > ts_ns target - TIMER_ACCURACY"
    and "n < fuel"
  shows "WaitUntil fuel clk target = Some (clk n)"
  using wait_loop_reads [of n clk 0 "wait_target target" fuel] wait_target_ns [OF assms(1)] assms
  by (simp add: WaitUntil_def timespec_greater_iff linorder_not_less)

theorem wait_until_returns_witness:
  "WaitUntil 3 (\<lambda>i. \<lparr>tv_sec = int i, tv_nsec = 0\<rparr>) \<lparr>tv_sec = 2, tv_nsec = 10\<rparr> = Some \<lparr>tv_sec = 2, tv_nsec = 0\<rparr>"
  using wait_until_returns [of "\<lparr>tv_sec = 2, tv_nsec = 10\<rparr>" "\<lambda>i. \<lparr>tv_sec = int i, tv_nsec = 0\<rparr>" 2 3]
  by (simp add: ts_normal_def ts_ns_def)

text \<open>a second scheduled action replaces the first.  Two actions are scheduled before the first
  timer fires; then both timers call the second action, one with each timer id.\<close>

theorem second_action_replaces_first:
  assumes "ScheduleAction tp1 act1 off1 c = (id1, t1, c1)" "ScheduleAction tp2 act2 off2 c1 = (id2, t2, c2)"
    and "on_oneshot [int64_frame id1] (a\<lparr>as_component := c2\<rparr>) = Inr a1" "on_oneshot [int64_frame id2] a1 = Inr a2"
  shows "cb_calls (as_component a2) = cb_calls c @ [CallScheduled act2 id1, CallScheduled act2 id2]"
proof -
  have c2: "cb_scheduled_action c2 = Some act2" "cb_calls c2 = cb_calls c"
    using assms(1,2) by (auto simp: ScheduleAction_def)
  then have a1: "a1 = call_handler (CallScheduled act2 id1) (a\<lparr>as_component := c2\<rparr>)"
    using assms(3) by (simp add: on_oneshot_def)
  then have "a2 = call_handler (CallScheduled act2 id2) a1"
    using assms(4) c2 by (simp add: on_oneshot_def call_handler_def)
  then show ?thesis using c2 by (simp add: a1 call_handler_def)
qed

definition ex_component :: component where
  "ex_component = ComponentBase_new False ''c1'' 7 ''app'' ''actor'' ''comp''"

definition ex_actor :: actor_state where
  "ex_actor = \<lparr>as_component = ex_component, as_terminated = False\<rparr>"

theorem second_action_replaces_first_witness:
  "let t = \<lparr>tv_sec = 10, tv_nsec = 0\<rparr>;
       (id1, _, c1) = ScheduleAction t 1 0 ex_component;
       (id2, _, c2) = ScheduleAction t 2 0 c1
   in \<exists>a1 a2. on_oneshot [int64_frame id1] (ex_actor\<lparr>as_component := c2\<rparr>) = Inr a1 \<and>
        on_oneshot [int64_frame id2] a1 = Inr a2 \<and> cb_calls (as_component a2) = [CallScheduled 2 7, CallScheduled 2 8]"
  using second_action_replaces_first [of "\<lparr>tv_sec = 10, tv_nsec = 0\<rparr>" 1 0 ex_component _ _ _ "\<lparr>tv_sec = 10, tv_nsec = 0\<rparr>" 2 0
      _ _ _ ex_actor]
  by (simp add: ScheduleAction_def ex_component_def ComponentBase_new_def on_oneshot_def call_handler_def)

section \<open>Queries and answers\<close>

text \<open>a message that arrives on an answer or a query port reaches no handler of the component.  The
  thread splits the frames and builds the parameters, and then drops both: with enough frames nothing changes, with
  fewer the missing pointers are dereferenced.\<close>

theorem answer_and_query_not_dispatched:
  assumes "GetPortByName portName (as_component a) = Some p" "pt_class p \<in> {CAnswerPort, CQueryPort}"
  shows "on_port portName msg a = (if (if pt_class p = CAnswerPort then 4 else 3) \<le> length msg then Inr a else Inl Null_pointer)"
  using assms by (auto simp: on_port_def GetPortAs_def Let_def split: list.split)

definition ex_port_conf :: "string \<Rightarrow> port_config" where
  "ex_port_conf n = \<lparr>pc_port_name = n, pc_message_type = ''T'', pc_is_local = True, pc_is_timed = False\<rparr>"

definition ex_async :: "port_class \<Rightarrow> string \<Rightarrow> port" where
  "ex_async cls n = (QueryPort_new (ex_port_conf n) (Some False) False 0)\<lparr>pt_class := cls\<rparr>"

lemma ex_async_simps [simp]:
  "GetPortByName n (put_port (ex_async cls n) c) = Some (ex_async cls n)" "pt_class (ex_async cls n) = cls"
  "pt_socket (ex_async cls n) = Some (zsock_new ZMQ_DEALER)" "pt_config (ex_async cls n) = ex_port_conf n"
  "cb_calls (put_port p c) = cb_calls c"
  by (simp_all add: GetPortByName_def put_port_def ex_async_def ex_port_conf_def QueryPort_new_def PortBase_new_def um_get_put)

theorem answer_and_query_not_dispatched_witness:
  "on_port ''q'' [''id'', ''body'', []] (ex_actor\<lparr>as_component := put_port (ex_async CQueryPort ''q'') ex_component\<rparr>) =
     Inr (ex_actor\<lparr>as_component := put_port (ex_async CQueryPort ''q'') ex_component\<rparr>)"
  using answer_and_query_not_dispatched
    [of "''q''" "ex_actor\<lparr>as_component := put_port (ex_async CQueryPort ''q'') ex_component\<rparr>" "ex_async CQueryPort ''q''"
      "[''id'', ''body'', []]"]
  by simp

text \<open>C18: a query is lost.  The dealer socket of the query port sends what \<^verbatim>\<open>SendQuery\<close> builds and reports success
  with a request id; the router socket of the answer port puts the identity of the sender before it.  The thread of
  the component with the answer port goes on, in this iteration and in every later one, exactly as if its poll had
  timed out: no handler ever sees the query.  A message with fewer than four frames, which any peer can send, stops
  the thread.\<close>

theorem query_is_lost:
  assumes "pt_socket q = Some sq" "SendQuery 0 msgId content ts rid0 q = (e, rid, q')"
    and "GetPortByName pn (as_component a) = Some p" "pt_class p = CAnswerPort"
  shows "rid = msgId \<and>
    component_run dec_upd connect ((ge, PollPort pn (identity # last (so_sent (the (pt_socket q'))))) # es) a =
      component_run dec_upd connect ((ge, PollTimeout) # es) a \<and>
    (length short < 4 \<longrightarrow> component_run dec_upd connect ((ge, PollPort pn short) # es) a = Inl Null_pointer)"
proof -
  have "rid = msgId" and q': "length (last (so_sent (the (pt_socket q')))) = 3"
    using assms(1,2) by (auto simp: SendQuery_def on_socket_def)
  moreover have "actor_step dec_upd connect ge (PollPort pn (identity # last (so_sent (the (pt_socket q'))))) a =
      actor_step dec_upd connect ge PollTimeout a"
    using q' answer_and_query_not_dispatched [OF assms(3)] assms(4) by (simp add: actor_step_def)
  moreover have "length short < 4 \<Longrightarrow> actor_step dec_upd connect ge (PollPort pn short) a = Inl Null_pointer"
    using answer_and_query_not_dispatched [OF assms(3)] assms(4) by (simp add: actor_step_def)
  ultimately show ?thesis by (simp add: component_run_def component_iteration_def)
qed

theorem query_is_lost_witness:
  "let q = ex_async CQueryPort ''q'';
       a = ex_actor\<lparr>as_component := put_port (ex_async CAnswerPort ''p'') ex_component\<rparr>
   in last (so_sent (the (pt_socket (snd (snd (SendQuery 0 ''id7'' ''ask'' (Some 5) [] q)))))) = [''id7'', ''ask'', int64_frame 5] \<and>
      component_run (\<lambda>_. undefined) (\<lambda>_. 0) [(undefined, PollPort ''p'' [''me'', ''id7'', ''ask'', int64_frame 5])] a =
      component_run (\<lambda>_. undefined) (\<lambda>_. 0) [(undefined, PollTimeout)] a"
  using query_is_lost [of "ex_async CQueryPort ''q''" "zsock_new ZMQ_DEALER" "''id7''" "''ask''" "Some 5" "[]" "PortError False 0" "''id7''"
      "snd (snd (SendQuery 0 ''id7'' ''ask'' (Some 5) [] (ex_async CQueryPort ''q'')))" "''p''"
      "ex_actor\<lparr>as_component := put_port (ex_async CAnswerPort ''p'') ex_component\<rparr>" "ex_async CAnswerPort ''p''"
      "\<lambda>_. undefined" "\<lambda>_. 0" undefined "''me''" "[]"]
  by (simp add: SendQuery_def on_socket_def Let_def)

section \<open>Examples\<close>

definition ex_member :: component where
  "ex_member = ex_component\<lparr>cb_groups := [(GroupId ''T'' ''g'', ex_group ''c1'' ''c1'')]\<rparr>"

definition ex_env :: "GroupId \<Rightarrow> group_env" where
  "ex_env gid = \<lparr>ge_io = ex_io (IntGroupMessage []) (IntGroupMessage []), ge_clk = \<lambda>_. 0, ge_now = 0, ge_rnd = 200,
     ge_junk = False, ge_which = Some 1, ge_received = None\<rparr>"

lemma ex_member_ok: "comp_ok ex_member"
  by (simp add: comp_ok_def ex_member_def ex_component_def ComponentBase_new_def om_inv_def um_inv_def ex_group_ok)

lemma ex_member_get: "getGroupById (GroupId ''T'' ''g'') ex_member = Some (ex_group ''c1'' ''c1'')"
  by (simp add: getGroupById_def ex_member_def)

lemma no_message_no_change: "FetchNextMessage io clk rnd junk (Some a) None g = Inr g"
  by (simp add: FetchNextMessage_def split: option.split)

lemma ex_iteration: "\<exists>gs. process_groups ex_env [(gid, g)] = Inr gs"
  by (simp add: ex_env_def no_message_no_change)

theorem component_run_keeps_comp_ok_witness:
  "\<exists>go a'. component_run (\<lambda>_. undefined) (\<lambda>_. 0) [(ex_env, PollTimeout)] (ex_actor\<lparr>as_component := ex_member\<rparr>) = Inr (go, a')
     \<and> comp_ok (as_component a')"
proof -
  obtain go a' where "actor_step (\<lambda>_. undefined) (\<lambda>_. 0) ex_env PollTimeout (ex_actor\<lparr>as_component := ex_member\<rparr>) = Inr (go, a')"
    using ex_iteration [of "GroupId ''T'' ''g''" "ex_group ''c1'' ''c1''"]
    by (auto simp: actor_step_def ex_actor_def ex_member_def simp del: process_groups.simps)
  then have "component_run (\<lambda>_. undefined) (\<lambda>_. 0) [(ex_env, PollTimeout)] (ex_actor\<lparr>as_component := ex_member\<rparr>) = Inr (go, a')"
    by (simp add: component_run_def component_iteration_def)
  then show ?thesis using component_run_keeps_comp_ok [of "ex_actor\<lparr>as_component := ex_member\<rparr>"] ex_member_ok by fastforce
qed

theorem leave_by_temporary_keeps_group_witness:
  "getGroupById (GroupId ''T'' ''g'') (snd (LeaveGroup (GroupId ''T'' ''g'') ex_member)) = None"
  using leave_by_temporary_keeps_group [OF ex_member_get] ex_member_ok by (simp add: comp_ok_def)

theorem propose_returns_id_on_failure_witness:
  "fst (SendPropose (ex_io (IntGroupMessage []) (IntGroupMessage [])) ''u'' (GroupId ''T'' ''g'') ''v'' ex_member) = []"
  using propose_returns_id_on_failure [OF ex_member_get, of "''u''" "ex_io (IntGroupMessage []) (IntGroupMessage [])" 0 "''v''"]
    ex_group_ready [of "''c1''" "''c1''"] by (auto simp: ex_io_def ready_def)

end
