(* ===== verification/Timers.thy ===== *)
theory Timers
  imports Ports
begin

text \<open>
  The timers: \<^verbatim>\<open>src/componentmodel/ports/r_periodictimer.cc\<close> and
  \<^verbatim>\<open>src/componentmodel/r_oneshottimer.cc\<close>.  A periodic timer is shared by two threads, the timer thread
  \<^verbatim>\<open>ptimeractor\<close> and the component that calls \<^verbatim>\<open>Start\<close>, \<^verbatim>\<open>Halt\<close>, \<^verbatim>\<open>delay\<close> and \<^verbatim>\<open>Stop\<close>; the record
  \<open>ptimer\<close> holds the members of the class, the commands waiting in the pipe and the locals of the
  thread with its program counter.  A thread step is \<open>timer_thread\<close>, its argument what the
  environment answers.  \<^verbatim>\<open>Start\<close> and \<^verbatim>\<open>Halt\<close> test the flag, change it and send without a lock, so they are steps of
  their own as well: \<open>ti_call\<close> says where the call of the component stands, and the thread halts itself in three
  steps.  \<open>timer_do\<close> is one step of either side; \<open>Timer_Start\<close> and \<open>Timer_Halt\<close> are the calls when nothing comes
  in between.  The sums with \<^verbatim>\<open>1E9\<close> are done
  in double precision by the code; they are integers here, which agree below \<open>2^53\<close>.
\<close>

section \<open>The periodic timer\<close>

datatype timer_pc = At_begin | At_top | At_send | At_halt | At_clear | At_tell | At_poll | At_end

text \<open>Where the call of the component stands: after the test of \<^verbatim>\<open>Start\<close> the flag is set, the clock read and the command
  sent; after the test of \<^verbatim>\<open>Halt\<close> the flag is cleared and the command sent.\<close>

datatype call_pc = No_call | Start_set | Start_clock | Start_send | Halt_clear | Halt_send

record ptimer =
  ti_interval :: u64
  ti_delay :: timespec
  ti_now :: timespec
  ti_has_started :: bool
  ti_pipe :: "string list"
  ti_started :: bool
  ti_period :: timespec
  ti_frame :: timespec
  ti_fired :: "timespec list"
  ti_pc :: timer_pc
  ti_call :: call_pc

abbreviation CMD_TERM :: string where "CMD_TERM \<equiv> ''$TERM''"
abbreviation CMD_START :: string where "CMD_START \<equiv> ''$START''"
abbreviation CMD_HALT :: string where "CMD_HALT \<equiv> ''$HALT''"

abbreviation ts_zero :: timespec where "ts_zero \<equiv> \<lparr>tv_sec = 0, tv_nsec = 0\<rparr>"

text \<open>\<open>junk\<close> stands for the members that are not initialised.\<close>

definition PeriodicTimer_new :: "timespec \<Rightarrow> u64 \<Rightarrow> ptimer" where
  "PeriodicTimer_new junk period =
     \<lparr>ti_interval = period, ti_delay = ts_zero, ti_now = junk, ti_has_started = False, ti_pipe = [],
      ti_started = False, ti_period = junk, ti_frame = junk, ti_fired = [], ti_pc = At_begin, ti_call = No_call\<rparr>"

definition TimerChannel :: "string \<Rightarrow> string" where
  "TimerChannel port_name = ''inproc://timer_'' @ port_name"

definition has_delay :: "ptimer \<Rightarrow> bool" where
  "has_delay t \<longleftrightarrow> ti_interval t = 0"

text \<open>\<^verbatim>\<open>Start\<close> and \<^verbatim>\<open>Halt\<close> as they go when no step of the other thread comes in between; \<open>call_step\<close> below has their
  single steps, and \<open>calls_undisturbed\<close> says how the two agree.\<close>

definition Timer_Start :: "timespec \<Rightarrow> ptimer \<Rightarrow> ptimer" where
  "Timer_Start clock t =
     (if \<not> ti_has_started t
      then t\<lparr>ti_has_started := True, ti_now := clock, ti_pipe := ti_pipe t @ [CMD_START]\<rparr> else t)"

definition Timer_Halt :: "ptimer \<Rightarrow> ptimer" where
  "Timer_Halt t =
     (if ti_has_started t then t\<lparr>ti_has_started := False, ti_pipe := ti_pipe t @ [CMD_HALT]\<rparr> else t)"

definition Timer_delay :: "timespec \<Rightarrow> ptimer \<Rightarrow> ptimer" where
  "Timer_delay value t = t\<lparr>ti_delay := value\<rparr>"

text \<open>\<^verbatim>\<open>zactor_destroy\<close> sends this command and waits for the thread to end.\<close>

definition Timer_Stop :: "ptimer \<Rightarrow> ptimer" where
  "Timer_Stop t = t\<lparr>ti_pipe := ti_pipe t @ [CMD_TERM]\<rparr>"

text \<open>A frame that is missing reads as the zero time.\<close>

definition Timer_Recv :: "timespec option \<Rightarrow> timespec" where
  "Timer_Recv msg = (case msg of Some r \<Rightarrow> r | None \<Rightarrow> ts_zero)"

section \<open>The timer thread\<close>

definition timer_period :: "u64 \<Rightarrow> timespec" where
  "timer_period interval = \<lparr>tv_sec = uint (interval div 1000), tv_nsec = uint ((interval mod 1000) * 1000000)\<rparr>"

definition advance :: "timespec \<Rightarrow> timespec \<Rightarrow> timespec" where
  "advance period now =
     (let sec = tv_sec now + tv_sec period
      in if tv_nsec now + tv_nsec period \<ge> BILLION
         then \<lparr>tv_sec = sec + 1, tv_nsec = tv_nsec now + tv_nsec period - BILLION\<rparr>
         else \<lparr>tv_sec = sec, tv_nsec = tv_nsec now + tv_nsec period\<rparr>)"

text \<open>What the environment answers in a step: the reading of the clock, whether the non-blocking send
  succeeds, and whether the receive on the pipe is interrupted.\<close>

record timer_env =
  tv_clock :: timespec
  tv_sent :: bool
  tv_interrupted :: bool

definition timer_top :: "timer_env \<Rightarrow> ptimer \<Rightarrow> ptimer" where
  "timer_top ev t =
     (if ti_started t
      then if has_delay t
           then if ti_delay t = ts_zero then t\<lparr>ti_period := ti_delay t\<rparr>
                else let now = advance (ti_delay t) (tv_clock ev)
                     in t\<lparr>ti_period := ti_delay t, ti_now := now, ti_frame := now, ti_pc := At_send\<rparr>
           else let now = advance (ti_period t) (ti_now t)
                in t\<lparr>ti_now := now, ti_frame := now, ti_pc := At_send\<rparr>
      else t\<lparr>ti_pc := At_poll\<rparr>)"

definition timer_poll :: "timer_env \<Rightarrow> ptimer \<Rightarrow> ptimer" where
  "timer_poll ev t =
     (case ti_pipe t of
        [] \<Rightarrow> t\<lparr>ti_pc := At_top\<rparr>
      | command # rest \<Rightarrow>
          if tv_interrupted ev then t\<lparr>ti_pc := At_end\<rparr>
          else let t = t\<lparr>ti_pipe := rest, ti_pc := At_top\<rparr>
               in if command = CMD_TERM then t\<lparr>ti_pc := At_end\<rparr>
                  else if command = CMD_START then t\<lparr>ti_started := True, ti_now := tv_clock ev\<rparr>
                  else if command = CMD_HALT then t\<lparr>ti_started := False\<rparr>
                  else t)"

definition timer_thread :: "timer_env \<Rightarrow> ptimer \<Rightarrow> ptimer" where
  "timer_thread ev t =
     (case ti_pc t of
        At_begin \<Rightarrow> t\<lparr>ti_now := tv_clock ev, ti_period := timer_period (ti_interval t), ti_pc := At_top\<rparr>
      | At_top \<Rightarrow> timer_top ev t
      | At_send \<Rightarrow> t\<lparr>ti_fired := ti_fired t @ (if tv_sent ev then [ti_frame t] else []), ti_pc := At_halt\<rparr>
      | At_halt \<Rightarrow> t\<lparr>ti_pc := if has_delay t \<and> ti_has_started t then At_clear else At_poll\<rparr>
      | At_clear \<Rightarrow> t\<lparr>ti_has_started := False, ti_pc := At_tell\<rparr>
      | At_tell \<Rightarrow> t\<lparr>ti_pipe := ti_pipe t @ [CMD_HALT], ti_pc := At_poll\<rparr>
      | At_poll \<Rightarrow> timer_poll ev t
      | At_end \<Rightarrow> t)"

text \<open>The next step of the call in progress; the argument is the clock, when it is read.\<close>

definition call_step :: "timespec \<Rightarrow> ptimer \<Rightarrow> ptimer" where
  "call_step clock t =
     (case ti_call t of
        No_call \<Rightarrow> t
      | Start_set \<Rightarrow> t\<lparr>ti_has_started := True, ti_call := Start_clock\<rparr>
      | Start_clock \<Rightarrow> t\<lparr>ti_now := clock, ti_call := Start_send\<rparr>
      | Start_send \<Rightarrow> t\<lparr>ti_pipe := ti_pipe t @ [CMD_START], ti_call := No_call\<rparr>
      | Halt_clear \<Rightarrow> t\<lparr>ti_has_started := False, ti_call := Halt_send\<rparr>
      | Halt_send \<Rightarrow> t\<lparr>ti_pipe := ti_pipe t @ [CMD_HALT], ti_call := No_call\<rparr>)"

text \<open>The component is one thread, so it calls only when its last call is done; \<open>CallStart\<close> and \<open>CallHalt\<close> are the
  tests of the flag.\<close>

datatype timer_act = Thread timer_env | CallStart | CallHalt | CallGoes timespec | CallDelay timespec | CallStop

fun timer_do :: "timer_act \<Rightarrow> ptimer \<Rightarrow> ptimer" where
  "timer_do (Thread ev) t = timer_thread ev t"
| "timer_do CallStart t = (if ti_call t = No_call \<and> \<not> ti_has_started t then t\<lparr>ti_call := Start_set\<rparr> else t)"
| "timer_do CallHalt t = (if ti_call t = No_call \<and> ti_has_started t then t\<lparr>ti_call := Halt_clear\<rparr> else t)"
| "timer_do (CallGoes clock) t = call_step clock t"
| "timer_do (CallDelay value) t = (if ti_call t = No_call then Timer_delay value t else t)"
| "timer_do CallStop t = (if ti_call t = No_call then Timer_Stop t else t)"

lemmas timer_eval = timer_thread_def timer_top_def timer_poll_def call_step_def Timer_Halt_def Timer_Start_def has_delay_def Let_def

text \<open>The calls without interruption.\<close>

lemma calls_undisturbed:
  assumes "ti_call t = No_call"
  shows "fold timer_do [CallStart, CallGoes c1, CallGoes clock, CallGoes c3] t = Timer_Start clock t"
    "fold timer_do [CallHalt, CallGoes c1, CallGoes c2] t = Timer_Halt t"
  using assms by (simp_all add: timer_eval)

section \<open>The two threads agree\<close>

text \<open>What the thread will have been told once it has read the pipe.\<close>

definition told :: "bool \<Rightarrow> string list \<Rightarrow> bool" where
  "told started pipe = fold (\<lambda>c s. if c = CMD_START then True else if c = CMD_HALT then False else s) pipe started"

lemma told_simps [simp]:
  "told s [] = s" "told s (q @ [CMD_START]) = True" "told s (q @ [CMD_HALT]) = False" "told s (q @ [CMD_TERM]) = told s q"
  "told s (c # q) = told (if c = CMD_START then True else if c = CMD_HALT then False else s) q"
  by (simp_all add: told_def)

text \<open>A timer with a period never halts itself, so the flag and what the thread will have been told differ only
  while the component is inside a call.\<close>

definition periodic_inv :: "ptimer \<Rightarrow> bool" where
  "periodic_inv t \<longleftrightarrow> ti_interval t \<noteq> 0 \<and> ti_pc t \<notin> {At_clear, At_tell} \<and>
     (ti_has_started t, told (ti_started t) (ti_pipe t)) \<in>
       (case ti_call t of No_call \<Rightarrow> {(False, False), (True, True)} | Start_set \<Rightarrow> {(False, False)} | Start_clock \<Rightarrow> {(True, False)}
        | Start_send \<Rightarrow> {(True, False)} | Halt_clear \<Rightarrow> {(True, True)} | Halt_send \<Rightarrow> {(False, True)})"

text \<open>A timer without a period halts itself after it has sent.  Its flag may be set while the last command in the pipe
  is to halt, but then a command to start is before it, or the thread is on its way to send.\<close>

definition sporadic_inv :: "ptimer \<Rightarrow> bool" where
  "sporadic_inv t \<longleftrightarrow> ti_interval t = 0 \<and> (ti_pc t = At_begin \<longrightarrow> \<not> ti_started t) \<and>
     (ti_has_started t \<and> ti_pc t \<noteq> At_end \<longrightarrow> CMD_START \<in> set (ti_pipe t) \<or> ti_call t \<in> {Start_clock, Start_send} \<or>
        ti_started t \<and> ti_pc t \<in> {At_top, At_send, At_halt, At_clear})"

lemma periodic_step: "periodic_inv t \<Longrightarrow> periodic_inv (timer_do a t)"
proof (cases a)
  case (Thread ev)
  assume "periodic_inv t"
  then show ?thesis
    by (cases "ti_pc t"; cases "ti_pipe t") (auto simp: Thread periodic_inv_def timer_eval)
qed (auto simp: periodic_inv_def timer_eval Timer_delay_def Timer_Stop_def split: call_pc.splits)

lemma sporadic_step: "sporadic_inv t \<Longrightarrow> sporadic_inv (timer_do a t)"
proof (cases a)
  case (Thread ev)
  assume "sporadic_inv t"
  then show ?thesis
    by (cases "ti_pc t"; cases "ti_pipe t") (auto simp: Thread sporadic_inv_def timer_eval)
qed (auto simp: sporadic_inv_def timer_eval Timer_delay_def Timer_Stop_def split: call_pc.splits)

interpretation periodic: machine timer_do periodic_inv
  by unfold_locales (rule periodic_step)

interpretation sporadic: machine timer_do sporadic_inv
  by unfold_locales (rule sporadic_step)

text \<open>C29: the flag of a timer and its thread, on every interleaving of the steps of the calls with the steps of the
  thread.  For a timer with a period, whenever the component is not inside a call, the flag is what the
  thread will have been told when it has read all commands in the pipe.  For a sporadic timer that is not so, since its
  thread halts it too; but no start is lost once the flag is set: as long as the thread has not
  ended, a command to start is in the pipe, or about to be sent, or the thread is on its way to send.\<close>

theorem timer_flag_agrees:
  assumes "t = fold timer_do acts (PeriodicTimer_new junk interval)" "ti_call t = No_call"
  shows "(interval \<noteq> 0 \<longrightarrow> ti_has_started t = told (ti_started t) (ti_pipe t)) \<and>
    (interval = 0 \<and> ti_has_started t \<and> ti_pc t \<noteq> At_end \<longrightarrow>
       CMD_START \<in> set (ti_pipe t) \<or> ti_started t \<and> ti_pc t \<in> {At_top, At_send, At_halt, At_clear})"
proof (cases "interval = 0")
  case True
  have "sporadic_inv t"
    unfolding assms(1) by (rule sporadic.run_inv) (simp add: sporadic_inv_def PeriodicTimer_new_def True)
  then show ?thesis using assms(2) True by (auto simp: sporadic_inv_def)
next
  case False
  have "periodic_inv t"
    unfolding assms(1) by (rule periodic.run_inv) (simp add: periodic_inv_def PeriodicTimer_new_def False)
  then show ?thesis using assms(2) False by (auto simp: periodic_inv_def)
qed

section \<open>Periodic timers do not drift\<close>

lemma advance_ns: "ts_ns (advance period now) = ts_ns now + ts_ns period"
  by (simp add: advance_def ts_ns_def Let_def)

lemma advance_normal: "ts_normal now \<Longrightarrow> ts_normal period \<Longrightarrow> ts_normal (advance period now)"
  by (auto simp: advance_def ts_normal_def Let_def)

lemma period_nsec: "uint (((interval :: u64) mod 1000) * 1000000) = (uint interval mod 1000) * 1000000"
proof -
  have m: "uint interval mod 1000 < 1000" "0 \<le> uint interval mod 1000" by simp_all
  then show ?thesis by (simp add: uint_word_ariths uint_mod uint_div mod_pos_pos_trivial)
qed

lemma timer_period_ns: "ts_ns (timer_period interval) = uint interval * 1000000"
proof -
  have "ts_ns (timer_period interval) = BILLION * (uint interval div 1000) + uint interval mod 1000 * 1000000"
    by (simp add: timer_period_def ts_ns_def uint_div period_nsec)
  then show ?thesis using mult_div_mod_eq [of 1000 "uint interval"] by linarith
qed

lemma timer_period_normal: "ts_normal (timer_period interval)"
  by (simp add: timer_period_def ts_normal_def period_nsec)

definition ticking :: "ptimer \<Rightarrow> bool" where
  "ticking t \<longleftrightarrow> ti_pc t = At_top \<and> ti_started t \<and> ti_interval t \<noteq> 0 \<and> ti_pipe t = [] \<and>
     ti_period t = timer_period (ti_interval t)"

fun tick_times :: "timespec \<Rightarrow> timespec \<Rightarrow> nat \<Rightarrow> timespec list" where
  "tick_times period now 0 = []"
| "tick_times period now (Suc k) = advance period now # tick_times period (advance period now) k"

lemma ticking_round:
  assumes "ticking t" "tv_sent e2"
  shows "\<exists>t'. fold timer_thread [e1, e2, e3, e4] t = t' \<and> ticking t' \<and> ti_interval t' = ti_interval t \<and>
    ti_now t' = advance (ti_period t) (ti_now t) \<and> ti_fired t' = ti_fired t @ [advance (ti_period t) (ti_now t)]"
  using assms by (simp add: ticking_def timer_eval)

text \<open>The number of times a running thread has sent after a number of steps.\<close>

fun rounds :: "'a list \<Rightarrow> nat" where
  "rounds (a # b # c # d # es) = Suc (rounds es)"
| "rounds (a # b # es) = 1"
| "rounds es = 0"

lemma rounds_div: "rounds es = (length es + 2) div 4"
  by (induction es rule: rounds.induct) (auto split: list.splits)

lemma ticking_fired:
  "ticking t \<Longrightarrow> list_all tv_sent es \<Longrightarrow>
     ti_fired (fold timer_thread es t) = ti_fired t @ tick_times (timer_period (ti_interval t)) (ti_now t) (rounds es)"
proof (induction es arbitrary: t rule: rounds.induct)
  case (1 e1 e2 e3 e4 rest)
  obtain t' where t': "fold timer_thread [e1, e2, e3, e4] t = t'" "ticking t'" "ti_interval t' = ti_interval t"
    "ti_now t' = advance (ti_period t) (ti_now t)" "ti_fired t' = ti_fired t @ [advance (ti_period t) (ti_now t)]"
    using ticking_round [OF 1(2), of e2 e1 e3 e4] 1(3) by auto
  have "ti_fired (fold timer_thread rest t') = ti_fired t' @ tick_times (timer_period (ti_interval t')) (ti_now t') (rounds rest)"
    using 1 t'(2) by simp
  moreover have "ti_period t = timer_period (ti_interval t)" using 1(2) by (simp add: ticking_def)
  ultimately show ?case using t' by simp
qed (auto simp: ticking_def timer_eval)

lemma tick_times_ns:
  "map ts_ns (tick_times period now k) = map (\<lambda>i. ts_ns now + int i * ts_ns period) [1..<Suc k]"
proof (induction k arbitrary: now)
  case (Suc k)
  have "map (\<lambda>i. ts_ns (advance period now) + int i * ts_ns period) [1..<Suc k] =
      map (\<lambda>i. ts_ns now + int i * ts_ns period) (map Suc [1..<Suc k])"
    by (simp add: advance_ns algebra_simps)
  moreover have "[1..<Suc (Suc k)] = 1 # map Suc [1..<Suc k]" by (simp add: map_Suc_upt upt_conv_Cons del: upt_Suc)
  ultimately show ?case using Suc by (simp add: advance_ns del: upt_Suc)
qed simp

lemma tick_times_normal:
  "ts_normal now \<Longrightarrow> ts_normal period \<Longrightarrow> list_all ts_normal (tick_times period now k)"
  by (induction k arbitrary: now) (simp_all add: advance_normal)

text \<open>C6: a periodic timer does not drift.  Once it runs, after any number of steps of its
  thread and whatever the delays of the thread are, the time stamps it has sent are exactly the start
  plus the multiples of the interval, one for every four steps, and each is a normal time.\<close>

theorem periodic_timer_exact:
  assumes "ticking t" "ts_normal (ti_now t)" "list_all tv_sent es"
  shows "\<exists>new. ti_fired (fold timer_thread es t) = ti_fired t @ new \<and> list_all ts_normal new \<and>
    map ts_ns new = map (\<lambda>i. ts_ns (ti_now t) + int i * (uint (ti_interval t) * 1000000)) [1..<Suc ((length es + 2) div 4)]"
  using ticking_fired [OF assms(1,3)] rounds_div [of es] tick_times_normal [OF assms(2) timer_period_normal]
    tick_times_ns [of "timer_period (ti_interval t)" "ti_now t" "(length es + 2) div 4"]
  by (intro exI conjI) (auto simp: timer_period_ns simp del: upt_Suc)

section \<open>Sporadic timers\<close>

lemma stopped_thread:
  "\<not> ti_started t \<Longrightarrow> ti_pipe t = [] \<Longrightarrow> ti_pc t \<in> {At_top, At_poll} \<Longrightarrow>
     \<not> ti_started (fold timer_thread es t) \<and> ti_pipe (fold timer_thread es t) = [] \<and> ti_fired (fold timer_thread es t) = ti_fired t"
proof (induction es arbitrary: t)
  case (Cons e es)
  have "\<not> ti_started (timer_thread e t) \<and> ti_pipe (timer_thread e t) = [] \<and> ti_pc (timer_thread e t) \<in> {At_top, At_poll} \<and>
      ti_fired (timer_thread e t) = ti_fired t"
    using Cons.prems by (auto simp: timer_eval)
  with Cons.IH [of "timer_thread e t"] show ?case by simp
qed simp

text \<open>A started sporadic timer at the top of its loop.\<close>

definition armed_once :: "ptimer \<Rightarrow> bool" where
  "armed_once t \<longleftrightarrow> ti_pc t = At_top \<and> ti_started t \<and> ti_has_started t \<and> ti_interval t = 0 \<and> ti_pipe t = []"

text \<open>a sporadic timer fires once.  Started with a delay that is not zero it sends one time
  stamp, the clock at the start of the round plus the delay, then halts itself; no further step of the
  thread sends anything.\<close>

theorem sporadic_fires_once:
  assumes "armed_once t" "ti_delay t \<noteq> ts_zero" "es = e1 # e2 # e3 # e4 # e5 # e6 # rest" "tv_sent e2" "\<not> tv_interrupted e6"
  shows "ti_fired (fold timer_thread es t) = ti_fired t @ [advance (ti_delay t) (tv_clock e1)] \<and>
    \<not> ti_started (fold timer_thread es t) \<and> ti_pipe (fold timer_thread es t) = []"
proof -
  define t6 where "t6 = fold timer_thread [e1, e2, e3, e4, e5, e6] t"
  have "\<not> ti_started t6" "ti_pipe t6 = []" "ti_pc t6 = At_top" "ti_fired t6 = ti_fired t @ [advance (ti_delay t) (tv_clock e1)]"
    using assms by (auto simp: t6_def armed_once_def timer_eval)
  then show ?thesis using stopped_thread [of t6 rest] by (simp add: assms(3) t6_def)
qed

text \<open>a restart can be lost.  Just after a sporadic timer sent its time stamp the component may call
  \<^verbatim>\<open>Start\<close> before or after the timer thread halts the timer.  After, it runs again; before, the call
  does nothing and the timer stays stopped, whatever the thread does from there.\<close>

theorem restart_depends_on_order:
  assumes "ti_pc t = At_halt" "ti_interval t = 0" "ti_started t" "ti_has_started t" "ti_pipe t = []"
    and "\<not> tv_interrupted e4" "\<not> tv_interrupted e6"
  shows "ti_started (fold timer_thread [e4, e5, e6] (Timer_Start clk (fold timer_thread [e1, e2, e3] t))) \<and>
    \<not> ti_started (fold timer_thread ([e1, e2, e3, e4] @ es) (Timer_Start clk t)) \<and>
    ti_fired (fold timer_thread ([e1, e2, e3, e4] @ es) (Timer_Start clk t)) = ti_fired t"
proof -
  define t2 where "t2 = fold timer_thread [e1, e2, e3, e4] (Timer_Start clk t)"
  have "\<not> ti_started t2" "ti_pipe t2 = []" "ti_pc t2 = At_top" "ti_fired t2 = ti_fired t"
    using assms by (auto simp: t2_def timer_eval)
  then have "\<not> ti_started (fold timer_thread es t2) \<and> ti_fired (fold timer_thread es t2) = ti_fired t"
    using stopped_thread [of t2 es] by simp
  moreover have "ti_started (fold timer_thread [e4, e5, e6] (Timer_Start clk (fold timer_thread [e1, e2, e3] t)))"
    using assms by (simp add: timer_eval)
  ultimately show ?thesis by (simp add: t2_def)
qed

text \<open>the flag and the commands of a sporadic timer can disagree.  When the component starts the timer between the two
  halves of the thread's own \<^verbatim>\<open>Halt\<close>, the flag is set and the last command in the pipe is to halt; the
  thread reads the start first and runs another round.\<close>

theorem start_inside_halt:
  assumes "ti_pc t = At_clear" "ti_interval t = 0" "ti_pipe t = []" "ti_call t = No_call"
    and "t' = fold timer_do [Thread e1, CallStart, CallGoes c1, CallGoes c2, CallGoes c3, Thread e2] t"
  shows "ti_call t' = No_call \<and> ti_has_started t' \<and> ti_pipe t' = [CMD_START, CMD_HALT] \<and> \<not> told (ti_started t') (ti_pipe t') \<and>
    (\<not> tv_interrupted e3 \<longrightarrow> ti_started (timer_thread e3 t') \<and> ti_pc (timer_thread e3 t') = At_top)"
  using assms by (simp add: timer_eval)

lemma spin_step:
  assumes "ti_pc t = At_top" "ti_started t" "ti_interval t = 0" "ti_delay t = ts_zero" "\<forall>v. a = CallDelay v \<longrightarrow> v = ts_zero"
  shows "ti_pc (timer_do a t) = At_top \<and> ti_started (timer_do a t) \<and> ti_interval (timer_do a t) = 0 \<and>
    ti_delay (timer_do a t) = ts_zero \<and> ti_fired (timer_do a t) = ti_fired t \<and> (\<exists>q. ti_pipe (timer_do a t) = ti_pipe t @ q)"
  using assms by (cases a) (auto simp: timer_eval Timer_delay_def Timer_Stop_def split: call_pc.split)

text \<open>C39: a sporadic timer that is started with no delay cannot be stopped.  Its thread goes round
  without ever reading the pipe: as long as the delay stays zero, whatever is called and however often the
  thread runs, it sends nothing, takes no command, and so never ends.\<close>

theorem zero_delay_never_stops:
  assumes "ti_pc t = At_top" "ti_started t" "ti_interval t = 0" "ti_delay t = ts_zero"
    and "\<forall>v. CallDelay v \<in> set acts \<longrightarrow> v = ts_zero"
  shows "ti_pc (fold timer_do acts t) = At_top \<and> ti_fired (fold timer_do acts t) = ti_fired t \<and>
    (\<exists>q. ti_pipe (fold timer_do acts t) = ti_pipe t @ q)"
  using assms
proof (induction acts arbitrary: t)
  case (Cons a acts)
  have "\<forall>v. a = CallDelay v \<longrightarrow> v = ts_zero" using Cons.prems(5) by auto
  note s = spin_step [OF Cons.prems(1-4) this]
  have "\<forall>v. CallDelay v \<in> set acts \<longrightarrow> v = ts_zero" using Cons.prems(5) by auto
  with Cons.IH [of "timer_do a t"] s show ?case by auto
qed simp

section \<open>The one-shot timer\<close>

text \<open>The thread of a one-shot timer holds the message while it sleeps; joining it waits until the
  message is sent.\<close>

record oneshot =
  os_execute :: bool
  os_timerid :: string
  os_wakeuptime :: timespec
  os_joinable :: bool
  os_sleeping :: bool
  os_sent :: "(timespec \<times> string) list"

definition OneShotTimer_new :: "string \<Rightarrow> timespec \<Rightarrow> oneshot" where
  "OneShotTimer_new timerid wakeuptime =
     \<lparr>os_execute = False, os_timerid = timerid, os_wakeuptime = wakeuptime, os_joinable = False,
      os_sleeping = False, os_sent = []\<rparr>"

text \<open>The wake-up: the time at which it was due and the message.\<close>

definition oneshot_fire :: "oneshot \<Rightarrow> oneshot" where
  "oneshot_fire o' =
     (if os_sleeping o' then o'\<lparr>os_sleeping := False, os_sent := os_sent o' @ [(os_wakeuptime o', os_timerid o')]\<rparr> else o')"

definition oneshot_stop :: "oneshot \<Rightarrow> oneshot" where
  "oneshot_stop o' =
     (let o' = o'\<lparr>os_execute := False\<rparr>
      in if os_joinable o' then (oneshot_fire o')\<lparr>os_joinable := False\<rparr> else o')"

definition oneshot_start :: "oneshot \<Rightarrow> oneshot" where
  "oneshot_start o' =
     (let o' = (if os_execute o' then oneshot_stop o' else o')
      in o'\<lparr>os_execute := True, os_joinable := True, os_sleeping := True\<rparr>)"

definition is_running :: "oneshot \<Rightarrow> bool" where
  "is_running o' \<longleftrightarrow> os_execute o' \<and> os_joinable o'"

definition oneshot_destroy :: "oneshot \<Rightarrow> oneshot" where
  "oneshot_destroy o' = (if os_execute o' then oneshot_stop o' else o')"

datatype oneshot_act = OneShotStart | OneShotStop | OneShotFire

fun oneshot_do :: "oneshot_act \<Rightarrow> oneshot \<Rightarrow> oneshot" where
  "oneshot_do OneShotStart o' = oneshot_start o'"
| "oneshot_do OneShotStop o' = oneshot_stop o'"
| "oneshot_do OneShotFire o' = oneshot_fire o'"

lemmas oneshot_eval = oneshot_fire_def oneshot_stop_def oneshot_start_def oneshot_destroy_def Let_def

definition oneshot_inv :: "oneshot \<Rightarrow> bool" where
  "oneshot_inv o' \<longleftrightarrow> os_execute o' = os_joinable o' \<and> (os_sleeping o' \<longrightarrow> os_joinable o')"

lemma oneshot_step:
  "oneshot_inv o' \<Longrightarrow> oneshot_inv (oneshot_do a o') \<and> os_timerid (oneshot_do a o') = os_timerid o' \<and>
     os_wakeuptime (oneshot_do a o') = os_wakeuptime o' \<and>
     os_sent (oneshot_do a o') @ replicate (if os_sleeping (oneshot_do a o') then 1 else 0) (os_wakeuptime o', os_timerid o') =
     os_sent o' @ replicate (if os_sleeping o' then 1 else 0) (os_wakeuptime o', os_timerid o') @
       (if a = OneShotStart then [(os_wakeuptime o', os_timerid o')] else [])"
  by (cases a) (auto simp: oneshot_inv_def oneshot_eval)

lemma oneshot_run:
  "oneshot_inv o' \<Longrightarrow> oneshot_inv (fold oneshot_do acts o') \<and>
     os_timerid (fold oneshot_do acts o') = os_timerid o' \<and> os_wakeuptime (fold oneshot_do acts o') = os_wakeuptime o' \<and>
     os_sent (fold oneshot_do acts o') @
       replicate (if os_sleeping (fold oneshot_do acts o') then 1 else 0) (os_wakeuptime o', os_timerid o') =
     os_sent o' @ replicate (if os_sleeping o' then 1 else 0) (os_wakeuptime o', os_timerid o') @
       replicate (count_list acts OneShotStart) (os_wakeuptime o', os_timerid o')"
proof (induction acts arbitrary: o')
  case (Cons a acts)
  note s = oneshot_step [OF Cons.prems, of a]
  have "replicate (count_list (a # acts) OneShotStart) x =
      (if a = OneShotStart then [x] else []) @ replicate (count_list acts OneShotStart) x" for x :: "timespec \<times> string"
    by simp
  with s Cons.IH [of "oneshot_do a o'"] show ?case by simp
qed simp

text \<open>C30: every start of a one-shot timer sends its message exactly once.  Stopping does not cancel it: on
  every sequence of starts, stops and wake-ups, when the timer has been destroyed the messages sent are
  one for each start, all with the id of the timer.\<close>

theorem oneshot_sends_once_per_start:
  "os_sent (oneshot_destroy (fold oneshot_do acts (OneShotTimer_new timerid wakeup))) =
     replicate (count_list acts OneShotStart) (wakeup, timerid)"
proof -
  let ?o = "OneShotTimer_new timerid wakeup"
  have i: "oneshot_inv ?o" by (simp add: oneshot_inv_def OneShotTimer_new_def)
  note r = oneshot_run [OF i, of acts]
  then show ?thesis by (auto simp: oneshot_inv_def oneshot_eval OneShotTimer_new_def split: if_splits)
qed

section \<open>Witnesses\<close>

definition ex_timer_env :: timer_env where
  "ex_timer_env = \<lparr>tv_clock = \<lparr>tv_sec = 100, tv_nsec = 500000000\<rparr>, tv_sent = True, tv_interrupted = False\<rparr>"

definition ex_timer :: "u64 \<Rightarrow> ptimer" where
  "ex_timer interval = fold timer_do [Thread ex_timer_env, CallStart, CallGoes ts_zero, CallGoes (tv_clock ex_timer_env), CallGoes ts_zero, Thread ex_timer_env, Thread ex_timer_env]
     (PeriodicTimer_new ts_zero interval)"

lemmas ex_timer_eval = ex_timer_def PeriodicTimer_new_def ex_timer_env_def timer_eval

theorem periodic_timer_exact_witness:
  "map ts_ns (ti_fired (fold timer_thread [ex_timer_env, ex_timer_env, ex_timer_env, ex_timer_env, ex_timer_env, ex_timer_env] (ex_timer 700))) =
     [101200000000, 101900000000]"
proof -
  have "ticking (ex_timer 700)" "ts_normal (ti_now (ex_timer 700))" "ti_fired (ex_timer 700) = []" "ti_interval (ex_timer 700) = 700"
    "ti_now (ex_timer 700) = \<lparr>tv_sec = 100, tv_nsec = 500000000\<rparr>"
    by (simp_all add: ex_timer_eval ticking_def ts_normal_def)
  moreover have "[1..<Suc ((length [ex_timer_env, ex_timer_env, ex_timer_env, ex_timer_env, ex_timer_env, ex_timer_env] + 2) div 4)] = [1, 2]"
    by (simp add: upt_rec)
  ultimately show ?thesis
    using periodic_timer_exact [of "ex_timer 700" "[ex_timer_env, ex_timer_env, ex_timer_env, ex_timer_env, ex_timer_env, ex_timer_env]"]
    by (auto simp: ts_ns_def ex_timer_env_def simp del: upt_Suc fold_simps)
qed

theorem sporadic_fires_once_witness:
  "ti_fired (fold timer_thread [ex_timer_env, ex_timer_env, ex_timer_env, ex_timer_env, ex_timer_env, ex_timer_env] (Timer_delay \<lparr>tv_sec = 1, tv_nsec = 600000000\<rparr> (ex_timer 0))) =
     [\<lparr>tv_sec = 102, tv_nsec = 100000000\<rparr>]"
proof -
  let ?t = "Timer_delay \<lparr>tv_sec = 1, tv_nsec = 600000000\<rparr> (ex_timer 0)"
  have "armed_once ?t" "ti_delay ?t = \<lparr>tv_sec = 1, tv_nsec = 600000000\<rparr>" "ti_fired ?t = []"
    by (simp_all add: ex_timer_eval Timer_delay_def armed_once_def)
  then show ?thesis
    using sporadic_fires_once [OF _ _ refl, of ?t ex_timer_env ex_timer_env ex_timer_env ex_timer_env ex_timer_env ex_timer_env "[]"]
    by (simp add: ex_timer_env_def advance_def del: fold_simps)
qed

theorem restart_depends_on_order_witness:
  "\<not> ti_started (fold timer_thread [ex_timer_env, ex_timer_env, ex_timer_env, ex_timer_env]
     (Timer_Start ts_zero (fold timer_thread [ex_timer_env, ex_timer_env] (Timer_delay \<lparr>tv_sec = 1, tv_nsec = 0\<rparr> (ex_timer 0)))))"
proof -
  let ?t = "fold timer_thread [ex_timer_env, ex_timer_env] (Timer_delay \<lparr>tv_sec = 1, tv_nsec = 0\<rparr> (ex_timer 0))"
  have "ti_pc ?t = At_halt" "ti_interval ?t = 0" "ti_started ?t" "ti_has_started ?t" "ti_pipe ?t = []" "\<not> tv_interrupted ex_timer_env"
    by (simp_all add: ex_timer_eval Timer_delay_def)
  from restart_depends_on_order [OF this this(6), of ex_timer_env ts_zero ex_timer_env ex_timer_env ex_timer_env "[]"] show ?thesis by simp
qed

theorem zero_delay_never_stops_witness:
  "ti_pc (fold timer_do [CallStop, Thread ex_timer_env, Thread ex_timer_env, CallHalt, Thread ex_timer_env] (ex_timer 0)) = At_top"
  using zero_delay_never_stops [of "ex_timer 0" "[CallStop, Thread ex_timer_env, Thread ex_timer_env, CallHalt, Thread ex_timer_env]"]
  by (simp add: ex_timer_eval)


theorem timer_flag_agrees_witness:
  "let t = fold timer_do [Thread ex_timer_env, CallStart, CallGoes ts_zero, Thread ex_timer_env, CallGoes ts_zero, CallGoes ts_zero]
       (PeriodicTimer_new ts_zero 700)
   in ti_has_started t \<and> told (ti_started t) (ti_pipe t)"
proof -
  define t where "t = fold timer_do [Thread ex_timer_env, CallStart, CallGoes ts_zero, Thread ex_timer_env, CallGoes ts_zero, CallGoes ts_zero]
       (PeriodicTimer_new ts_zero 700)"
  have "ti_call t = No_call" "ti_has_started t" by (simp_all add: t_def PeriodicTimer_new_def ex_timer_env_def timer_eval)
  then have "told (ti_started t) (ti_pipe t)" using timer_flag_agrees [OF t_def] by simp
  with \<open>ti_has_started t\<close> show ?thesis unfolding Let_def t_def by blast
qed

end
