(* ===== verification/Component_Start.thy ===== *)
theory Component_Start
  imports Component Timers
begin

text \<open>
  The life of a component: the first iteration of \<^verbatim>\<open>component_actor\<close>
  (\<^verbatim>\<open>src/componentmodel/r_componentbase.cc\<close>), which creates the configured ports (the client and server ports
  excepted, for which it has no code), polls them and starts
  the periodic timers, \<^verbatim>\<open>InitTimerPort\<close>, and \<^verbatim>\<open>Terminate\<close>.  The record \<open>startup\<close> holds the component, the
  timers behind its timer ports, the polled ports and the registrations sent to the discovery service.
  What the environment answers while a port is created is given for each port name.  Lemmas: which ports
  exist, are polled and run afterwards, and that the invariant of the component holds.
\<close>

section \<open>Configuration and state\<close>

record ComponentPorts =
  cp_clts :: "port_config list"
  cp_srvs :: "port_config list"
  cp_pubs :: "port_config list"
  cp_subs :: "port_config list"
  cp_reqs :: "port_config list"
  cp_reps :: "port_config list"
  cp_tims :: "(port_config \<times> u64) list"
  cp_inss :: "port_config list"
  cp_qrys :: "port_config list"
  cp_anss :: "port_config list"

record startup =
  su_component :: component
  su_timers :: "(string, ptimer) umap"
  su_polled :: "string list"
  su_requests :: "DiscoReq list"

record start_env =
  se_port :: "string \<Rightarrow> port_env"
  se_clock :: "string \<Rightarrow> timespec"
  se_junk :: timespec

section \<open>Creating the ports\<close>

text \<open>The constructor of the timer and \<^verbatim>\<open>Init\<close>, which binds the socket of its channel.\<close>

definition InitTimerPort :: "start_env \<Rightarrow> port_config \<Rightarrow> u64 \<Rightarrow> startup \<Rightarrow> startup" where
  "InitTimerPort ev cfg period s =
     (let c = su_component s;
          p = PortBase_new CPeriodicTimer Timer cfg (Some (cb_has_security c))
                (ev_curve_key (se_port ev (pc_port_name cfg))) (ev_junk (se_port ev (pc_port_name cfg)));
          sock = (zsock_new ZMQ_PULL)\<lparr>so_bound := [TimerChannel (pc_port_name cfg)]\<rparr>
      in s\<lparr>su_component := put_port (p\<lparr>pt_socket := Some sock\<rparr>) c,
           su_timers := um_put (pc_port_name cfg) (PeriodicTimer_new (se_junk ev) period) (su_timers s)\<rparr>)"

definition poll_port :: "port_config \<Rightarrow> startup \<Rightarrow> startup" where
  "poll_port cfg s = s\<lparr>su_polled := su_polled s @ [pc_port_name cfg]\<rparr>"

definition start_inside :: "start_env \<Rightarrow> port_config \<Rightarrow> startup \<Rightarrow> net_error + startup" where
  "start_inside ev cfg s =
     Inr (poll_port cfg (s\<lparr>su_component := InitInsidePort (se_port ev (pc_port_name cfg)) cfg (su_component s)\<rparr>))"

definition start_timer :: "start_env \<Rightarrow> port_config \<times> u64 \<Rightarrow> startup \<Rightarrow> net_error + startup" where
  "start_timer ev tim s =
     (let (cfg, period) = tim;
          s1 = poll_port cfg (InitTimerPort ev cfg period s);
          t = PeriodicTimer_new (se_junk ev) period
      in Inr (if \<not> has_delay t
              then s1\<lparr>su_timers := um_put (pc_port_name cfg) (Timer_Start (se_clock ev (pc_port_name cfg)) t) (su_timers s1)\<rparr>
              else s1))"

text \<open>The ports that register: a publisher is not polled.\<close>

definition start_registered ::
  "(port_env \<Rightarrow> port_config \<Rightarrow> component \<Rightarrow> net_error + (component \<times> DiscoReq list)) \<Rightarrow> start_env \<Rightarrow> port_config
   \<Rightarrow> startup \<Rightarrow> net_error + startup" where
  "start_registered init ev cfg s =
     (case init (se_port ev (pc_port_name cfg)) cfg (su_component s) of
        Inl e \<Rightarrow> Inl e
      | Inr (c, rs) \<Rightarrow> Inr (s\<lparr>su_component := c, su_requests := su_requests s @ rs\<rparr>))"

definition start_publisher :: "start_env \<Rightarrow> port_config \<Rightarrow> startup \<Rightarrow> net_error + startup" where
  "start_publisher ev cfg s = start_registered InitPublisherPort ev cfg s"

definition start_response :: "start_env \<Rightarrow> port_config \<Rightarrow> startup \<Rightarrow> net_error + startup" where
  "start_response ev cfg s = map_sum id (poll_port cfg) (start_registered InitResponsePort ev cfg s)"

definition start_answer :: "start_env \<Rightarrow> port_config \<Rightarrow> startup \<Rightarrow> net_error + startup" where
  "start_answer ev cfg s = map_sum id (poll_port cfg) (start_registered InitAnswerPort ev cfg s)"

text \<open>The ports that look up a service.\<close>

definition start_client ::
  "(port_env \<Rightarrow> port_config \<Rightarrow> component \<Rightarrow> net_error + component) \<Rightarrow> start_env \<Rightarrow> port_config \<Rightarrow> startup
   \<Rightarrow> net_error + startup" where
  "start_client init ev cfg s =
     (case init (se_port ev (pc_port_name cfg)) cfg (su_component s) of
        Inl e \<Rightarrow> Inl e | Inr c \<Rightarrow> Inr (poll_port cfg (s\<lparr>su_component := c\<rparr>)))"

definition start_request :: "start_env \<Rightarrow> port_config \<Rightarrow> startup \<Rightarrow> net_error + startup" where
  "start_request = start_client InitRequestPort"
definition start_query :: "start_env \<Rightarrow> port_config \<Rightarrow> startup \<Rightarrow> net_error + startup" where
  "start_query = start_client InitQueryPort"
definition start_subscriber :: "start_env \<Rightarrow> port_config \<Rightarrow> startup \<Rightarrow> net_error + startup" where
  "start_subscriber = start_client InitSubscriberPort"

fun each_port :: "('c \<Rightarrow> 's \<Rightarrow> 'e + 's) \<Rightarrow> 'c list \<Rightarrow> 's \<Rightarrow> 'e + 's" where
  "each_port f [] s = Inr s"
| "each_port f (cfg # cfgs) s = (case f cfg s of Inl e \<Rightarrow> Inl e | Inr s' \<Rightarrow> each_port f cfgs s')"

definition and_then :: "'e + 'a \<Rightarrow> ('a \<Rightarrow> 'e + 'b) \<Rightarrow> 'e + 'b" where
  "and_then r f = (case r of Inl e \<Rightarrow> Inl e | Inr s \<Rightarrow> f s)"

definition first_run :: "start_env \<Rightarrow> ComponentPorts \<Rightarrow> startup \<Rightarrow> net_error + startup" where
  "first_run ev conf s =
     fold (\<lambda>f r. and_then r f)
       [each_port (start_inside ev) (cp_inss conf),
        each_port (start_timer ev) (cp_tims conf),
        each_port (start_publisher ev) (cp_pubs conf),
        each_port (start_response ev) (cp_reps conf),
        each_port (start_answer ev) (cp_anss conf),
        each_port (start_request ev) (cp_reqs conf),
        each_port (start_query ev) (cp_qrys conf),
        each_port (start_subscriber ev) (cp_subs conf)] (Inr s)"

text \<open>Stopping a timer whose port is missing or is not a timer dereferences a null pointer.\<close>

definition stop_timer :: "port_config \<times> u64 \<Rightarrow> startup \<Rightarrow> group_error + startup" where
  "stop_timer tim s =
     (let name = pc_port_name (fst tim)
      in case GetPortByNameAs CPeriodicTimer name (su_component s) of
           None \<Rightarrow> Inl Null_pointer
         | Some p \<Rightarrow> (case map_of (su_timers s) name of
                        None \<Rightarrow> Inl Null_pointer
                      | Some t \<Rightarrow> Inr (s\<lparr>su_timers := um_put name (Timer_Stop t) (su_timers s)\<rparr>)))"

definition Terminate :: "ComponentPorts \<Rightarrow> startup \<Rightarrow> group_error + startup" where
  "Terminate conf s =
     (case each_port stop_timer (cp_tims conf) s of
        Inl e \<Rightarrow> Inl e
      | Inr s' \<Rightarrow> Inr (s'\<lparr>su_component := (su_component s')\<lparr>cb_ports := [], cb_pipe := cb_pipe (su_component s') @ [[CMD_TERM]]\<rparr>\<rparr>))"

section \<open>What a step of the creation adds\<close>

definition port_classes :: "component \<Rightarrow> string \<Rightarrow> port_class option" where
  "port_classes c name = map_option pt_class (map_of (cb_ports c) name)"

definition adds :: "port_class \<Rightarrow> port_config \<Rightarrow> component \<Rightarrow> component \<Rightarrow> bool" where
  "adds cls cfg c c' \<longleftrightarrow> (\<exists>p. pt_class p = cls \<and> pt_config p = cfg \<and> c' = put_port p c)"

lemma on_socket_sig [simp]: "pt_class (on_socket f p) = pt_class p" "pt_config (on_socket f p) = pt_config p"
  by (simp_all add: on_socket_def)

lemma connect_sig [simp]:
  "pt_class (snd (ConnectToPublihser cn e p)) = pt_class p" "pt_config (snd (ConnectToPublihser cn e p)) = pt_config p"
  "pt_class (snd (ConnectToResponse cn e p)) = pt_class p" "pt_config (snd (ConnectToResponse cn e p)) = pt_config p"
  by (simp_all add: ConnectToPublihser_def ConnectToResponse_def connect_socket_def apply_client_cert_def Let_def)

lemma fold_sig:
  "(\<And>r p. pt_class (f r p) = pt_class p \<and> pt_config (f r p) = pt_config p) \<Longrightarrow>
     pt_class (fold f rs p) = pt_class p \<and> pt_config (fold f rs p) = pt_config p"
  by (induction rs arbitrary: p) auto

lemma fold_connect_sig [simp]:
  "pt_class (fold (\<lambda>r p. snd (ConnectToPublihser cn (e r) p)) rs p) = pt_class p"
  "pt_config (fold (\<lambda>r p. snd (ConnectToPublihser cn (e r) p)) rs p) = pt_config p"
  "pt_class (fold (\<lambda>r p. snd (ConnectToResponse cn (e r) p)) rs p) = pt_class p"
  "pt_config (fold (\<lambda>r p. snd (ConnectToResponse cn (e r) p)) rs p) = pt_config p"
  by (simp_all add: fold_sig)

lemma secure_and_bind_sig:
  "secure_and_bind bind p = (b, p') \<Longrightarrow> pt_class p' = pt_class p \<and> pt_config p' = pt_config p"
  by (auto simp: secure_and_bind_def Let_def split: if_splits)

lemma PortBase_new_sig [simp]:
  "pt_class (PortBase_new cls ty cfg pa ck j) = cls" "pt_config (PortBase_new cls ty cfg pa ck j) = cfg"
  by (simp_all add: PortBase_new_def)

lemma addsI: "pt_class p = cls \<Longrightarrow> pt_config p = cfg \<Longrightarrow> adds cls cfg c (put_port p c)"
  by (auto simp: adds_def)

lemma adds_publisher: "InitPublisherPort ev cfg c = Inr (c', rs) \<Longrightarrow> adds CPublisherPort cfg c c'"
  by (auto simp: InitPublisherPort_def PublisherPort_new_def PublisherPortBase_InitSocket_def Let_def snd_def
      split: sum.splits prod.splits intro!: addsI dest: secure_and_bind_sig)

lemma adds_response: "InitResponsePort ev cfg c = Inr (c', rs) \<Longrightarrow> adds CResponsePort cfg c c'"
  by (auto simp: InitResponsePort_def ResponsePort_new_def Let_def
      split: sum.splits prod.splits intro!: addsI dest: secure_and_bind_sig)

lemma adds_answer: "InitAnswerPort ev cfg c = Inr (c', rs) \<Longrightarrow> adds CAnswerPort cfg c c'"
  by (auto simp: InitAnswerPort_def AnswerPort_new_def Let_def
      split: sum.splits prod.splits intro!: addsI dest: secure_and_bind_sig)

lemma adds_subscriber: "InitSubscriberPort ev cfg c = Inr c' \<Longrightarrow> adds CSubscriberPort cfg c c'"
  by (auto simp: InitSubscriberPort_def SubscriberPort_Init_def SubscriberPortBase_new_def split: sum.splits intro!: addsI)

lemma adds_request: "InitRequestPort ev cfg c = Inr c' \<Longrightarrow> adds CRequestPort cfg c c'"
  by (auto simp: InitRequestPort_def RequestPort_Init_def RequestPort_new_def apply_client_cert_def Let_def
      split: sum.splits if_splits intro!: addsI)

lemma adds_query: "InitQueryPort ev cfg c = Inr c' \<Longrightarrow> adds CQueryPort cfg c c'"
  by (auto simp: InitQueryPort_def QueryPort_Init_def QueryPort_new_def split: sum.splits intro!: addsI)

lemma adds_inside: "adds CInsidePort cfg c (InitInsidePort ev cfg c)"
  by (auto simp: InitInsidePort_def InsidePort_new_def Let_def intro!: addsI)

lemma adds_timer: "adds CPeriodicTimer cfg (su_component s) (su_component (InitTimerPort ev cfg period s))"
  by (auto simp: InitTimerPort_def Let_def intro!: addsI)

lemma adds_classes: "adds cls cfg c c' \<Longrightarrow> port_classes c' = (port_classes c)(pc_port_name cfg \<mapsto> cls)"
  by (auto simp: adds_def port_classes_def put_port_def um_get_put fun_eq_iff)

lemma adds_ok: "adds cls cfg c c' \<Longrightarrow> comp_ok c \<Longrightarrow> comp_ok c'"
  by (auto simp: adds_def comp_ok_def)

text \<open>One step of the creation: the port it adds, whether it is polled, and the timer behind it.\<close>

definition creates ::
  "port_class \<Rightarrow> bool \<Rightarrow> ('c \<Rightarrow> port_config) \<Rightarrow> ('c \<Rightarrow> bool option) \<Rightarrow> ('c \<Rightarrow> startup \<Rightarrow> net_error + startup) \<Rightarrow> bool" where
  "creates cls polled cfg run f \<longleftrightarrow> (\<forall>x s s'. f x s = Inr s' \<longrightarrow>
     adds cls (cfg x) (su_component s) (su_component s') \<and>
     su_polled s' = su_polled s @ (if polled then [pc_port_name (cfg x)] else []) \<and>
     (\<lambda>n. map_option ti_has_started (map_of (su_timers s') n)) =
       (case run x of None \<Rightarrow> \<lambda>n. map_option ti_has_started (map_of (su_timers s) n)
        | Some b \<Rightarrow> (\<lambda>n. map_option ti_has_started (map_of (su_timers s) n))(pc_port_name (cfg x) \<mapsto> b)))"

lemma creates_each:
  assumes "creates cls polled cfg run f" "each_port f xs s = Inr s'"
  shows "port_classes (su_component s') = port_classes (su_component s) ++ map_of (rev (map (\<lambda>x. (pc_port_name (cfg x), cls)) xs)) \<and>
    su_polled s' = su_polled s @ (if polled then map (\<lambda>x. pc_port_name (cfg x)) xs else []) \<and>
    (comp_ok (su_component s) \<longrightarrow> comp_ok (su_component s'))"
  using assms(2)
proof (induction xs arbitrary: s)
  case (Cons x xs)
  then obtain s1 where s1: "f x s = Inr s1" "each_port f xs s1 = Inr s'" by (auto split: sum.splits)
  have c: "adds cls (cfg x) (su_component s) (su_component s1)"
    "su_polled s1 = su_polled s @ (if polled then [pc_port_name (cfg x)] else [])"
    using assms(1) s1(1) by (auto simp: creates_def)
  show ?case using Cons.IH [OF s1(2)] c adds_classes [OF c(1)] adds_ok [OF c(1)] by (auto simp: map_add_def fun_eq_iff split: option.split)
qed simp

lemma creates_timers:
  assumes "creates cls polled cfg run f" "each_port f xs s = Inr s'"
  shows "(\<lambda>n. map_option ti_has_started (map_of (su_timers s') n)) =
    (\<lambda>n. map_option ti_has_started (map_of (su_timers s) n)) ++
      map_of (rev (concat (map (\<lambda>x. case run x of None \<Rightarrow> [] | Some b \<Rightarrow> [(pc_port_name (cfg x), b)]) xs)))"
  using assms(2)
proof (induction xs arbitrary: s)
  case (Cons x xs)
  then obtain s1 where s1: "f x s = Inr s1" "each_port f xs s1 = Inr s'" by (auto split: sum.splits)
  have "(\<lambda>n. map_option ti_has_started (map_of (su_timers s1) n)) = 
       (case run x of None \<Rightarrow> \<lambda>n. map_option ti_has_started (map_of (su_timers s) n)
        | Some b \<Rightarrow> (\<lambda>n. map_option ti_has_started (map_of (su_timers s) n))(pc_port_name (cfg x) \<mapsto> b))"
    using assms(1) s1(1) by (auto simp: creates_def)
  then show ?case using Cons.IH [OF s1(2)] by (cases "run x") (auto simp: map_add_def fun_eq_iff split: option.split)
qed (simp add: fun_eq_iff map_add_def)

lemma creates_inside: "creates CInsidePort True id (\<lambda>_. None) (start_inside ev)"
  using adds_inside by (auto simp: creates_def start_inside_def poll_port_def)

lemma creates_timer: "creates CPeriodicTimer True fst (\<lambda>x. Some (snd x \<noteq> 0)) (start_timer ev)"
proof -
  have "adds CPeriodicTimer cfg (su_component s) (su_component (InitTimerPort ev cfg period s))" for cfg period s
    by (rule adds_timer)
  then show ?thesis
    by (auto simp: creates_def start_timer_def poll_port_def Let_def)
      (auto simp: fun_eq_iff InitTimerPort_def Let_def um_get_put PeriodicTimer_new_def Timer_Start_def has_delay_def split: if_splits)
qed

lemma creates_registered:
  "(\<And>ev cfg c c' rs. init ev cfg c = Inr (c', rs) \<Longrightarrow> adds cls cfg c c') \<Longrightarrow>
     creates cls False id (\<lambda>_. None) (start_registered init ev)"
  by (auto simp: creates_def start_registered_def split: sum.splits)

lemma creates_polled:
  "creates cls False id run f \<Longrightarrow> creates cls True id run (\<lambda>cfg s. map_sum id (poll_port cfg) (f cfg s))"
  unfolding creates_def by (auto simp: poll_port_def map_sum_def split: sum.splits)

lemma creates_client:
  "(\<And>ev cfg c c'. init ev cfg c = Inr c' \<Longrightarrow> adds cls cfg c c') \<Longrightarrow>
     creates cls True id (\<lambda>_. None) (start_client init ev)"
  by (auto simp: creates_def start_client_def poll_port_def split: sum.splits)

section \<open>The ports of a started component\<close>

text \<open>The ports of the eight lists the thread goes through, in its order; it looks at neither the clients nor the servers.\<close>

definition created :: "ComponentPorts \<Rightarrow> (string \<times> port_class) list" where
  "created conf =
     map (\<lambda>c. (pc_port_name c, CInsidePort)) (cp_inss conf) @
     map (\<lambda>c. (pc_port_name (fst c), CPeriodicTimer)) (cp_tims conf) @
     map (\<lambda>c. (pc_port_name c, CPublisherPort)) (cp_pubs conf) @
     map (\<lambda>c. (pc_port_name c, CResponsePort)) (cp_reps conf) @
     map (\<lambda>c. (pc_port_name c, CAnswerPort)) (cp_anss conf) @
     map (\<lambda>c. (pc_port_name c, CRequestPort)) (cp_reqs conf) @
     map (\<lambda>c. (pc_port_name c, CQueryPort)) (cp_qrys conf) @
     map (\<lambda>c. (pc_port_name c, CSubscriberPort)) (cp_subs conf)"

definition running :: "startup \<Rightarrow> string \<Rightarrow> bool option" where
  "running s name = map_option ti_has_started (map_of (su_timers s) name)"

lemma and_then_Inr: "and_then r f = Inr s \<longleftrightarrow> (\<exists>s1. r = Inr s1 \<and> f s1 = Inr s)"
  by (auto simp: and_then_def split: sum.splits)

lemma no_timers: "concat (map (\<lambda>x. []) xs) = []"
  by simp

lemma creates_no_timers:
  "creates cls polled cfg (\<lambda>_. None) f \<Longrightarrow> each_port f xs s = Inr s' \<Longrightarrow> running s' = running s"
  using creates_timers [of cls polled cfg "\<lambda>_. None" f xs s s'] by (simp add: running_def no_timers map_add_def fun_eq_iff)

lemmas port_creators =
  creates_inside creates_timer
  creates_registered [OF adds_publisher] creates_polled [OF creates_registered [OF adds_response]]
  creates_polled [OF creates_registered [OF adds_answer]]
  creates_client [OF adds_request] creates_client [OF adds_query] creates_client [OF adds_subscriber]

lemma first_run_ports:
  assumes "first_run ev conf s = Inr s'"
  shows "port_classes (su_component s') = port_classes (su_component s) ++ map_of (rev (created conf)) \<and>
    su_polled s' = su_polled s @ map fst (filter (\<lambda>d. snd d \<noteq> CPublisherPort) (created conf)) \<and>
    running s' = running s ++ map_of (rev (map (\<lambda>(cfg, period). (pc_port_name cfg, period \<noteq> 0)) (cp_tims conf))) \<and>
    (comp_ok (su_component s) \<longrightarrow> comp_ok (su_component s'))"
proof -
  obtain s1 s2 s3 s4 s5 s6 s7 where
    r: "each_port (start_inside ev) (cp_inss conf) s = Inr s1" "each_port (start_timer ev) (cp_tims conf) s1 = Inr s2"
      "each_port (start_registered InitPublisherPort ev) (cp_pubs conf) s2 = Inr s3"
      "each_port (\<lambda>cfg s. map_sum id (poll_port cfg) (start_registered InitResponsePort ev cfg s)) (cp_reps conf) s3 = Inr s4"
      "each_port (\<lambda>cfg s. map_sum id (poll_port cfg) (start_registered InitAnswerPort ev cfg s)) (cp_anss conf) s4 = Inr s5"
      "each_port (start_client InitRequestPort ev) (cp_reqs conf) s5 = Inr s6"
      "each_port (start_client InitQueryPort ev) (cp_qrys conf) s6 = Inr s7"
      "each_port (start_client InitSubscriberPort ev) (cp_subs conf) s7 = Inr s'"
    using assms
    by (auto simp: first_run_def and_then_Inr start_publisher_def [abs_def] start_response_def [abs_def] start_answer_def [abs_def]
        start_request_def start_query_def start_subscriber_def)
  note c1 = creates_each [OF port_creators(1) r(1)]
  note c2 = creates_each [OF port_creators(2) r(2)]
  note c3 = creates_each [OF port_creators(3) r(3)]
  note c4 = creates_each [OF port_creators(4) r(4)]
  note c5 = creates_each [OF port_creators(5) r(5)]
  note c6 = creates_each [OF port_creators(6) r(6)]
  note c7 = creates_each [OF port_creators(7) r(7)]
  note c8 = creates_each [OF port_creators(8) r(8)]
  have "port_classes (su_component s') = port_classes (su_component s) ++ map_of (rev (created conf))"
    using c1 c2 c3 c4 c5 c6 c7 c8 by (simp add: created_def)
  moreover have "su_polled s' = su_polled s @ map fst (filter (\<lambda>d. snd d \<noteq> CPublisherPort) (created conf))"
    using c1 c2 c3 c4 c5 c6 c7 c8 by (simp add: created_def filter_map comp_def)
  moreover have "running s2 = running s1 ++ map_of (rev (map (\<lambda>(cfg, period). (pc_port_name cfg, period \<noteq> 0)) (cp_tims conf)))"
    using creates_timers [OF port_creators(2) r(2)] by (simp add: running_def [abs_def] case_prod_unfold concat_map_singleton)
  then have "running s' = running s ++ map_of (rev (map (\<lambda>(cfg, period). (pc_port_name cfg, period \<noteq> 0)) (cp_tims conf)))"
    using creates_no_timers [OF port_creators(1) r(1)] creates_no_timers [OF port_creators(3) r(3)]
      creates_no_timers [OF port_creators(4) r(4)] creates_no_timers [OF port_creators(5) r(5)]
      creates_no_timers [OF port_creators(6) r(6)] creates_no_timers [OF port_creators(7) r(7)]
      creates_no_timers [OF port_creators(8) r(8)] by simp
  ultimately show ?thesis using c1 c2 c3 c4 c5 c6 c7 c8 by simp
qed

text \<open>C28: the first iteration creates every configured port that is not a client or server port.  When it does not fail, each
  name of the other eight lists is bound to a port of its class (to the last one where a name is repeated), the polled
  ports are all of these but the publishers, in the order of creation, the timers that run are exactly the ones with a
  period, and the component stays well formed.  The configured clients and servers are ignored: a name that is only
  theirs is no port of the component and is not polled.\<close>

theorem first_run_creates_ports:
  assumes "first_run ev conf s = Inr s'"
  shows "port_classes (su_component s') = port_classes (su_component s) ++ map_of (rev (created conf)) \<and>
    su_polled s' = su_polled s @ map fst (filter (\<lambda>d. snd d \<noteq> CPublisherPort) (created conf)) \<and>
    running s' = running s ++ map_of (rev (map (\<lambda>(cfg, period). (pc_port_name cfg, period \<noteq> 0)) (cp_tims conf))) \<and>
    (comp_ok (su_component s) \<longrightarrow> comp_ok (su_component s')) \<and>
    (\<forall>c \<in> set (cp_clts conf) \<union> set (cp_srvs conf). pc_port_name c \<notin> fst ` set (created conf) \<longrightarrow>
       port_classes (su_component s') (pc_port_name c) = port_classes (su_component s) (pc_port_name c) \<and>
       (pc_port_name c \<in> set (su_polled s') \<longleftrightarrow> pc_port_name c \<in> set (su_polled s)))"
proof -
  have "map_of (rev (created conf)) n = None" "n \<notin> set (map fst (filter (\<lambda>d. snd d \<noteq> CPublisherPort) (created conf)))"
    if "n \<notin> fst ` set (created conf)" for n
    using that by (auto simp: map_of_eq_None_iff)
  then show ?thesis using first_run_ports [OF assms] by (simp add: map_add_def)
qed

section \<open>Termination\<close>

lemma stop_each:
  assumes "\<forall>tim \<in> set tims. port_classes (su_component s) (pc_port_name (fst tim)) = Some CPeriodicTimer \<and>
      map_of (su_timers s) (pc_port_name (fst tim)) \<noteq> None"
  shows "\<exists>s'. each_port stop_timer tims s = Inr s' \<and> su_component s' = su_component s \<and>
    (\<forall>n t. map_of (su_timers s) n = Some t \<longrightarrow> (\<exists>t'. map_of (su_timers s') n = Some t' \<and> set (ti_pipe t) \<subseteq> set (ti_pipe t'))) \<and>
    (\<forall>tim \<in> set tims. \<exists>t. map_of (su_timers s') (pc_port_name (fst tim)) = Some t \<and> CMD_TERM \<in> set (ti_pipe t))"
  using assms
proof (induction tims arbitrary: s)
  case (Cons tim tims)
  let ?n = "pc_port_name (fst tim)"
  obtain t where t: "map_of (su_timers s) ?n = Some t" using Cons.prems by auto
  define s1 where "s1 = s\<lparr>su_timers := um_put ?n (Timer_Stop t) (su_timers s)\<rparr>"
  have step: "stop_timer tim s = Inr s1"
    using Cons.prems t by (auto simp: stop_timer_def s1_def port_classes_def GetPortByNameAs_def GetPortByName_def GetPortAs_def Let_def)
  have m1: "map_of (su_timers s1) = (map_of (su_timers s))(?n \<mapsto> Timer_Stop t)" "su_component s1 = su_component s"
    by (simp_all add: s1_def um_get_put)
  have "\<forall>x \<in> set tims. port_classes (su_component s1) (pc_port_name (fst x)) = Some CPeriodicTimer \<and>
      map_of (su_timers s1) (pc_port_name (fst x)) \<noteq> None"
    using Cons.prems m1 by simp
  from Cons.IH [OF this] obtain s' where s': "each_port stop_timer tims s1 = Inr s'" "su_component s' = su_component s1"
    "\<forall>n t. map_of (su_timers s1) n = Some t \<longrightarrow> (\<exists>t'. map_of (su_timers s') n = Some t' \<and> set (ti_pipe t) \<subseteq> set (ti_pipe t'))"
    "\<forall>tim \<in> set tims. \<exists>t. map_of (su_timers s') (pc_port_name (fst tim)) = Some t \<and> CMD_TERM \<in> set (ti_pipe t)"
    by blast
  have stop: "set (ti_pipe (Timer_Stop t)) = insert CMD_TERM (set (ti_pipe t))" by (simp add: Timer_Stop_def)
  obtain t' where t': "map_of (su_timers s') ?n = Some t'" "CMD_TERM \<in> set (ti_pipe t')" "set (ti_pipe t) \<subseteq> set (ti_pipe t')"
    using s'(3) [rule_format, of ?n "Timer_Stop t"] m1(1) stop by auto
  have "map_of (su_timers s) n = Some u \<Longrightarrow> \<exists>u'. map_of (su_timers s') n = Some u' \<and> set (ti_pipe u) \<subseteq> set (ti_pipe u')" for n u
    using s'(3) [rule_format, of n u] t' t m1(1) by (cases "n = ?n") auto
  then show ?case using step s' t' m1(2) by auto
qed auto

lemma created_class: "distinct (map fst (created conf)) \<Longrightarrow> (n, cls) \<in> set (created conf) \<Longrightarrow> map_of (rev (created conf)) n = Some cls"
  by (rule map_of_is_SomeI) (simp_all flip: rev_map)

text \<open>a component that was started can be terminated.  When the port names are distinct,
  \<^verbatim>\<open>Terminate\<close> finds every configured timer, tells each of them to end and deletes the ports.\<close>

theorem terminate_stops_timers:
  assumes "first_run ev conf s = Inr s'" "distinct (map fst (created conf))"
  shows "\<exists>s''. Terminate conf s' = Inr s'' \<and> cb_ports (su_component s'') = [] \<and>
    (\<forall>tim \<in> set (cp_tims conf). \<exists>t. map_of (su_timers s'') (pc_port_name (fst tim)) = Some t \<and> CMD_TERM \<in> set (ti_pipe t))"
proof -
  note r = first_run_ports [OF assms(1)]
  have "port_classes (su_component s') (pc_port_name (fst tim)) = Some CPeriodicTimer \<and>
      map_of (su_timers s') (pc_port_name (fst tim)) \<noteq> None" if "tim \<in> set (cp_tims conf)" for tim
  proof
    have "(pc_port_name (fst tim), CPeriodicTimer) \<in> set (created conf)" using that by (auto simp: created_def)
    then show "port_classes (su_component s') (pc_port_name (fst tim)) = Some CPeriodicTimer"
      using r created_class [OF assms(2)] by (simp add: map_add_def)
    have "map_of (rev (map (\<lambda>(cfg, period). (pc_port_name cfg, period \<noteq> 0)) (cp_tims conf))) (pc_port_name (fst tim)) \<noteq> None"
      using imageI [OF that, of "\<lambda>x. pc_port_name (fst x)"] by (simp add: map_of_eq_None_iff image_image case_prod_unfold)
    then have "running s' (pc_port_name (fst tim)) \<noteq> None" using r by (auto simp: map_add_def)
    then show "map_of (su_timers s') (pc_port_name (fst tim)) \<noteq> None" by (auto simp: running_def)
  qed
  then obtain s1 where "each_port stop_timer (cp_tims conf) s' = Inr s1"
    "\<forall>tim \<in> set (cp_tims conf). \<exists>t. map_of (su_timers s1) (pc_port_name (fst tim)) = Some t \<and> CMD_TERM \<in> set (ti_pipe t)"
    using stop_each [of "cp_tims conf" s'] by blast
  then show ?thesis by (simp add: Terminate_def)
qed

section \<open>Witnesses\<close>

definition ex_cfg :: "string \<Rightarrow> port_config" where
  "ex_cfg name = \<lparr>pc_port_name = name, pc_message_type = [], pc_is_local = False, pc_is_timed = False\<rparr>"

definition ex_ports :: ComponentPorts where
  "ex_ports = \<lparr>cp_clts = [], cp_srvs = [ex_cfg ''server''], cp_pubs = [], cp_subs = [], cp_reqs = [], cp_reps = [], cp_tims = [(ex_cfg ''clock'', 100), (ex_cfg ''once'', 0)],
     cp_inss = [ex_cfg ''inner''], cp_qrys = [], cp_anss = []\<rparr>"

definition ex_start :: startup where
  "ex_start = \<lparr>su_component = ComponentBase_new False ''id'' 0 ''app'' ''actor'' ''comp'', su_timers = [], su_polled = [], su_requests = []\<rparr>"

lemma ex_first_run: "\<exists>s'. first_run ev ex_ports ex_start = Inr s'"
  by (simp add: first_run_def and_then_def ex_ports_def start_inside_def start_timer_def Let_def)

theorem first_run_creates_ports_witness:
  "\<forall>ev. \<exists>s'. first_run ev ex_ports ex_start = Inr s' \<and> su_polled s' = [''inner'', ''clock'', ''once''] \<and>
     running s' ''clock'' = Some True \<and> running s' ''once'' = Some False \<and>
     pc_port_name (hd (cp_srvs ex_ports)) = ''server'' \<and> port_classes (su_component s') ''server'' = None" (is "\<forall>ev. ?P ev")
proof
  fix ev
  obtain s' where s': "first_run ev ex_ports ex_start = Inr s'" using ex_first_run by blast
  then show "?P ev"
    using first_run_creates_ports [OF s']
    by (simp add: created_def ex_ports_def ex_cfg_def ex_start_def map_add_def port_classes_def ComponentBase_new_def)
qed

theorem terminate_stops_timers_witness:
  "\<forall>ev. \<exists>s' s''. first_run ev ex_ports ex_start = Inr s' \<and> Terminate ex_ports s' = Inr s'' \<and> cb_ports (su_component s'') = []" (is "\<forall>ev. ?P ev")
proof
  fix ev
  obtain s' where s': "first_run ev ex_ports ex_start = Inr s'" using ex_first_run by blast
  have "distinct (map fst (created ex_ports))" by (simp add: created_def ex_ports_def ex_cfg_def)
  from terminate_stops_timers [OF s' this] s' show "?P ev" by blast
qed

end
