(* ===== verification/Device.thy ===== *)
theory Device
  imports Component_Start
begin

text \<open>
  Device threads: \<^verbatim>\<open>src/componentmodel/r_devicethread.cc\<close>.  A device component talks to its thread
  through inside ports; the component binds them and the thread connects.  The record \<open>device\<close> holds the
  inside ports by name, the polled ports, and the state of the thread.  Lemmas: every
  inside port of the thread meets the port of the component, and the order of the destructor.
\<close>

record device =
  dt_config :: "port_config list"
  dt_ports :: "(string, port) omap"
  dt_poller :: "string list option"
  dt_terminated :: bool
  dt_running :: bool

definition DeviceThread_new :: "port_config list \<Rightarrow> device" where
  "DeviceThread_new inss = \<lparr>dt_config = inss, dt_ports = [], dt_poller = None, dt_terminated = False, dt_running = False\<rparr>"

definition StartThread :: "device \<Rightarrow> device" where
  "StartThread d = d\<lparr>dt_running := True\<rparr>"

definition AddSocketToPoller :: "string \<Rightarrow> device \<Rightarrow> device" where
  "AddSocketToPoller name d = d\<lparr>dt_poller := (case dt_poller d of Some ps \<Rightarrow> Some (ps @ [name]) | None \<Rightarrow> Some [name])\<rparr>"

text \<open>The ports have no parent component, so no certificate.\<close>

definition InitInsides :: "int \<Rightarrow> device \<Rightarrow> device" where
  "InitInsides junk d =
     fold (\<lambda>cfg d. AddSocketToPoller (pc_port_name cfg)
             (d\<lparr>dt_ports := om_put (pc_port_name cfg) (InsidePort_new CONNECT cfg None False junk) (dt_ports d)\<rparr>))
       (dt_config d) d"

definition GetInsidePortByName :: "string \<Rightarrow> device \<Rightarrow> port option" where
  "GetInsidePortByName portName d = map_of (dt_ports d) portName"

definition Device_SendMessageOnPort :: "timespec \<Rightarrow> int \<Rightarrow> int \<Rightarrow> frame \<Rightarrow> string \<Rightarrow> device \<Rightarrow> bool \<times> device" where
  "Device_SendMessageOnPort stamp rc errno content portName d =
     (case GetInsidePortByName portName d of
        None \<Rightarrow> (False, d)
      | Some p \<Rightarrow> (let (e, p') = SenderPort_Send stamp rc errno [content] p
                  in (pe_bool e, d\<lparr>dt_ports := om_put portName p' (dt_ports d)\<rparr>)))"

text \<open>Joining the thread waits for it to end.\<close>

definition Device_Terminate :: "device \<Rightarrow> device" where
  "Device_Terminate d = d\<lparr>dt_terminated := True, dt_running := False\<rparr>"

text \<open>The destructor in the order of its statements: the state after the ports are deleted, and at the end.\<close>

definition DeviceThread_destroy :: "device \<Rightarrow> device \<times> device" where
  "DeviceThread_destroy d = (let d1 = d\<lparr>dt_ports := []\<rparr> in (d1, Device_Terminate d1))"

section \<open>The two ends of an inside port\<close>

definition inside_endpoint :: "string \<Rightarrow> string" where
  "inside_endpoint name = ''inproc://inside_'' @ name"

lemma inside_ends:
  "map_option so_bound (pt_socket (InsidePort_new BIND cfg pa ck j)) = Some [inside_endpoint (pc_port_name cfg)]"
  "map_option so_connected (pt_socket (InsidePort_new CONNECT cfg pa ck j)) = Some [inside_endpoint (pc_port_name cfg)]"
  by (simp_all add: InsidePort_new_def connect_socket_def on_socket_def zsock_new_def inside_endpoint_def PortBase_new_def Let_def)

lemma InitInsides_ports:
  "map_of (dt_ports (fold (\<lambda>cfg d. AddSocketToPoller (pc_port_name cfg)
       (d\<lparr>dt_ports := om_put (pc_port_name cfg) (InsidePort_new CONNECT cfg None False junk) (dt_ports d)\<rparr>)) cfgs d)) =
     map_of (dt_ports d) ++ map_of (rev (map (\<lambda>cfg. (pc_port_name cfg, InsidePort_new CONNECT cfg None False junk)) cfgs))"
  by (induction cfgs arbitrary: d) (simp_all add: AddSocketToPoller_def om_get_put)

lemma each_inside_ports:
  "each_port (start_inside ev) cfgs s = Inr s' \<Longrightarrow>
     map_of (cb_ports (su_component s')) = map_of (cb_ports (su_component s)) ++
       map_of (rev (map (\<lambda>cfg. (pc_port_name cfg, InsidePort_new BIND cfg (Some (cb_has_security (su_component s)))
         (ev_curve_key (se_port ev (pc_port_name cfg))) (ev_junk (se_port ev (pc_port_name cfg))))) cfgs))"
proof (induction cfgs arbitrary: s)
  case (Cons cfg cfgs)
  obtain s1 where s1: "start_inside ev cfg s = Inr s1" "each_port (start_inside ev) cfgs s1 = Inr s'"
    using Cons.prems by (auto split: sum.splits)
  have cfg': "pc_port_name (pt_config (InsidePort_new BIND cfg a b c)) = pc_port_name cfg" for a b c
    by (simp add: InsidePort_new_def on_socket_def PortBase_new_def Let_def)
  have "map_of (cb_ports (su_component s1)) = (map_of (cb_ports (su_component s)))(pc_port_name cfg \<mapsto>
      InsidePort_new BIND cfg (Some (cb_has_security (su_component s)))
         (ev_curve_key (se_port ev (pc_port_name cfg))) (ev_junk (se_port ev (pc_port_name cfg))))"
    "cb_has_security (su_component s1) = cb_has_security (su_component s)"
    using s1(1) by (auto simp: start_inside_def poll_port_def InitInsidePort_def put_port_def um_get_put cfg')
  with Cons.IH [OF s1(2)] show ?case by (simp add: fun_eq_iff map_add_def split: option.split)
qed simp

lemma map_of_rev_keys:
  "map_of (rev (map (\<lambda>x. (f x, g x)) xs)) n = Some v \<Longrightarrow> \<exists>x \<in> set xs. f x = n \<and> v = g x"
  by (auto dest!: map_of_SomeD)

lemma map_of_rev_in: "n \<in> f ` set xs \<Longrightarrow> map_of (rev (map (\<lambda>x. (f x, g x)) xs)) n \<noteq> None"
  by (auto simp: map_of_eq_None_iff image_image)

text \<open>C31: a device thread and its component meet on every inside port.  The thread connects, for each
  configured inside port, to the very endpoint to which the component binds the port of the
  same name.\<close>

theorem device_meets_component:
  assumes "each_port (start_inside ev) inss s = Inr s'" "cfg \<in> set inss"
  shows "\<exists>pc pd. map_of (cb_ports (su_component s')) (pc_port_name cfg) = Some pc \<and>
    GetInsidePortByName (pc_port_name cfg) (InitInsides junk (DeviceThread_new inss)) = Some pd \<and>
    map_option so_bound (pt_socket pc) = map_option so_connected (pt_socket pd) \<and> pt_socket pd \<noteq> None"
proof -
  let ?n = "pc_port_name cfg"
  have n: "?n \<in> pc_port_name ` set inss" using assms(2) by simp
  obtain pd where pd: "GetInsidePortByName ?n (InitInsides junk (DeviceThread_new inss)) = Some pd"
    "map_option so_connected (pt_socket pd) = Some [inside_endpoint ?n]"
    using map_of_rev_in [OF n, of "\<lambda>cfg. InsidePort_new CONNECT cfg None False junk"]
      map_of_rev_keys [of pc_port_name "\<lambda>cfg. InsidePort_new CONNECT cfg None False junk" inss ?n] inside_ends(2)
    by (fastforce simp: GetInsidePortByName_def InitInsides_def InitInsides_ports DeviceThread_new_def)
  let ?g = "\<lambda>cfg. InsidePort_new BIND cfg (Some (cb_has_security (su_component s)))
         (ev_curve_key (se_port ev (pc_port_name cfg))) (ev_junk (se_port ev (pc_port_name cfg)))"
  obtain pc where pc: "map_of (cb_ports (su_component s')) ?n = Some pc" "map_option so_bound (pt_socket pc) = Some [inside_endpoint ?n]"
    using map_of_rev_in [OF n, of ?g] map_of_rev_keys [of pc_port_name ?g inss ?n] inside_ends(1)
    by (fastforce simp: each_inside_ports [OF assms(1)])
  show ?thesis using pd pc by auto
qed

text \<open>The destructor deletes the ports before it stops the thread that uses them.\<close>

lemma ports_deleted_under_thread:
  "dt_running d \<Longrightarrow> dt_running (fst (DeviceThread_destroy d)) \<and> dt_ports (fst (DeviceThread_destroy d)) = []"
  by (simp add: DeviceThread_destroy_def Let_def)

theorem device_meets_component_witness:
  "\<forall>ev. \<exists>s' pc pd. each_port (start_inside ev) [ex_cfg ''inner''] ex_start = Inr s' \<and> map_of (cb_ports (su_component s')) ''inner'' = Some pc \<and>
     GetInsidePortByName ''inner'' (InitInsides 0 (DeviceThread_new [ex_cfg ''inner''])) = Some pd \<and>
     map_option so_bound (pt_socket pc) = map_option so_connected (pt_socket pd)" (is "\<forall>ev. ?P ev")
proof
  fix ev
  obtain s' where s': "each_port (start_inside ev) [ex_cfg ''inner''] ex_start = Inr s'" by (simp add: start_inside_def)
  have "pc_port_name (ex_cfg ''inner'') = ''inner''" by (simp add: ex_cfg_def)
  with device_meets_component [OF s', of "ex_cfg ''inner''" 0] s' show "?P ev" by auto
qed

end
