(* ===== verification/Dht_Store.thy ===== *)
theory Dht_Store
  imports Network Riaps_Messages
begin

text \<open>
  What the discovery service stores: the values it puts into the distributed hash table
  (\<^verbatim>\<open>src/discoveryd/r_dhtdata.cc\<close>) and its local database of response ports
  (\<^verbatim>\<open>src/utils/r_lmdb.cc\<close>).  The cryptography of OpenDHT is the argument \<open>crypto\<close>; its documented
  behaviour is \<open>crypto_ok\<close>.  The return codes of LMDB are arguments; the database is the
  sorted list of its committed key-value pairs, and whether a write transaction is open.
\<close>

section \<open>Values in the hash table\<close>

type_synonym blob = string

text \<open>The key of a value in the hash table.  \<^verbatim>\<open>InfoHash::get(s)\<close> is the hash of a string, taken to be different for different
  strings.  The constructor \<^verbatim>\<open>InfoHash(s)\<close> of OpenDHT reads a string as hexadecimal digits: as documented it wants at
  least forty characters, of which it reads the first forty, and gives the zero hash for a shorter
  string.\<close>

datatype info_hash = InfoHash_get string | InfoHash_digits string

abbreviation zero_hash :: info_hash where "zero_hash \<equiv> InfoHash_digits (replicate 40 CHR ''0'')"

definition InfoHash_hex :: "string \<Rightarrow> info_hash" where
  "InfoHash_hex s = (if length s < 40 then zero_hash else InfoHash_digits (take 40 s))"

lemma InfoHash_hex_short: "length s < 40 \<Longrightarrow> InfoHash_hex s = zero_hash"
  by (simp add: InfoHash_hex_def)

lemma InfoHash_hex_not_get [simp]: "InfoHash_hex s \<noteq> InfoHash_get k" "InfoHash_get k \<noteq> InfoHash_hex s"
  by (simp_all add: InfoHash_hex_def)

record crypto =
  ck_sign :: "blob \<Rightarrow> blob"
  ck_encrypt :: "blob \<Rightarrow> blob"
  ck_decrypt :: "blob \<Rightarrow> blob option"
  ck_checkSignature :: "blob \<Rightarrow> blob \<Rightarrow> bool"

record DhtData =
  raw_data :: blob
  encrypted_data :: blob
  signature :: blob

definition DhtData_new :: DhtData where
  "DhtData_new = \<lparr>raw_data = [], encrypted_data = [], signature = []\<rparr>"

definition EncryptData :: "crypto \<Rightarrow> blob \<Rightarrow> DhtData \<Rightarrow> DhtData" where
  "EncryptData ck data d = d\<lparr>signature := ck_sign ck data, encrypted_data := ck_encrypt ck data\<rparr>"

text \<open>A failed decryption throws, which is caught.\<close>

definition DecryptData :: "crypto \<Rightarrow> DhtData \<Rightarrow> bool \<times> DhtData" where
  "DecryptData ck d =
     (case ck_decrypt ck (encrypted_data d) of
        None \<Rightarrow> (False, d)
      | Some data \<Rightarrow> if ck_checkSignature ck data (signature d) then (True, d\<lparr>raw_data := data\<rparr>) else (False, d))"

text \<open>What is put, and what is read from the values that arrive: undecipherable values are
  skipped.\<close>

definition make_value :: "crypto \<Rightarrow> bool \<Rightarrow> blob \<Rightarrow> DhtData" where
  "make_value ck has_security data =
     (if has_security then EncryptData ck data DhtData_new else DhtData_new\<lparr>raw_data := data\<rparr>)"

definition read_value :: "crypto \<Rightarrow> bool \<Rightarrow> DhtData \<Rightarrow> blob option" where
  "read_value ck has_security v =
     (if has_security then (let (ok, v') = DecryptData ck v in if ok then Some (raw_data v') else None)
      else Some (raw_data v))"

definition read_values :: "crypto \<Rightarrow> bool \<Rightarrow> DhtData list \<Rightarrow> blob list" where
  "read_values ck has_security vs = List.map_filter (read_value ck has_security) vs"

text \<open>Decryption inverts encryption, and a signature is valid exactly for the data signed.\<close>

definition crypto_ok :: "crypto \<Rightarrow> bool" where
  "crypto_ok ck \<longleftrightarrow> (\<forall>data. ck_decrypt ck (ck_encrypt ck data) = Some data) \<and>
     (\<forall>data s. ck_checkSignature ck data s \<longleftrightarrow> s = ck_sign ck data)"

lemma read_make_value: "crypto_ok ck \<or> \<not> sec \<Longrightarrow> read_value ck sec (make_value ck sec data) = Some data"
  by (auto simp: crypto_ok_def read_value_def make_value_def DecryptData_def EncryptData_def)

lemma read_value_signed:
  "crypto_ok ck \<Longrightarrow> read_value ck True v = Some data \<Longrightarrow> signature v = ck_sign ck data"
  by (auto simp: crypto_ok_def read_value_def DecryptData_def split: option.splits if_splits)

text \<open>In the clear without security, and never in the clear with it.\<close>

lemma make_value_raw: "raw_data (make_value ck sec data) = (if sec then [] else data)"
  by (simp add: make_value_def EncryptData_def DhtData_new_def)

section \<open>The local database\<close>

text \<open>An operation throws, it meets a handle that was never opened and its behaviour is undefined, or it waits for ever: there
  is one write transaction at a time, and every operation begins one.\<close>

datatype lmdb_exn = Lmdb_error | Lmdb_undefined | Lmdb_blocked

type_synonym pairs = "(string \<times> string) list"

text \<open>In \<open>Txn_db\<close> a write transaction has begun and was neither committed nor aborted; the pairs are the committed ones.\<close>

datatype lmdb = No_db | Broken_db | Open_db pairs | Txn_db pairs

text \<open>The directory; an empty variable makes \<^verbatim>\<open>back\<close> read before the string.\<close>

definition Lmdb_dir :: "string option \<Rightarrow> lmdb_exn + string" where
  "Lmdb_dir riaps_apps =
     (case riaps_apps of
        None \<Rightarrow> Inl Lmdb_error
      | Some [] \<Rightarrow> Inl Lmdb_undefined
      | Some p \<Rightarrow> Inr ((if last p = CHR ''/'' then butlast p else p) @ ''/riaps-disco.lmdb''))"

text \<open>\<open>mdb_env\<close> gives the return codes of creating and opening the environment, and \<open>stored\<close> what
  is in the directory.\<close>

record db_env =
  db_apps :: "string option"
  db_open_rc :: "nat \<Rightarrow> int"
  db_stored :: "string \<Rightarrow> pairs"
  db_rc :: "nat \<Rightarrow> int"

definition Lmdb_Init :: "db_env \<Rightarrow> lmdb_exn + pairs" where
  "Lmdb_Init env =
     (case Lmdb_dir (db_apps env) of
        Inl e \<Rightarrow> Inl e
      | Inr p \<Rightarrow> if db_open_rc env 0 \<noteq> 0 \<or> db_open_rc env 1 \<noteq> 0 then Inl Lmdb_error else Inr (db_stored env p))"

text \<open>The singleton is set before it is initialised.\<close>

definition Lmdb_db :: "db_env \<Rightarrow> lmdb \<Rightarrow> lmdb_exn option \<times> lmdb" where
  "Lmdb_db env s =
     (case s of
        No_db \<Rightarrow> (case Lmdb_Init env of Inl e \<Rightarrow> (Some e, Broken_db) | Inr ps \<Rightarrow> (None, Open_db ps))
      | _ \<Rightarrow> (None, s))"

text \<open>The return codes of an operation are \<open>db_rc\<close> at 0 (begin), 1 (open the table), 2 (the write or the cursor) and 3
  (commit); \<open>db_op n\<close> are those of the n-th operation in a handler.\<close>

definition db_op :: "nat \<Rightarrow> db_env \<Rightarrow> db_env" where
  "db_op n env = env\<lparr>db_rc := \<lambda>i. db_rc env (4 * n + i)\<rparr>"

text \<open>A transaction that has begun is left open when the table cannot be opened.\<close>

definition OpenTxn :: "db_env \<Rightarrow> lmdb \<Rightarrow> (lmdb_exn + pairs) \<times> lmdb" where
  "OpenTxn env s =
     (case s of
        Open_db ps \<Rightarrow>
          if db_rc env 0 \<noteq> 0 then (Inl Lmdb_error, s)
          else if db_rc env 1 \<noteq> 0 then (Inl Lmdb_error, Txn_db ps)
          else (Inr ps, Txn_db ps)
      | Txn_db ps \<Rightarrow> (Inl Lmdb_blocked, s)
      | _ \<Rightarrow> (Inl Lmdb_undefined, s))"

fun insert_pair :: "string \<times> string \<Rightarrow> pairs \<Rightarrow> pairs" where
  "insert_pair p [] = [p]"
| "insert_pair (k, v) ((a, b) # ps) =
     (if k < a \<or> k = a \<and> v < b then (k, v) # (a, b) # ps
      else if k = a \<and> v = b then (a, b) # ps
      else (a, b) # insert_pair (k, v) ps)"

text \<open>A write takes effect when it is committed.  An error of the write leaves the transaction open; a commit frees it, also
  when it fails.\<close>

definition Lmdb_Put :: "db_env \<Rightarrow> string \<Rightarrow> string \<Rightarrow> lmdb \<Rightarrow> lmdb_exn option \<times> lmdb" where
  "Lmdb_Put env skey sval s =
     (case OpenTxn env s of
        (Inl e, s1) \<Rightarrow> (Some e, s1)
      | (Inr ps, s1) \<Rightarrow>
          if db_rc env 2 \<noteq> 0 then (Some Lmdb_error, s1)
          else if db_rc env 3 \<noteq> 0 then (Some Lmdb_error, Open_db ps)
          else (None, Open_db (insert_pair (skey, sval) ps)))"

text \<open>The return code of the commit is not looked at.\<close>

definition Lmdb_Del :: "db_env \<Rightarrow> string \<Rightarrow> lmdb \<Rightarrow> lmdb_exn option \<times> lmdb" where
  "Lmdb_Del env skey s =
     (case OpenTxn env s of
        (Inl e, s1) \<Rightarrow> (Some e, s1)
      | (Inr ps, s1) \<Rightarrow>
          if db_rc env 2 \<noteq> 0 then (Some Lmdb_error, s1)
          else (None, Open_db (if db_rc env 3 = 0 then kv_del skey ps else ps)))"

definition Lmdb_GetAll :: "db_env \<Rightarrow> lmdb \<Rightarrow> (lmdb_exn + pairs) \<times> lmdb" where
  "Lmdb_GetAll env s =
     (case OpenTxn env s of
        (Inl e, s1) \<Rightarrow> (Inl e, s1)
      | (Inr ps, s1) \<Rightarrow> if db_rc env 2 \<noteq> 0 then (Inl Lmdb_error, s1) else (Inr ps, Open_db ps))"

text \<open>When the key is missing the function returns without closing the transaction.\<close>

definition Lmdb_Get :: "db_env \<Rightarrow> string \<Rightarrow> lmdb \<Rightarrow> (lmdb_exn + string list) \<times> lmdb" where
  "Lmdb_Get env skey s =
     (case OpenTxn env s of
        (Inl e, s1) \<Rightarrow> (Inl e, s1)
      | (Inr ps, s1) \<Rightarrow>
          if db_rc env 2 \<noteq> 0 then (Inl Lmdb_error, s1)
          else let results = map snd (filter (\<lambda>p. fst p = skey) ps)
               in if results = [] then (Inr [], s1) else (Inr results, Open_db ps))"

lemmas lmdb_ops = Lmdb_Put_def Lmdb_Del_def Lmdb_GetAll_def Lmdb_Get_def OpenTxn_def

text \<open>The keys and values are sorted and occur once.\<close>

definition pairs_ok :: "pairs \<Rightarrow> bool" where
  "pairs_ok = sorted_wrt (\<lambda>p q. fst p < fst q \<or> fst p = fst q \<and> snd p < snd q)"

definition lmdb_ok :: "lmdb \<Rightarrow> bool" where
  "lmdb_ok s = (case s of Open_db ps \<Rightarrow> pairs_ok ps | Txn_db ps \<Rightarrow> pairs_ok ps | _ \<Rightarrow> True)"

lemma insert_pair_set: "set (insert_pair p ps) = insert p (set ps)"
  by (induction p ps rule: insert_pair.induct) auto

lemma insert_pair_sorted: "pairs_ok ps \<Longrightarrow> pairs_ok (insert_pair p ps)"
  by (induction p ps rule: insert_pair.induct) (auto simp: pairs_ok_def insert_pair_set)

lemma pairs_ok_del: "pairs_ok ps \<Longrightarrow> pairs_ok (kv_del k ps)"
  by (simp add: pairs_ok_def kv_del_def sorted_wrt_filter)

lemma lmdb_ok_ops:
  assumes "lmdb_ok s"
  shows "lmdb_ok (snd (Lmdb_Put env k v s))" "lmdb_ok (snd (Lmdb_Del env k s))" "lmdb_ok (snd (Lmdb_GetAll env s))"
    "lmdb_ok (snd (Lmdb_Get env k s))"
  using assms by (auto simp: lmdb_ok_def lmdb_ops insert_pair_sorted pairs_ok_del Let_def split: lmdb.splits)

text \<open>What was put is read back, and nothing else changes; reading a key that is there closes its transaction.\<close>

lemma Lmdb_Get_after_Put:
  assumes "Lmdb_Put env k v (Open_db ps) = (None, s')" "\<forall>i. db_rc env' i = 0"
  shows "\<exists>vs. Lmdb_Get env' k s' = (Inr vs, s') \<and> set vs = insert v {w. (k, w) \<in> set ps}"
proof -
  define vs where "vs = map snd (filter (\<lambda>p. fst p = k) (insert_pair (k, v) ps))"
  have s': "s' = Open_db (insert_pair (k, v) ps)" using assms(1) by (auto simp: Lmdb_Put_def OpenTxn_def split: if_splits)
  have "w \<in> set vs \<longleftrightarrow> w = v \<or> (k, w) \<in> set ps" for w
  proof -
    have "w \<in> set vs \<longleftrightarrow> (k, w) \<in> set (insert_pair (k, v) ps)" unfolding vs_def by (auto intro: rev_image_eqI)
    then show ?thesis by (auto simp: insert_pair_set)
  qed
  then have "set vs = insert v {w. (k, w) \<in> set ps}" by blast
  moreover from this have "vs \<noteq> []" by (metis insert_not_empty list.set(1))
  ultimately show ?thesis using assms(2) by (simp add: s' Lmdb_Get_def OpenTxn_def Let_def flip: vs_def)
qed

text \<open>a read of a key that is missing, and a write that fails, leave their transaction open, and every later operation
  waits for ever.\<close>

theorem open_transaction_blocks:
  assumes "\<forall>i. db_rc env i = 0" "\<forall>w. (k, w) \<notin> set ps" "db_rc env' 0 = 0" "db_rc env' 1 = 0" "db_rc env' 2 \<noteq> 0"
    and "s1 = snd (Lmdb_Get env k (Open_db ps)) \<or> s1 = snd (Lmdb_Put env' k v (Open_db ps))"
  shows "Lmdb_Put env'' k' v' s1 = (Some Lmdb_blocked, s1) \<and> Lmdb_Del env'' k' s1 = (Some Lmdb_blocked, s1) \<and>
    Lmdb_GetAll env'' s1 = (Inl Lmdb_blocked, s1) \<and> Lmdb_Get env'' k' s1 = (Inl Lmdb_blocked, s1)"
proof -
  have "filter (\<lambda>p. fst p = k) ps = []" using assms(2) by (auto simp: filter_empty_conv)
  then have "s1 = Txn_db ps" using assms by (auto simp: lmdb_ops Let_def)
  then show ?thesis by (simp add: lmdb_ops)
qed

theorem open_transaction_blocks_witness:
  "let env = \<lparr>db_apps = None, db_open_rc = \<lambda>_. 0, db_stored = \<lambda>_. [], db_rc = \<lambda>_. 0\<rparr>; s1 = snd (Lmdb_Get env ''k'' (Open_db []))
   in s1 = Txn_db [] \<and> Lmdb_Put env ''k'' ''v'' s1 = (Some Lmdb_blocked, s1)"
proof -
  define env :: db_env where "env = \<lparr>db_apps = None, db_open_rc = \<lambda>_. 0, db_stored = \<lambda>_. [], db_rc = \<lambda>_. 0\<rparr>"
  have "\<forall>i. db_rc env i = 0" "\<forall>w. (''k'', w) \<notin> set ([] :: pairs)" "db_rc (env\<lparr>db_rc := \<lambda>i. if i = 2 then 1 else 0\<rparr>) 0 = 0"
    "db_rc (env\<lparr>db_rc := \<lambda>i. if i = 2 then 1 else 0\<rparr>) 1 = 0" "db_rc (env\<lparr>db_rc := \<lambda>i. if i = 2 then 1 else 0\<rparr>) 2 \<noteq> 0"
    by (simp_all add: env_def)
  note open_transaction_blocks [OF this disjI1 [OF refl], of env "''k''" "''v''"]
  moreover have "snd (Lmdb_Get env ''k'' (Open_db [])) = Txn_db []" by (simp add: Lmdb_Get_def OpenTxn_def env_def)
  ultimately show ?thesis unfolding Let_def env_def [symmetric] by blast
qed

end
