(* ===== verification/Disco_Handler.thy ===== *)
theory Disco_Handler
  imports Dht_Store Ports
begin

text \<open>
  The message handler of the discovery daemon: \<^verbatim>\<open>src/discoveryd/r_msghandler.cc\<close>.  The record
  \<open>disco\<close> holds the registered actors, the subscriptions, the check-ins and the zombies, and three logs:
  \<open>d_dht\<close> the calls on the DHT node, \<open>d_replies\<close> the replies on the router socket, \<open>d_sent\<close> the
  updates sent on the pair sockets of the actors.  The callbacks the handler leaves with the DHT are
  functions from the values that arrive to the messages they push into the result channel; one
  iteration of \<^verbatim>\<open>Run\<close> is \<open>Run_step\<close>.  The answers of the operating system, the clocks, LMDB and the
  cryptography are in \<open>disco_env\<close>.
\<close>

section \<open>State\<close>

record ActorDetails =
  ad_socket :: nat
  ad_port :: int
  ad_pid :: int
  ad_app_name :: string

record ClientDetails =
  cd_app_name :: string
  cd_actor_name :: string
  cd_actor_host :: string
  cd_instance_name :: string
  cd_port_name :: string
  cd_is_local :: bool

record ServiceCheckins =
  sc_key :: string
  sc_value :: string
  sc_createdTime :: u64
  sc_timeout :: u64

record RegisteredGroup =
  rg_groupKey :: string
  rg_services :: GroupDetails
  rg_actorPid :: int
  rg_timeout :: timeout

datatype dht_callback =
    OnZombies
  | OnGroups
  | OnProviders string
  | OnProviderGet string ClientDetails nat

datatype dht_call =
    CallPut info_hash DhtData
  | CallGet info_hash dht_callback
  | CallListen info_hash dht_callback
  | CallBootstrap string string

record disco =
  d_mac_address :: string
  d_host_address :: string
  d_zombieglobalkey :: string
  d_zombielocalkey :: string
  d_service_check_period :: u16
  d_zombie_check_period :: u16
  d_last_service_checkin :: int
  d_last_zombie_check :: int
  d_terminated :: bool
  d_has_security :: bool
  d_rep_identity :: "frame option"
  d_clients :: "(string, ActorDetails) omap"
  d_zombie_services :: "(string, int) omap"
  d_client_subscriptions :: "(string, ClientDetails list) omap"
  d_group_listeners :: "(string, unit) omap"
  d_registered_listeners :: "info_hash list"
  d_service_checkins :: "(int, ServiceCheckins list) omap"
  d_group_services :: "(int, RegisteredGroup list) umap"
  d_db :: lmdb
  d_dht :: "dht_call list"
  d_replies :: "(frame option \<times> DiscoRep) list"
  d_sent :: "(nat \<times> DiscoUpd) list"

datatype disco_error = Key_not_found | No_interface net_error | Null_frame | Bad_message | Database_undefined | Database_blocked

record disco_env =
  de_host :: host_env
  de_crypto :: crypto
  de_alive :: "int \<Rightarrow> bool"
  de_socket :: nat
  de_bind :: int
  de_mono :: "nat \<Rightarrow> int"
  de_now :: int
  de_db :: db_env
  de_pack :: "GroupDetails \<Rightarrow> blob"

text \<open>\<open>de_mono\<close> gives the readings of the clock in one iteration: at its start, for the renewal, for the
  zombies, and then in the handler.\<close>

text \<open>The constructor; the two periods are cast to sixteen bits.  \<open>time\<close> is the uninitialised time
  of the last checks.\<close>

definition DiscoveryMessageHandler_new :: "host_env \<Rightarrow> bool \<Rightarrow> int \<Rightarrow> net_error + disco" where
  "DiscoveryMessageHandler_new h security time =
     (case GetMacAddressStripped h [] of
        Inl e \<Rightarrow> Inl e
      | Inr mac \<Rightarrow>
          (case GetIPAddress h [] of
             Inl e \<Rightarrow> Inl e
           | Inr ip \<Rightarrow> Inr
               \<lparr>d_mac_address = mac, d_host_address = ip, d_zombieglobalkey = ''/zombie/globals'',
                d_zombielocalkey = ''/zombie/locals/'' @ mac, d_service_check_period = of_int 20000,
                d_zombie_check_period = of_int 600000, d_last_service_checkin = time, d_last_zombie_check = time,
                d_terminated = False, d_has_security = security, d_rep_identity = None, d_clients = [],
                d_zombie_services = [], d_client_subscriptions = [], d_group_listeners = [],
                d_registered_listeners = [], d_service_checkins = [], d_group_services = [], d_db = No_db,
                d_dht = [], d_replies = [], d_sent = []\<rparr>))"

section \<open>Keys\<close>

fun kindMap :: "Kind \<Rightarrow> string option" where
  "kindMap KindNone = None"
| "kindMap PUB = Some ''pub''"
| "kindMap SUB = Some ''sub''"
| "kindMap CLT = Some ''clt''"
| "kindMap SRV = Some ''srv''"
| "kindMap REQ = Some ''req''"
| "kindMap REP = Some ''rep''"
| "kindMap QRY = Some ''qry''"
| "kindMap ANS = Some ''ans''"

fun kindPairs :: "Kind \<Rightarrow> string option" where
  "kindPairs CLT = kindMap SRV"
| "kindPairs SUB = kindMap PUB"
| "kindPairs REQ = kindMap REP"
| "kindPairs REP = kindMap REQ"
| "kindPairs QRY = kindMap ANS"
| "kindPairs ANS = kindMap QRY"
| "kindPairs _ = None"

definition key_of :: "string \<Rightarrow> string \<Rightarrow> string \<Rightarrow> string" where
  "key_of appName msgType kind = ''/'' @ appName @ ''/'' @ msgType @ ''/'' @ kind"

definition BuildInsertKeyValuePair ::
  "host_env \<Rightarrow> string \<Rightarrow> string \<Rightarrow> Kind \<Rightarrow> Scope \<Rightarrow> string \<Rightarrow> u16 \<Rightarrow> disco_error + (string \<times> string)" where
  "BuildInsertKeyValuePair h appName msgType kind scope host port =
     (let val = host @ '':'' @ to_string_nat (unat port)
      in case kindMap kind of
           None \<Rightarrow> Inl Key_not_found
         | Some k \<Rightarrow>
             if scope = LOCAL
             then (case GetMacAddressStripped h [] of
                     Inl e \<Rightarrow> Inl (No_interface e)
                   | Inr mac \<Rightarrow> Inr (key_of appName msgType k @ mac, val))
             else Inr (key_of appName msgType k, val))"

definition BuildLookupKey ::
  "host_env \<Rightarrow> string \<Rightarrow> string \<Rightarrow> Kind \<Rightarrow> Scope \<Rightarrow> string \<Rightarrow> string \<Rightarrow> string \<Rightarrow> string
   \<Rightarrow> disco_error + (string \<times> string)" where
  "BuildLookupKey h appName msgType kind scope clientActorHost clientActorName clientInstanceName clientPortName =
     (case kindPairs kind of
        None \<Rightarrow> Inl Key_not_found
      | Some k \<Rightarrow>
          (case GetMacAddressStripped h [] of
             Inl e \<Rightarrow> Inl (No_interface e)
           | Inr hostid \<Rightarrow>
               (let client = ''/'' @ appName @ ''/'' @ clientActorName @ ''/'' @ clientActorHost @ ''/'' @
                      clientInstanceName @ ''/'' @ clientPortName
                in if scope = LOCAL
                   then Inr (key_of appName msgType k @ hostid, client @ '':'' @ hostid)
                   else Inr (key_of appName msgType k, client))))"

definition clientKeyBase :: "string \<Rightarrow> string \<Rightarrow> string" where
  "clientKeyBase appName actorName = ''/'' @ appName @ ''/'' @ actorName @ ''/''"

definition groupKey :: "string \<Rightarrow> string" where
  "groupKey appName = ''/groups/'' @ appName"

section \<open>Puts, replies and the database\<close>

definition log_dht :: "dht_call \<Rightarrow> disco \<Rightarrow> disco" where
  "log_dht c d = d\<lparr>d_dht := d_dht d @ [c]\<rparr>"

definition DhtPut_hash :: "disco_env \<Rightarrow> info_hash \<Rightarrow> blob \<Rightarrow> disco \<Rightarrow> disco" where
  "DhtPut_hash ev keyhash data d = log_dht (CallPut keyhash (make_value (de_crypto ev) (d_has_security d) data)) d"

definition DhtPut :: "disco_env \<Rightarrow> string \<Rightarrow> blob \<Rightarrow> disco \<Rightarrow> disco" where
  "DhtPut ev key data d = DhtPut_hash ev (InfoHash_get key) data d"

definition reply :: "DiscoRep \<Rightarrow> disco \<Rightarrow> disco" where
  "reply rep d = d\<lparr>d_replies := d_replies d @ [(d_rep_identity d, rep)]\<rparr>"

text \<open>An operation on the singleton, with the database error caught; one that waits for an open transaction
  never returns.\<close>

fun db_failure :: "lmdb_exn \<Rightarrow> disco_error option" where
  "db_failure Lmdb_error = None"
| "db_failure Lmdb_undefined = Some Database_undefined"
| "db_failure Lmdb_blocked = Some Database_blocked"

definition try_db :: "disco_env \<Rightarrow> (lmdb \<Rightarrow> lmdb_exn option \<times> lmdb) \<Rightarrow> disco \<Rightarrow> disco_error + disco" where
  "try_db ev f d =
     (let (e1, s1) = Lmdb_db (de_db ev) (d_db d);
          (e2, s2) = (if e1 = None then f s1 else (e1, s1))
      in case Option.bind e2 db_failure of Some err \<Rightarrow> Inl err | None \<Rightarrow> Inr (d\<lparr>d_db := s2\<rparr>))"

text \<open>The address goes under the local or the global key of the zombies.\<close>

definition put_zombie :: "disco_env \<Rightarrow> string \<Rightarrow> disco \<Rightarrow> disco" where
  "put_zombie ev address d =
     (if find_str ''127.0.0.1'' address \<noteq> None then DhtPut ev (d_zombielocalkey d) address d
      else DhtPut ev (d_zombieglobalkey d) address d)"

section \<open>Initialisation\<close>

text \<open>The loop stops at the first deletion that throws; \<open>n\<close> counts the operations on the database.\<close>

fun mark_stored :: "disco_env \<Rightarrow> nat \<Rightarrow> pairs \<Rightarrow> disco \<Rightarrow> disco_error + disco" where
  "mark_stored ev n [] d = Inr d"
| "mark_stored ev n ((key, address) # services) d =
     (let d1 = put_zombie ev address d;
          (e, s) = Lmdb_Del (db_op n (de_db ev)) key (d_db d1);
          d2 = d1\<lparr>d_db := s\<rparr>
      in case e of
           None \<Rightarrow> mark_stored ev (Suc n) services d2
         | Some x \<Rightarrow> (case db_failure x of Some err \<Rightarrow> Inl err | None \<Rightarrow> Inr d2))"

definition Handler_Init :: "disco_env \<Rightarrow> disco \<Rightarrow> disco_error + disco" where
  "Handler_Init ev d =
     (let g = InfoHash_get (d_zombieglobalkey d); l = InfoHash_get (d_zombielocalkey d);
          d1 = d\<lparr>d_last_service_checkin := de_mono ev 0, d_last_zombie_check := de_mono ev 0,
                 d_dht := d_dht d @ [CallGet g OnZombies, CallGet l OnZombies, CallListen g OnZombies, CallListen l OnZombies]\<rparr>;
          (e, s) = Lmdb_db (de_db ev) (d_db d1);
          d2 = d1\<lparr>d_db := s\<rparr>
      in case e of
           Some x \<Rightarrow> (case db_failure x of Some err \<Rightarrow> Inl err | None \<Rightarrow> Inr d2)
         | None \<Rightarrow> (case Lmdb_GetAll (db_op 0 (de_db ev)) s of
                     (Inl x, s') \<Rightarrow> (case db_failure x of Some err \<Rightarrow> Inl err | None \<Rightarrow> Inr (d2\<lparr>d_db := s'\<rparr>))
                   | (Inr services, s') \<Rightarrow> mark_stored ev 1 services (d2\<lparr>d_db := s'\<rparr>)))"

section \<open>Requests of the actors\<close>

definition DeregisterActor_disco :: "string \<Rightarrow> string \<Rightarrow> disco \<Rightarrow> int \<times> disco" where
  "DeregisterActor_disco appName actorName d =
     (let base = clientKeyBase appName actorName;
          port = (case map_of (d_clients d) base of Some a \<Rightarrow> ad_port a | None \<Rightarrow> - 1)
      in (port, d\<lparr>d_clients := kv_del (base @ d_host_address d) (kv_del (base @ d_mac_address d)
                                 (kv_del base (d_clients d)))\<rparr>))"

definition HandleActorReg :: "disco_env \<Rightarrow> ActorRegReq \<Rightarrow> disco \<Rightarrow> disco" where
  "HandleActorReg ev req d =
     (let actorname = ar_actorName req; appname = ar_appName req;
          base = clientKeyBase appname actorname;
          registered = map_of (d_clients d) base;
          isRegistered = (registered \<noteq> None);
          isRunning = (case registered of None \<Rightarrow> False | Some a \<Rightarrow> de_alive ev (ad_pid a))
      in if isRunning then reply (RepActorReg StatusErr 0) d
         else let d1 = (if isRegistered then snd (DeregisterActor_disco appname actorname d) else d);
                  details = \<lparr>ad_socket = de_socket ev, ad_port = de_bind ev, ad_pid = ar_pid req, ad_app_name = appname\<rparr>;
                  d2 = d1\<lparr>d_clients := om_put base details (d_clients d1)\<rparr>;
                  d3 = (if map_of (d_group_listeners d2) appname = None
                        then log_dht (CallListen (InfoHash_hex (groupKey appname)) OnGroups)
                               (d2\<lparr>d_group_listeners := om_put appname () (d_group_listeners d2)\<rparr>)
                        else d2);
                  d4 = reply (RepActorReg StatusOk (de_bind ev)) d3
              in d4\<lparr>d_clients := om_put (base @ d_host_address d4) details
                                 (om_put (base @ d_mac_address d4) details (d_clients d4))\<rparr>)"

text \<open>The services of the actor are marked as zombies and removed from the database; they stay among
  the check-ins.\<close>

fun retire_services :: "disco_env \<Rightarrow> nat \<Rightarrow> ServiceCheckins list \<Rightarrow> disco \<Rightarrow> disco_error + disco" where
  "retire_services ev n [] d = Inr d"
| "retire_services ev n (svc # svcs) d =
     (case try_db ev (Lmdb_Del (db_op n (de_db ev)) (sc_key svc)) (put_zombie ev (sc_value svc) d) of
        Inl e \<Rightarrow> Inl e | Inr d1 \<Rightarrow> retire_services ev (Suc n) svcs d1)"

definition HandleActorUnreg :: "disco_env \<Rightarrow> ActorUnregReq \<Rightarrow> disco \<Rightarrow> disco_error + disco" where
  "HandleActorUnreg ev req d =
     (case (case map_of (d_service_checkins d) (au_pid req) of
              None \<Rightarrow> Inr d | Some svcs \<Rightarrow> retire_services ev 0 svcs d) of
        Inl e \<Rightarrow> Inl e
      | Inr d1 \<Rightarrow>
          (let (port, d2) = DeregisterActor_disco (au_appName req) (au_actorName req) d1
           in Inr (reply (if port \<noteq> - 1 then RepActorUnreg StatusOk port else RepActorUnreg StatusErr 0) d2)))"

text \<open>\<^verbatim>\<open>WaitForDht\<close> asks the tracker up to ten times; \<open>answer\<close> gives the replies.\<close>

fun query_stable :: "nat \<Rightarrow> nat \<Rightarrow> (nat \<Rightarrow> bool) \<Rightarrow> bool" where
  "query_stable 0 k answer = False"
| "query_stable (Suc retry) k answer = (if answer k then True else query_stable retry (Suc k) answer)"

definition WaitForDht :: "(nat \<Rightarrow> bool) \<Rightarrow> bool" where
  "WaitForDht answer = query_stable 10 0 answer"

definition checkins_of :: "int \<Rightarrow> disco \<Rightarrow> ServiceCheckins list" where
  "checkins_of pid d = (case map_of (d_service_checkins d) pid of Some svcs \<Rightarrow> svcs | None \<Rightarrow> [])"

text \<open>The outcome of \<^verbatim>\<open>WaitForDht\<close> is only logged.\<close>

definition HandleServiceReg :: "disco_env \<Rightarrow> ServiceRegReq \<Rightarrow> disco \<Rightarrow> disco_error + disco" where
  "HandleServiceReg ev req d =
     (let path = sr_path req; sock = sr_socket req
      in case BuildInsertKeyValuePair (de_host ev) (p_appName path) (p_msgType path) (p_kind path) (p_scope path)
                (s_host sock) (of_int (s_port sock)) of
           Inl e \<Rightarrow> Inl e
         | Inr (key, val) \<Rightarrow>
             (case (if p_kind path = REP then try_db ev (Lmdb_Put (de_db ev) key val) d else Inr d) of
                Inl e \<Rightarrow> Inl e
              | Inr d1 \<Rightarrow>
                  (let item = \<lparr>sc_key = key, sc_value = val, sc_createdTime = of_int (de_mono ev 3),
                               sc_timeout = of_int (10 * 60 * 1000)\<rparr>;
                       d2 = d1\<lparr>d_service_checkins := om_put (sr_pid req) (checkins_of (sr_pid req) d1 @ [item])
                                                       (d_service_checkins d1)\<rparr>
                   in Inr (reply (RepServiceReg StatusOk) (DhtPut_hash ev (InfoHash_get key) val d2)))))"

definition subscriptions_of :: "string \<Rightarrow> disco \<Rightarrow> ClientDetails list" where
  "subscriptions_of key d = (case map_of (d_client_subscriptions d) key of Some cs \<Rightarrow> cs | None \<Rightarrow> [])"

text \<open>The client is looked for among pointers, so it is never found and always added.\<close>

definition HandleServiceLookup :: "disco_env \<Rightarrow> ServiceLookupReq \<Rightarrow> disco \<Rightarrow> disco_error + disco" where
  "HandleServiceLookup ev req d =
     (let client = sl_client req; path = sl_path req
      in case BuildLookupKey (de_host ev) (p_appName path) (p_msgType path) (p_kind path) (p_scope path)
                (c_actorHost client) (c_actorName client) (c_instanceName client) (c_portName client) of
           Inl e \<Rightarrow> Inl e
         | Inr (key, _) \<Rightarrow>
             (case GetIPAddress (de_host ev) [] of
                Inl e \<Rightarrow> Inl (No_interface e)
              | Inr ip \<Rightarrow>
                  (let current = \<lparr>cd_app_name = p_appName path, cd_actor_name = c_actorName client, cd_actor_host = ip,
                         cd_instance_name = c_instanceName client, cd_port_name = c_portName client,
                         cd_is_local = (p_scope path = LOCAL)\<rparr>;
                       d1 = d\<lparr>d_client_subscriptions := om_put key (subscriptions_of key d @ [current])
                                                          (d_client_subscriptions d)\<rparr>;
                       d2 = reply (RepServiceLookup StatusOk []) d1;
                       d3 = (if InfoHash_get key \<notin> set (d_registered_listeners d2)
                             then log_dht (CallListen (InfoHash_get key) (OnProviders key))
                                    (d2\<lparr>d_registered_listeners := InfoHash_get key # d_registered_listeners d2\<rparr>)
                             else d2)
                   in Inr (log_dht (CallGet (InfoHash_get key) (OnProviderGet key current 0)) d3))))"

definition group_services_of :: "int \<Rightarrow> disco \<Rightarrow> RegisteredGroup list" where
  "group_services_of pid d = (case map_of (d_group_services d) pid of Some gs \<Rightarrow> gs | None \<Rightarrow> [])"

text \<open>The members are read under the hexadecimal key and the member is put under the hashed one.\<close>

definition HandleGroupJoin :: "disco_env \<Rightarrow> GroupJoinReq \<Rightarrow> disco \<Rightarrow> disco" where
  "HandleGroupJoin ev req d =
     (let details = \<lparr>gd_app_name = gj_appName req, gd_component_id = gj_componentId req,
             gd_group_id = gj_groupId req, gd_group_services = gj_services req\<rparr>;
          key = groupKey (gj_appName req);
          d1 = log_dht (CallGet (InfoHash_hex key) OnGroups) (reply (RepGroupJoin StatusOk) d);
          reg = \<lparr>rg_groupKey = key, rg_services = details, rg_actorPid = gj_pid req,
                 rg_timeout = Timeout_int minutes (de_now ev) 10\<rparr>;
          d2 = d1\<lparr>d_group_services := um_put (gj_pid req) (group_services_of (gj_pid req) d1 @ [reg]) (d_group_services d1)\<rparr>
      in DhtPut ev key (de_pack ev details) d2)"

text \<open>A request from the router socket: the identity, an empty frame and the message; an exception
  of the decoder is not caught.\<close>

definition HandleRiapsMessage ::
  "disco_env \<Rightarrow> (frame \<Rightarrow> DiscoReq option) \<Rightarrow> zmsg option \<Rightarrow> disco \<Rightarrow> disco_error + disco" where
  "HandleRiapsMessage ev dec_req received d =
     (case received of
        None \<Rightarrow> Inr (d\<lparr>d_terminated := True\<rparr>)
      | Some (identity # _ # body # _) \<Rightarrow>
          (let d1 = d\<lparr>d_rep_identity := Some identity\<rparr>
           in case dec_req body of
                None \<Rightarrow> Inl Bad_message
              | Some (ReqActorReg req) \<Rightarrow> Inr (HandleActorReg ev req d1)
              | Some (ReqActorUnreg req) \<Rightarrow> HandleActorUnreg ev req d1
              | Some (ReqServiceReg req) \<Rightarrow> HandleServiceReg ev req d1
              | Some (ReqServiceLookup req) \<Rightarrow> HandleServiceLookup ev req d1
              | Some (ReqGroupJoin req) \<Rightarrow> Inr (HandleGroupJoin ev req d1))
      | Some _ \<Rightarrow> Inl Null_frame)"

section \<open>Callbacks of the hash table\<close>

text \<open>The listener of a key pushes one message for each value, with all the values so far.\<close>

fun provider_updates :: "string \<Rightarrow> string list \<Rightarrow> string list \<Rightarrow> DhtUpdate list" where
  "provider_updates key acc [] = []"
| "provider_updates key acc (result # results) =
     DhtProviderUpdate \<lparr>plu_providerpath = key, plu_newvalues = acc @ [result]\<rparr>
       # provider_updates key (acc @ [result]) results"

definition on_providers :: "crypto \<Rightarrow> bool \<Rightarrow> string \<Rightarrow> DhtData list \<Rightarrow> DhtUpdate list" where
  "on_providers ck security key values = provider_updates key [] (read_values ck security values)"

definition on_provider_get :: "crypto \<Rightarrow> bool \<Rightarrow> ClientDetails \<Rightarrow> DhtData \<Rightarrow> DhtUpdate list" where
  "on_provider_get ck security client v =
     (case read_value ck security v of
        None \<Rightarrow> []
      | Some result \<Rightarrow>
          [DhtProviderGet
             \<lparr>plg_path = \<lparr>p_appName = cd_app_name client, p_actorName = [], p_msgType = [], p_kind = KindNone,
                          p_scope = (if cd_is_local client then LOCAL else GLOBAL)\<rparr>,
              plg_client = \<lparr>c_actorHost = cd_actor_host client, c_actorName = cd_actor_name client,
                            c_instanceName = cd_instance_name client, c_portName = cd_port_name client\<rparr>,
              plg_results = [result]\<rparr>])"

text \<open>A lookup that failed is repeated with the next level up to level ten; \<open>success\<close> gives the
  outcomes and the value is the list of the calls.\<close>

function DhtGet :: "(nat \<Rightarrow> bool) \<Rightarrow> string \<Rightarrow> ClientDetails \<Rightarrow> nat \<Rightarrow> dht_call list" where
  "DhtGet success lookupKey client callLevel =
     CallGet (InfoHash_get lookupKey) (OnProviderGet lookupKey client callLevel)
       # (if \<not> success callLevel \<and> callLevel < 10 then DhtGet success lookupKey client (callLevel + 1) else [])"
  by pat_completeness auto
termination by (relation "measure (\<lambda>(success, key, client, callLevel). 10 - callLevel)") auto

definition PushDhtValuesToDisco :: "crypto \<Rightarrow> bool \<Rightarrow> (blob \<Rightarrow> GroupDetails) \<Rightarrow> DhtData list \<Rightarrow> DhtUpdate list" where
  "PushDhtValuesToDisco ck security unpack values =
     map (\<lambda>raw. let v = unpack raw
                in DhtGroupUpdate \<lparr>gu_appName = gd_app_name v, gu_groupId = gd_group_id v,
                     gu_componentId = gd_component_id v, gu_services = gd_group_services v\<rparr>)
       (read_values ck security values)"

definition HandleZombieUpdate :: "crypto \<Rightarrow> bool \<Rightarrow> DhtData list \<Rightarrow> DhtUpdate list" where
  "HandleZombieUpdate ck security values =
     (let results = read_values ck security values
      in if 0 < length results then [DhtZombieList results] else [])"

section \<open>Updates for the actors\<close>

definition send_actor :: "nat \<Rightarrow> DiscoUpd \<Rightarrow> disco \<Rightarrow> disco" where
  "send_actor socket upd d = d\<lparr>d_sent := d_sent d @ [(socket, upd)]\<rparr>"

text \<open>An endpoint that is no zombie, split at the first colon; a port that is no number is skipped.\<close>

definition live_endpoint :: "(string, int) omap \<Rightarrow> string \<Rightarrow> (string \<times> int) option" where
  "live_endpoint zombies endpoint =
     (if map_of zombies endpoint \<noteq> None then None
      else case find_char CHR '':'' endpoint of
             None \<Rightarrow> None
           | Some pos \<Rightarrow> (case stoi (drop (pos + 1) endpoint) of
                           Inl e \<Rightarrow> None | Inr portNum \<Rightarrow> Some (take pos endpoint, portNum)))"

definition HandleDhtGet :: "ProviderListGet \<Rightarrow> disco \<Rightarrow> disco" where
  "HandleDhtGet msg d =
     fold (\<lambda>endpoint d.
       case live_endpoint (d_zombie_services d) endpoint of
         None \<Rightarrow> d
       | Some (host, portNum) \<Rightarrow>
           (case map_of (d_clients d) (clientKeyBase (p_appName (plg_path msg)) (c_actorName (plg_client msg))) of
              None \<Rightarrow> d
            | Some a \<Rightarrow> send_actor (ad_socket a)
                (PortUpdate \<lparr>pu_client = plg_client msg, pu_scope = p_scope (plg_path msg),
                             pu_socket = \<lparr>s_host = host, s_port = portNum\<rparr>\<rparr>) d)) (plg_results msg) d"

definition notify_client :: "ClientDetails \<Rightarrow> string \<Rightarrow> disco \<Rightarrow> disco" where
  "notify_client client endpoint d =
     (case live_endpoint (d_zombie_services d) endpoint of
        None \<Rightarrow> d
      | Some (host, portNum) \<Rightarrow>
          (case map_of (d_clients d) (clientKeyBase (cd_app_name client) (cd_actor_name client)) of
             None \<Rightarrow> d
           | Some a \<Rightarrow> send_actor (ad_socket a)
               (PortUpdate \<lparr>pu_client = \<lparr>c_actorHost = cd_actor_host client, c_actorName = cd_actor_name client,
                              c_instanceName = cd_instance_name client, c_portName = cd_port_name client\<rparr>,
                            pu_scope = (if cd_is_local client then LOCAL else GLOBAL),
                            pu_socket = \<lparr>s_host = host, s_port = portNum\<rparr>\<rparr>) d))"

definition HandleDhtUpdate :: "ProviderListUpdate \<Rightarrow> disco \<Rightarrow> disco" where
  "HandleDhtUpdate msg d =
     fold (\<lambda>client. fold (notify_client client) (plu_newvalues msg)) (subscriptions_of (plu_providerpath msg) d) d"

text \<open>Each socket gets the update once, whatever the number of its keys.\<close>

fun group_targets :: "string \<Rightarrow> nat list \<Rightarrow> (string \<times> ActorDetails) list \<Rightarrow> nat list" where
  "group_targets appName sentCache [] = []"
| "group_targets appName sentCache ((key, a) # clients) =
     (if ad_app_name a = appName \<and> ad_socket a \<notin> set sentCache
      then ad_socket a # group_targets appName (ad_socket a # sentCache) clients
      else group_targets appName sentCache clients)"

definition HandleDhtGroupUpdate :: "GroupUpdate \<Rightarrow> disco \<Rightarrow> disco" where
  "HandleDhtGroupUpdate msg d =
     fold (\<lambda>socket. send_actor socket (DiscoGroupUpdate msg)) (group_targets (gu_appName msg) [] (d_clients d)) d"

fun mark_zombies :: "(nat \<Rightarrow> int) \<Rightarrow> nat \<Rightarrow> string list \<Rightarrow> (string, int) omap \<Rightarrow> (string, int) omap" where
  "mark_zombies time k [] m = m"
| "mark_zombies time k (z # zs) m = mark_zombies time (Suc k) zs (om_put z (time k) m)"

definition HandleDhtMessage :: "(nat \<Rightarrow> int) \<Rightarrow> DhtUpdate \<Rightarrow> disco \<Rightarrow> disco" where
  "HandleDhtMessage time msg d =
     (case msg of
        DhtProviderUpdate upd \<Rightarrow> HandleDhtUpdate upd d
      | DhtProviderGet get \<Rightarrow> HandleDhtGet get d
      | DhtZombieList zombies \<Rightarrow>
          d\<lparr>d_zombie_services := mark_zombies time 3 zombies (d_zombie_services d)\<rparr>
      | DhtGroupUpdate upd \<Rightarrow> HandleDhtGroupUpdate upd d)"

section \<open>The main loop\<close>

text \<open>The times are subtracted as unsigned numbers.\<close>

definition renew_one :: "disco_env \<Rightarrow> int \<Rightarrow> ServiceCheckins \<Rightarrow> disco \<Rightarrow> ServiceCheckins \<times> disco" where
  "renew_one ev now svc d =
     (if of_int now - sc_createdTime svc > sc_timeout svc
      then (svc\<lparr>sc_createdTime := of_int now\<rparr>, DhtPut_hash ev (InfoHash_get (sc_key svc)) (sc_value svc) d)
      else (svc, d))"

fun renew_list :: "disco_env \<Rightarrow> int \<Rightarrow> ServiceCheckins list \<Rightarrow> disco \<Rightarrow> ServiceCheckins list \<times> disco" where
  "renew_list ev now [] d = ([], d)"
| "renew_list ev now (svc # svcs) d =
     (let (svc', d1) = renew_one ev now svc d; (svcs', d2) = renew_list ev now svcs d1 in (svc' # svcs', d2))"

fun renew_all ::
  "disco_env \<Rightarrow> int \<Rightarrow> (int, ServiceCheckins list) omap \<Rightarrow> disco \<Rightarrow> (int, ServiceCheckins list) omap \<times> disco" where
  "renew_all ev now [] d = ([], d)"
| "renew_all ev now ((pid, svcs) # rest) d =
     (let (svcs', d1) = renew_list ev now svcs d; (rest', d2) = renew_all ev now rest d1 in ((pid, svcs') # rest', d2))"

definition RenewServices :: "disco_env \<Rightarrow> disco \<Rightarrow> disco" where
  "RenewServices ev d =
     (let (cs, d1) = renew_all ev (de_mono ev 1) (d_service_checkins d) d in d1\<lparr>d_service_checkins := cs\<rparr>)"

definition MaintainZombieList :: "int \<Rightarrow> disco \<Rightarrow> disco" where
  "MaintainZombieList currentTime d =
     d\<lparr>d_zombie_services := filter (\<lambda>z. \<not> currentTime - snd z > 60 * 15 * 1000) (d_zombie_services d)\<rparr>"

definition RIAPS_DHT_NODE_PORT :: nat where
  "RIAPS_DHT_NODE_PORT = 4222"

definition HandlePipeMessage :: "zmsg option \<Rightarrow> disco \<Rightarrow> disco_error + disco" where
  "HandlePipeMessage received d =
     (case received of
        None \<Rightarrow> Inr (d\<lparr>d_terminated := True\<rparr>)
      | Some [] \<Rightarrow> Inl Null_frame
      | Some (command # hosts) \<Rightarrow>
          if command = ''$TERM'' then Inr (d\<lparr>d_terminated := True\<rparr>)
          else if command = ''JOIN''
          then Inr (fold (\<lambda>newhost. log_dht (CallBootstrap newhost (to_string_nat RIAPS_DHT_NODE_PORT))) hosts d)
          else Inr d)"

datatype disco_event =
    NoEvent
  | PipeEvent "zmsg option"
  | DhtEvent zmsg
  | RiapsEvent "zmsg option"

record decoders =
  dec_req :: "frame \<Rightarrow> DiscoReq option"
  dec_dht :: "frame \<Rightarrow> DhtUpdate option"

definition handle_event :: "disco_env \<Rightarrow> decoders \<Rightarrow> disco_event \<Rightarrow> disco \<Rightarrow> disco_error + disco" where
  "handle_event ev dc which d =
     (case which of
        NoEvent \<Rightarrow> Inr d
      | PipeEvent received \<Rightarrow> HandlePipeMessage received d
      | DhtEvent [] \<Rightarrow> Inl Null_frame
      | DhtEvent (body # _) \<Rightarrow> (case dec_dht dc body of None \<Rightarrow> Inr d | Some msg \<Rightarrow> Inr (HandleDhtMessage (de_mono ev) msg d))
      | RiapsEvent received \<Rightarrow> HandleRiapsMessage ev (dec_req dc) received d)"

definition maintain :: "disco_env \<Rightarrow> disco \<Rightarrow> disco" where
  "maintain ev d =
     (let t = de_mono ev 0;
          d1 = (if t - d_last_service_checkin d > int (unat (d_service_check_period d)) then RenewServices ev d else d)
      in if t - d_last_zombie_check d1 > int (unat (d_zombie_check_period d1)) then MaintainZombieList (de_mono ev 2) d1 else d1)"

definition Run_step :: "disco_env \<Rightarrow> decoders \<Rightarrow> disco_event \<Rightarrow> disco \<Rightarrow> disco_error + disco" where
  "Run_step ev dc which d = handle_event ev dc which (maintain ev d)"

text \<open>The loop over the events that arrive, until the daemon is terminated or fails.\<close>

definition Run :: "(nat \<Rightarrow> disco_env) \<Rightarrow> decoders \<Rightarrow> nat \<Rightarrow> disco_event list \<Rightarrow> disco \<Rightarrow> disco_error + disco" where
  "Run ev dc k es d = loop d_terminated (\<lambda>x. Run_step (ev (fst x)) dc (snd x)) (enumerate k es) d"

lemma Run_simps [simp]:
  "Run ev dc k [] d = Inr d"
  "Run ev dc k (e # es) d =
     (if d_terminated d then Inr d
      else case Run_step (ev k) dc e d of Inl err \<Rightarrow> Inl err | Inr d' \<Rightarrow> Run ev dc (Suc k) es d')"
  by (auto simp: Run_def split: sum.split)

section \<open>The invariant of the daemon\<close>

definition listened :: "dht_call list \<Rightarrow> info_hash list" where
  "listened cs = List.map_filter (\<lambda>c. case c of CallListen h (OnProviders _) \<Rightarrow> Some h | _ \<Rightarrow> None) cs"

definition subs_listened :: "(string, ClientDetails list) omap \<Rightarrow> info_hash list \<Rightarrow> bool" where
  "subs_listened subs ls \<longleftrightarrow> (\<forall>k. map_of subs k \<noteq> None \<longrightarrow> InfoHash_get k \<in> set ls)"

definition apps_listened :: "(string, ActorDetails) omap \<Rightarrow> (string, unit) omap \<Rightarrow> bool" where
  "apps_listened clients ls \<longleftrightarrow> (\<forall>k a. map_of clients k = Some a \<longrightarrow> map_of ls (ad_app_name a) \<noteq> None)"

definition disco_ok :: "disco \<Rightarrow> bool" where
  "disco_ok d \<longleftrightarrow> om_inv (d_clients d) \<and> om_inv (d_zombie_services d) \<and> om_inv (d_client_subscriptions d) \<and>
     om_inv (d_group_listeners d) \<and> om_inv (d_service_checkins d) \<and> um_inv (d_group_services d) \<and>
     distinct (d_registered_listeners d) \<and> listened (d_dht d) = rev (d_registered_listeners d) \<and>
     subs_listened (d_client_subscriptions d) (d_registered_listeners d) \<and>
     apps_listened (d_clients d) (d_group_listeners d)"

lemma listened_append: "listened (cs @ cs') = listened cs @ listened cs'"
  by (induction cs) (auto simp: listened_def map_filter_simps split: option.split)

lemma listened_simps [simp]:
  "listened [] = []" "listened (CallPut h v # cs) = listened cs" "listened (CallGet h c # cs) = listened cs"
  "listened (CallBootstrap x y # cs) = listened cs" "listened (CallListen h (OnProviders k) # cs) = h # listened cs"
  "listened (CallListen h OnZombies # cs) = listened cs" "listened (CallListen h OnGroups # cs) = listened cs"
  by (simp_all add: listened_def map_filter_simps)

lemmas disco_effects = log_dht_def DhtPut_def DhtPut_hash_def reply_def send_actor_def

lemma disco_ok_new: "DiscoveryMessageHandler_new h sec t = Inr d \<Longrightarrow> disco_ok d"
  by (auto simp: DiscoveryMessageHandler_new_def disco_ok_def om_inv_def um_inv_def subs_listened_def apps_listened_def split: sum.splits)

lemma disco_ok_effects [simp]:
  "disco_ok (DhtPut ev k v d) = disco_ok d" "disco_ok (DhtPut_hash ev hk v d) = disco_ok d"
  "disco_ok (put_zombie ev a d) = disco_ok d" "disco_ok (reply r d) = disco_ok d"
  "disco_ok (send_actor so u d) = disco_ok d" "disco_ok (d\<lparr>d_db := s\<rparr>) = disco_ok d"
  "disco_ok (d\<lparr>d_terminated := b\<rparr>) = disco_ok d" "disco_ok (d\<lparr>d_rep_identity := i\<rparr>) = disco_ok d"
  "disco_ok (log_dht (CallGet hk c) d) = disco_ok d" "disco_ok (log_dht (CallBootstrap x y) d) = disco_ok d"
  "disco_ok (log_dht (CallListen hk OnGroups) d) = disco_ok d"
  by (simp_all add: disco_ok_def disco_effects put_zombie_def listened_append)

lemma try_db_frame: "try_db ev f d = Inr d' \<Longrightarrow> \<exists>s. d' = d\<lparr>d_db := s\<rparr>"
  by (auto simp: try_db_def Let_def split_beta split: option.splits)

lemma try_db_fails: "try_db ev f d = Inl e \<Longrightarrow> e = Database_undefined \<or> e = Database_blocked"
proof -
  have "db_failure x = Some e \<Longrightarrow> e = Database_undefined \<or> e = Database_blocked" for x by (cases x) auto
  then show "try_db ev f d = Inl e \<Longrightarrow> e = Database_undefined \<or> e = Database_blocked"
    by (auto simp: try_db_def Let_def split_beta bind_eq_Some_conv split: option.splits)
qed

lemma mark_stored_ok: "mark_stored ev n ps d = Inr d' \<Longrightarrow> disco_ok d' = disco_ok d"
  by (induction ev n ps d rule: mark_stored.induct) (auto simp: Let_def split: prod.splits option.splits)

lemma retire_ok: "retire_services ev n svcs d = Inr d' \<Longrightarrow> disco_ok d' = disco_ok d"
  by (induction ev n svcs d rule: retire_services.induct) (auto dest!: try_db_frame split: sum.splits)

lemma disco_ok_del: "disco_ok d \<Longrightarrow> disco_ok (d\<lparr>d_clients := kv_del k (d_clients d)\<rparr>)"
  by (auto simp: disco_ok_def om.inv_del om.get_del apps_listened_def)

lemma deregister_ok: "disco_ok d \<Longrightarrow> disco_ok (snd (DeregisterActor_disco app act d))"
  using disco_ok_del [of d] disco_ok_del [of "d\<lparr>d_clients := kv_del _ (d_clients d)\<rparr>"]
    disco_ok_del [of "d\<lparr>d_clients := kv_del _ (kv_del _ (d_clients d))\<rparr>"]
  by (simp add: DeregisterActor_disco_def Let_def)

lemma disco_ok_put_client:
  "disco_ok d \<Longrightarrow> map_of (d_group_listeners d) (ad_app_name a) \<noteq> None \<Longrightarrow> disco_ok (d\<lparr>d_clients := om_put k a (d_clients d)\<rparr>)"
  by (simp add: disco_ok_def om.inv_put om_get_put apps_listened_def)

lemma disco_ok_group_listener:
  "disco_ok d \<Longrightarrow> disco_ok (d\<lparr>d_group_listeners := om_put app () (d_group_listeners d)\<rparr>)"
  by (simp add: disco_ok_def om.inv_put om_get_put apps_listened_def)

lemma actor_reg_ok: 
  assumes "disco_ok d" shows "disco_ok (HandleActorReg ev req d)"
proof -
  define base where "base = clientKeyBase (ar_appName req) (ar_actorName req)"
  define a where "a = \<lparr>ad_socket = de_socket ev, ad_port = de_bind ev, ad_pid = ar_pid req, ad_app_name = ar_appName req\<rparr>"
  have "disco_ok (HandleActorReg ev req d)" if ok: "disco_ok d1" and
    H: "HandleActorReg ev req d = (let d2 = d1\<lparr>d_clients := om_put base a (d_clients d1)\<rparr>;
                  d3 = (if map_of (d_group_listeners d2) (ar_appName req) = None
                        then log_dht (CallListen (InfoHash_hex (groupKey (ar_appName req))) OnGroups)
                               (d2\<lparr>d_group_listeners := om_put (ar_appName req) () (d_group_listeners d2)\<rparr>)
                        else d2);
                  d4 = reply (RepActorReg StatusOk (de_bind ev)) d3
              in d4\<lparr>d_clients := om_put (base @ d_host_address d4) a
                                 (om_put (base @ d_mac_address d4) a (d_clients d4))\<rparr>)" for d1
  proof -
    define l where "l = (if map_of (d_group_listeners d1) (ar_appName req) = None
      then om_put (ar_appName req) () (d_group_listeners d1) else d_group_listeners d1)"
    have has: "map_of l (ad_app_name a) \<noteq> None" by (simp add: l_def a_def om_get_put)
    have "disco_ok (d1\<lparr>d_group_listeners := l\<rparr>)" using ok disco_ok_group_listener [OF ok] by (simp add: l_def)
    then have "disco_ok (d1\<lparr>d_group_listeners := l, d_clients := om_put k3 a (om_put k2 a (om_put k1 a (d_clients d1)))\<rparr>)" for k1 k2 k3
      using has disco_ok_put_client [of "d1\<lparr>d_group_listeners := l\<rparr>" a k1]
        disco_ok_put_client [of "d1\<lparr>d_group_listeners := l, d_clients := om_put k1 a (d_clients d1)\<rparr>" a k2]
        disco_ok_put_client [of "d1\<lparr>d_group_listeners := l, d_clients := om_put k2 a (om_put k1 a (d_clients d1))\<rparr>" a k3]
      by simp
    then show ?thesis
      by (auto simp: H disco_ok_def l_def disco_effects Let_def listened_append split: if_splits)
  qed
  moreover note deregister_ok [OF assms] assms
  ultimately show ?thesis
    by (auto simp: HandleActorReg_def Let_def base_def a_def split: option.splits)
qed

lemma service_reg_ok: "disco_ok d \<Longrightarrow> HandleServiceReg ev req d = Inr d' \<Longrightarrow> disco_ok d'"
proof -
  assume ok: "disco_ok d" and H: "HandleServiceReg ev req d = Inr d'"
  have "disco_ok (d1\<lparr>d_service_checkins := om_put pid svcs (d_service_checkins d1)\<rparr>)" if "disco_ok d1" for d1 pid svcs
    using that by (simp add: disco_ok_def om.inv_put)
  moreover have "disco_ok d1" if "try_db ev f d = Inr d1" for f d1
    using try_db_frame [OF that] ok by auto
  ultimately show "disco_ok d'"
    using H ok by (auto simp: HandleServiceReg_def Let_def split: sum.splits if_splits)
qed

lemma service_lookup_ok: "disco_ok d \<Longrightarrow> HandleServiceLookup ev req d = Inr d' \<Longrightarrow> disco_ok d'"
proof -
  assume ok: "disco_ok d" and H: "HandleServiceLookup ev req d = Inr d'"
  obtain key client ip where k: "BuildLookupKey (de_host ev) (p_appName (sl_path req)) (p_msgType (sl_path req)) (p_kind (sl_path req))
      (p_scope (sl_path req)) (c_actorHost (sl_client req)) (c_actorName (sl_client req)) (c_instanceName (sl_client req))
      (c_portName (sl_client req)) = Inr (key, client)" "GetIPAddress (de_host ev) [] = Inr ip"
    using H by (auto simp: HandleServiceLookup_def Let_def split: sum.splits)
  define ls where "ls = (if InfoHash_get key \<notin> set (d_registered_listeners d) then InfoHash_get key # d_registered_listeners d
    else d_registered_listeners d)"
  have "distinct ls" "subs_listened (om_put key cs (d_client_subscriptions d)) ls" for cs
    using ok by (auto simp: ls_def disco_ok_def subs_listened_def om_get_put)
  then show "disco_ok d'"
    using H ok k by (auto simp: HandleServiceLookup_def Let_def disco_ok_def ls_def disco_effects listened_append om.inv_put
        split: if_splits)
qed

lemma group_join_ok: "disco_ok d \<Longrightarrow> disco_ok (HandleGroupJoin ev req d)"
proof -
  have "disco_ok d1 \<Longrightarrow> disco_ok (d1\<lparr>d_group_services := um_put pid gs (d_group_services d1)\<rparr>)" for d1 pid gs
    by (simp add: disco_ok_def um.inv_put)
  then show "disco_ok d \<Longrightarrow> disco_ok (HandleGroupJoin ev req d)" by (simp add: HandleGroupJoin_def Let_def)
qed

lemma actor_unreg_ok: "disco_ok d \<Longrightarrow> HandleActorUnreg ev req d = Inr d' \<Longrightarrow> disco_ok d'"
  using deregister_ok by (auto simp: HandleActorUnreg_def split_beta retire_ok split: sum.splits option.splits)

lemma riaps_message_ok: "disco_ok d \<Longrightarrow> HandleRiapsMessage ev dq received d = Inr d' \<Longrightarrow> disco_ok d'"
  by (auto simp: HandleRiapsMessage_def Let_def actor_reg_ok group_join_ok
      split: option.splits list.splits DiscoReq.splits
      elim!: actor_unreg_ok [rotated] service_reg_ok [rotated] service_lookup_ok [rotated])

lemma fold_ok: "(\<And>x d. disco_ok d \<Longrightarrow> disco_ok (f x d)) \<Longrightarrow> disco_ok d \<Longrightarrow> disco_ok (fold f xs d)"
  by (induction xs arbitrary: d) auto

lemma mark_zombies_inv: "om_inv m \<Longrightarrow> om_inv (mark_zombies t k zs m)"
  by (induction t k zs m rule: mark_zombies.induct) (auto simp: om.inv_put)

lemma notify_ok [simp]: "disco_ok (notify_client c e d) = disco_ok d"
  by (simp add: notify_client_def split: option.split prod.split)

lemma dht_update_ok: "disco_ok d \<Longrightarrow> disco_ok (HandleDhtUpdate upd d)"
  unfolding HandleDhtUpdate_def by (rule fold_ok) (simp_all add: fold_ok)

lemma dht_get_ok: "disco_ok d \<Longrightarrow> disco_ok (HandleDhtGet get d)"
  unfolding HandleDhtGet_def by (rule fold_ok) (simp_all split: option.split prod.split)

lemma dht_group_update_ok: "disco_ok d \<Longrightarrow> disco_ok (HandleDhtGroupUpdate upd d)"
  unfolding HandleDhtGroupUpdate_def by (rule fold_ok) simp_all

lemma dht_message_ok: "disco_ok d \<Longrightarrow> disco_ok (HandleDhtMessage t msg d)"
  using dht_update_ok dht_get_ok dht_group_update_ok mark_zombies_inv
  by (cases msg) (simp_all add: HandleDhtMessage_def disco_ok_def)

text \<open>What the renewal changes: the check-ins keep their pids, and only values are put.\<close>

lemma renew_one_frame:
  "renew_one ev now svc d = (svc', d') \<Longrightarrow> \<exists>ps. d' = d\<lparr>d_dht := d_dht d @ ps\<rparr> \<and> listened ps = []"
proof (cases "of_int now - sc_createdTime svc > sc_timeout svc")
  case True
  moreover assume "renew_one ev now svc d = (svc', d')"
  ultimately have "d' = d\<lparr>d_dht := d_dht d @ [CallPut (InfoHash_get (sc_key svc))
      (make_value (de_crypto ev) (d_has_security d) (sc_value svc))]\<rparr>"
    by (simp add: renew_one_def disco_effects)
  then show ?thesis by (intro exI conjI) auto
next
  case False
  moreover assume "renew_one ev now svc d = (svc', d')"
  ultimately show ?thesis by (intro exI [of _ "[]"]) (simp add: renew_one_def)
qed

lemma renew_list_frame:
  "renew_list ev now svcs d = (svcs', d') \<Longrightarrow> \<exists>ps. d' = d\<lparr>d_dht := d_dht d @ ps\<rparr> \<and> listened ps = []"
proof (induction ev now svcs d arbitrary: svcs' d' rule: renew_list.induct)
  case (1 ev now d)
  then show ?case by (auto intro: exI [of _ "[]"])
next
  case (2 ev now svc svcs d)
  obtain d1 svc' where one: "renew_one ev now svc d = (svc', d1)" by (cases "renew_one ev now svc d")
  obtain svcs2 d2 where rest: "renew_list ev now svcs d1 = (svcs2, d2)" by (cases "renew_list ev now svcs d1")
  obtain ps where "d1 = d\<lparr>d_dht := d_dht d @ ps\<rparr>" "listened ps = []" using renew_one_frame [OF one] by blast
  moreover obtain qs where "d2 = d1\<lparr>d_dht := d_dht d1 @ qs\<rparr>" "listened qs = []" using 2(1) [OF one [symmetric] refl rest] by auto
  ultimately show ?case using 2(2) one rest by (auto simp: listened_append intro!: exI [of _ "ps @ qs"])
qed

lemma renew_all_frame:
  "renew_all ev now cs d = (cs', d') \<Longrightarrow>
     map fst cs' = map fst cs \<and> (\<exists>ps. d' = d\<lparr>d_dht := d_dht d @ ps\<rparr> \<and> listened ps = [])"
proof (induction ev now cs d arbitrary: cs' d' rule: renew_all.induct)
  case (1 ev now d)
  then show ?case by (auto intro: exI [of _ "[]"])
next
  case (2 ev now pid svcs rest d)
  obtain d1 svcs1 where one: "renew_list ev now svcs d = (svcs1, d1)" by (cases "renew_list ev now svcs d")
  obtain cs2 d2 where rest: "renew_all ev now rest d1 = (cs2, d2)" by (cases "renew_all ev now rest d1")
  obtain ps where "d1 = d\<lparr>d_dht := d_dht d @ ps\<rparr>" "listened ps = []" using renew_list_frame [OF one] by auto
  moreover obtain qs where "d2 = d1\<lparr>d_dht := d_dht d1 @ qs\<rparr>" "listened qs = []" "map fst cs2 = map fst rest"
    using 2(1) [OF one [symmetric] refl rest] by auto
  ultimately show ?case using 2(2) one rest by (auto simp: listened_append intro!: exI [of _ "ps @ qs"])
qed

lemma maintain_ok: "disco_ok d \<Longrightarrow> disco_ok (maintain ev d)"
proof -
  have "disco_ok (RenewServices ev d)" if "disco_ok d" for d
    using that renew_all_frame [of ev "de_mono ev 1" "d_service_checkins d" d]
    by (cases "renew_all ev (de_mono ev 1) (d_service_checkins d) d")
      (auto simp: RenewServices_def disco_ok_def listened_append om_inv_def)
  moreover have "disco_ok (MaintainZombieList t d)" if "disco_ok d" for t d
    using that by (simp add: MaintainZombieList_def disco_ok_def om_inv_filter)
  ultimately show "disco_ok d \<Longrightarrow> disco_ok (maintain ev d)" by (simp add: maintain_def Let_def)
qed

lemma run_step_ok: "disco_ok d \<Longrightarrow> Run_step ev dc e d = Inr d' \<Longrightarrow> disco_ok d'"
proof -
  assume "disco_ok d" and H: "Run_step ev dc e d = Inr d'"
  then have ok: "disco_ok (maintain ev d)" by (simp add: maintain_ok)
  have "disco_ok d1" if "HandlePipeMessage received (maintain ev d) = Inr d1" for received d1
    using that ok by (auto simp: HandlePipeMessage_def fold_ok split: option.splits list.splits if_splits)
  then show "disco_ok d'"
    using H ok by (auto simp: Run_step_def handle_event_def dht_message_ok elim: riaps_message_ok [rotated]
        split: disco_event.splits list.splits option.splits)
qed

end
