(* ===== verification/Disco_Service.thy ===== *)
theory Disco_Service
  imports Disco_Handler
begin

text \<open>
  What the discovery daemon promises its clients: a registered service reaches the subscribers, a
  retired one does not, check-ins are renewed when due, registration and unregistration are inverse,
  a group update goes once to every actor, a restart disowns the old services; and where the
  code falls short of it.
\<close>

section \<open>Runs\<close>

interpretation handler_loop: event_loop d_terminated "\<lambda>x. Run_step (ev (fst x)) dc (snd x)" disco_ok for ev dc
  by unfold_locales (rule run_step_ok)

text \<open>C8: the daemon keeps its tables well formed through every run: however many iterations, and
  whatever arrives, the tables stay ordered and without duplicates, every key somebody subscribed to is listened to in
  the hash table exactly once, and the application of every registered actor has its group
  listener.\<close>

theorem run_keeps_disco_ok:
  assumes "disco_ok d" "Run ev dc k es d = Inr d'"
  shows "disco_ok d'"
  using assms by (auto simp: Run_def intro: handler_loop.loop_inv)

section \<open>Registration and lookup of services\<close>

lemma insert_lookup_same_key:
  assumes "BuildInsertKeyValuePair h app ty k scope host port = Inr (key, val)"
    and "BuildLookupKey h' app ty k' scope a b c e = Inr (key', client)"
    and "kindPairs k' = kindMap k" "scope = LOCAL \<Longrightarrow> GetMacAddressStripped h [] = GetMacAddressStripped h' []"
  shows "key = key' \<and> val = host @ '':'' @ to_string_nat (unat port)"
  using assms by (auto simp: BuildInsertKeyValuePair_def BuildLookupKey_def Let_def split: option.splits sum.splits if_splits)

lemma live_endpoint_ok:
  assumes "CHR '':'' \<notin> set host" "map_of zombies (host @ '':'' @ to_string_nat n) = None" "n < 2 ^ 31"
  shows "live_endpoint zombies (host @ '':'' @ to_string_nat n) = Some (host, int n)"
  using assms find_char_append [OF assms(1)] stoi_to_string_nat [OF assms(3)] by (simp add: live_endpoint_def)

lemma live_endpoint_zombie: "map_of zombies e \<noteq> None \<Longrightarrow> live_endpoint zombies e = None"
  by (simp add: live_endpoint_def)

definition port_update :: "ClientDetails \<Rightarrow> string \<Rightarrow> int \<Rightarrow> DiscoUpd" where
  "port_update client host port =
     PortUpdate \<lparr>pu_client = \<lparr>c_actorHost = cd_actor_host client, c_actorName = cd_actor_name client,
                   c_instanceName = cd_instance_name client, c_portName = cd_port_name client\<rparr>,
                 pu_scope = (if cd_is_local client then LOCAL else GLOBAL),
                 pu_socket = \<lparr>s_host = host, s_port = port\<rparr>\<rparr>"

text \<open>The updates one client gets for a list of endpoints.\<close>

definition updates_for ::
  "(string, ActorDetails) omap \<Rightarrow> (string, int) omap \<Rightarrow> string list \<Rightarrow> ClientDetails \<Rightarrow> (nat \<times> DiscoUpd) list" where
  "updates_for clients zombies endpoints client =
     (case map_of clients (clientKeyBase (cd_app_name client) (cd_actor_name client)) of
        None \<Rightarrow> []
      | Some a \<Rightarrow> map (\<lambda>(host, port). (ad_socket a, port_update client host port))
                   (List.map_filter (live_endpoint zombies) endpoints))"

lemma updates_for_Cons: "updates_for cl z (e # es) c = updates_for cl z [e] c @ updates_for cl z es c"
  by (simp add: updates_for_def map_filter_simps split: option.split)

lemma notify_client_one:
  "notify_client client e d = d\<lparr>d_sent := d_sent d @ updates_for (d_clients d) (d_zombie_services d) [e] client\<rparr>"
  by (simp add: notify_client_def updates_for_def send_actor_def port_update_def map_filter_simps split: option.split prod.split)

lemma notify_client_all:
  "fold (notify_client client) es d = d\<lparr>d_sent := d_sent d @ updates_for (d_clients d) (d_zombie_services d) es client\<rparr>"
proof (induction es arbitrary: d)
  case Nil
  then show ?case by (simp add: updates_for_def map_filter_simps split: option.split)
next
  case (Cons e es)
  then show ?case using updates_for_Cons [of "d_clients d" "d_zombie_services d" e es client] by (simp add: notify_client_one)
qed

lemma HandleDhtUpdate_sends:
  "HandleDhtUpdate msg d =
     d\<lparr>d_sent := d_sent d @ concat (map (updates_for (d_clients d) (d_zombie_services d) (plu_newvalues msg))
                                   (subscriptions_of (plu_providerpath msg) d))\<rparr>"
proof -
  have "fold (\<lambda>c. fold (notify_client c) es) cs d =
      d\<lparr>d_sent := d_sent d @ concat (map (updates_for (d_clients d) (d_zombie_services d) es) cs)\<rparr>" for es cs d
    by (induction cs arbitrary: d) (simp_all add: notify_client_all)
  then show ?thesis by (simp add: HandleDhtUpdate_def)
qed

lemma service_reg_put:
  assumes "HandleServiceReg ev \<lparr>sr_path = path, sr_socket = \<lparr>s_host = host, s_port = port\<rparr>, sr_pid = pid\<rparr> d = Inr d1"
  shows "\<exists>key val. BuildInsertKeyValuePair (de_host ev) (p_appName path) (p_msgType path) (p_kind path)
      (p_scope path) host (of_int port) = Inr (key, val) \<and>
      d_dht d1 = d_dht d @ [CallPut (InfoHash_get key) (make_value (de_crypto ev) (d_has_security d) val)]"
proof -
  have "d_dht d2 = d_dht d \<and> d_has_security d2 = d_has_security d" if "try_db ev f d = Inr d2" for f d2
    using try_db_frame [OF that] by auto
  then show ?thesis
    using assms by (auto simp: HandleServiceReg_def Let_def disco_effects split: sum.splits if_splits)
qed

lemma service_delivery:
  assumes look: "HandleServiceLookup evL \<lparr>sl_path = pathL, sl_client = client\<rparr> d = Inr d1"
    and reg: "HandleServiceReg evR \<lparr>sr_path = pathR, sr_socket = \<lparr>s_host = host, s_port = port\<rparr>, sr_pid = pid\<rparr> dR = Inr dR1"
    and same: "p_appName pathR = p_appName pathL" "p_msgType pathR = p_msgType pathL" "p_scope pathR = p_scope pathL"
    and kinds: "kindPairs (p_kind pathL) = kindMap (p_kind pathR)"
    and local: "p_scope pathL = LOCAL \<Longrightarrow> GetMacAddressStripped (de_host evR) [] = GetMacAddressStripped (de_host evL) []"
    and keys: "de_crypto evR = ck" "d_has_security dR = sec" "crypto_ok ck \<or> \<not> sec"
    and actor: "map_of (d_clients d) (clientKeyBase (p_appName pathL) (c_actorName client)) = Some a"
    and live: "map_of (d_zombie_services d) (host @ '':'' @ to_string_int port) = None"
    and host: "CHR '':'' \<notin> set host" "0 \<le> port" "port < 65536"
  shows "\<exists>key v msg upd. last (d_dht dR1) = CallPut (InfoHash_get key) v \<and>
     InfoHash_get key \<in> set (d_registered_listeners d1) \<and> on_providers ck sec key [v] = [msg] \<and>
     (ad_socket a, PortUpdate upd) \<in> set (d_sent (HandleDhtMessage t msg d1)) \<and>
     pu_socket upd = \<lparr>s_host = host, s_port = port\<rparr> \<and> c_portName (pu_client upd) = c_portName client"
proof -
  obtain key who ip where k: "BuildLookupKey (de_host evL) (p_appName pathL) (p_msgType pathL) (p_kind pathL)
      (p_scope pathL) (c_actorHost client) (c_actorName client) (c_instanceName client)
      (c_portName client) = Inr (key, who)" "GetIPAddress (de_host evL) [] = Inr ip"
    using look by (auto simp: HandleServiceLookup_def Let_def split: sum.splits)
  obtain key' val where r: "BuildInsertKeyValuePair (de_host evR) (p_appName pathR) (p_msgType pathR) (p_kind pathR)
      (p_scope pathR) host (of_int port) = Inr (key', val)"
    and put: "last (d_dht dR1) = CallPut (InfoHash_get key') (make_value ck sec val)"
    using service_reg_put [OF reg] keys by auto
  have n: "unat (of_int port :: u16) = nat port" using host by (simp add: unsigned_of_int take_bit_int_eq_self)
  have "key' = key" and val: "val = host @ '':'' @ to_string_nat (nat port)"
    using insert_lookup_same_key [OF r [unfolded same] k(1) kinds local] by (simp_all add: n)
  have port: "to_string_int port = to_string_nat (nat port)" using host by (simp add: to_string_int_def)
  define cd where "cd = \<lparr>cd_app_name = p_appName pathL, cd_actor_name = c_actorName client, cd_actor_host = ip,
     cd_instance_name = c_instanceName client, cd_port_name = c_portName client, cd_is_local = (p_scope pathL = LOCAL)\<rparr>"
  have d1: "cd \<in> set (subscriptions_of key d1)" "InfoHash_get key \<in> set (d_registered_listeners d1)"
    "d_clients d1 = d_clients d" "d_zombie_services d1 = d_zombie_services d"
    using look k by (auto simp: HandleServiceLookup_def Let_def disco_effects subscriptions_of_def om_get_put cd_def split: if_splits)
  have "live_endpoint (d_zombie_services d1) val = Some (host, port)"
    using live_endpoint_ok [of host "d_zombie_services d1" "nat port"] live host port d1(4) by (simp add: val)
  then have "(ad_socket a, port_update cd host port) \<in> set (updates_for (d_clients d1) (d_zombie_services d1) [val] cd)"
    using actor d1(3) by (simp add: updates_for_def cd_def map_filter_simps)
  then have "(ad_socket a, port_update cd host port) \<in> set (d_sent (HandleDhtUpdate \<lparr>plu_providerpath = key, plu_newvalues = [val]\<rparr> d1))"
    using d1(1) by (auto simp: HandleDhtUpdate_sends)
  moreover have "on_providers ck sec key [make_value ck sec val] = [DhtProviderUpdate \<lparr>plu_providerpath = key, plu_newvalues = [val]\<rparr>]"
    using read_make_value [OF keys(3)] by (simp add: on_providers_def read_values_def map_filter_simps)
  ultimately show ?thesis
    using put d1(2) \<open>key' = key\<close>
    by (intro exI [of _ key] exI [of _ "make_value ck sec val"] exI)
      (auto simp: HandleDhtMessage_def port_update_def cd_def)
qed

text \<open>a registered service reaches a subscriber.  A client of a registered actor looks up a kind of service and
  a provider registers a matching one, on this host or, for a global service, on another; then the value the
  registration puts is under a key the client's daemon listens to, and when the hash table
  delivers it, the actor of the client is sent the host and port of the service, unless the
  service is a zombie.  It holds with and without security.\<close>

theorem registered_service_reaches_subscriber:
  assumes look: "HandleServiceLookup evL \<lparr>sl_path = pathL, sl_client = client\<rparr> d = Inr d1"
    and reg: "HandleServiceReg evR \<lparr>sr_path = pathR, sr_socket = \<lparr>s_host = host, s_port = port\<rparr>, sr_pid = pid\<rparr> dR = Inr dR1"
    and same: "p_appName pathR = p_appName pathL" "p_msgType pathR = p_msgType pathL" "p_scope pathR = p_scope pathL"
    and kinds: "kindPairs (p_kind pathL) = kindMap (p_kind pathR)"
    and local: "p_scope pathL = LOCAL \<Longrightarrow> GetMacAddressStripped (de_host evR) [] = GetMacAddressStripped (de_host evL) []"
    and keys: "de_crypto evR = ck" "d_has_security dR = sec" "crypto_ok ck \<or> \<not> sec"
    and actor: "map_of (d_clients d) (clientKeyBase (p_appName pathL) (c_actorName client)) = Some a"
    and live: "map_of (d_zombie_services d) (host @ '':'' @ to_string_int port) = None"
    and host: "CHR '':'' \<notin> set host" "0 \<le> port" "port < 65536"
  shows "\<exists>key v msg upd. last (d_dht dR1) = CallPut (InfoHash_get key) v \<and>
     InfoHash_get key \<in> set (d_registered_listeners d1) \<and> on_providers ck sec key [v] = [msg] \<and>
     (ad_socket a, PortUpdate upd) \<in> set (d_sent (HandleDhtMessage t msg d1)) \<and>
     pu_socket upd = \<lparr>s_host = host, s_port = port\<rparr> \<and> c_portName (pu_client upd) = c_portName client"
  using assms by (rule service_delivery)

section \<open>Zombies and renewal\<close>

definition zombie_key :: "disco \<Rightarrow> string \<Rightarrow> string" where
  "zombie_key d address = (if find_str ''127.0.0.1'' address \<noteq> None then d_zombielocalkey d else d_zombieglobalkey d)"

lemma put_zombie_calls:
  "put_zombie ev address d = log_dht (CallPut (InfoHash_get (zombie_key d address))
     (make_value (de_crypto ev) (d_has_security d) address)) d"
  by (simp add: put_zombie_def zombie_key_def DhtPut_def DhtPut_hash_def)

text \<open>What retiring changes: the calls and the database.\<close>

lemma retire_calls:
  "retire_services ev n svcs d = Inr d' \<Longrightarrow> \<exists>s. d' = d\<lparr>d_db := s, d_dht := d_dht d @ map (\<lambda>svc. CallPut (InfoHash_get
     (zombie_key d (sc_value svc))) (make_value (de_crypto ev) (d_has_security d) (sc_value svc))) svcs\<rparr>"
proof (induction svcs arbitrary: d n)
  case Nil
  then show ?case by (auto intro: exI [of _ "d_db d"])
next
  case (Cons svc svcs)
  obtain s where H: "retire_services ev (Suc n) svcs ((put_zombie ev (sc_value svc) d)\<lparr>d_db := s\<rparr>) = Inr d'"
    using Cons.prems by (auto dest!: try_db_frame split: sum.splits)
  show ?case using Cons.IH [OF H] by (auto simp: put_zombie_calls log_dht_def zombie_key_def cong: if_cong)
qed

definition retired :: "disco_env \<Rightarrow> disco \<Rightarrow> ServiceCheckins \<Rightarrow> dht_call" where
  "retired ev d svc = CallPut (InfoHash_get (zombie_key d (sc_value svc)))
     (make_value (de_crypto ev) (d_has_security d) (sc_value svc))"

lemma unregister_effect:
  assumes "HandleActorUnreg ev req d = Inr d'"
  shows "\<exists>s. let d0 = d\<lparr>d_db := s, d_dht := d_dht d @ map (retired ev d) (checkins_of (au_pid req) d)\<rparr>;
      (port, d1) = DeregisterActor_disco (au_appName req) (au_actorName req) d0
    in d' = reply (if port \<noteq> - 1 then RepActorUnreg StatusOk port else RepActorUnreg StatusErr 0) d1"
proof -
  obtain d0 where d0: "retire_services ev 0 (checkins_of (au_pid req) d) d = Inr d0"
    "d' = (let (port, d1) = DeregisterActor_disco (au_appName req) (au_actorName req) d0
      in reply (if port \<noteq> - 1 then RepActorUnreg StatusOk port else RepActorUnreg StatusErr 0) d1)"
    using assms by (auto simp: HandleActorUnreg_def checkins_of_def split_beta split: option.splits sum.splits)
  obtain s where "d0 = d\<lparr>d_db := s, d_dht := d_dht d @ map (retired ev d) (checkins_of (au_pid req) d)\<rparr>"
    using retire_calls [OF d0(1)] unfolding retired_def by blast
  then show ?thesis using d0(2) by (intro exI [of _ s]) (simp add: split_beta Let_def)
qed

lemma unregister_frame:
  assumes "HandleActorUnreg ev req d = Inr d'"
  shows "d_dht d' = d_dht d @ map (retired ev d) (checkins_of (au_pid req) d)"
    "d_service_checkins d' = d_service_checkins d" "d_has_security d' = d_has_security d"
  using unregister_effect [OF assms] by (auto simp: DeregisterActor_disco_def reply_def Let_def)

lemma mark_zombies_get: "z \<in> set zs \<Longrightarrow> map_of (mark_zombies t k zs m) z \<noteq> None"
proof (induction t k zs m rule: mark_zombies.induct)
  case (2 t k z' zs m)
  have keep: "map_of m z \<noteq> None \<Longrightarrow> map_of (mark_zombies t k zs m) z \<noteq> None" for k m
    by (induction t k zs m rule: mark_zombies.induct) (auto simp: om_get_put)
  show ?case using 2 keep [of "om_put z' (t k) m" "Suc k"] by (auto simp: om_get_put)
qed simp

lemma zombie_not_forwarded:
  assumes "set endpoints \<subseteq> fst ` set (d_zombie_services d)"
  shows "HandleDhtUpdate \<lparr>plu_providerpath = key, plu_newvalues = endpoints\<rparr> d = d"
    and "HandleDhtGet \<lparr>plg_path = path, plg_client = client, plg_results = endpoints\<rparr> d = d"
proof -
  have dead: "live_endpoint (d_zombie_services d) e = None" if "e \<in> set endpoints" for e
    using assms that by (intro live_endpoint_zombie) (auto simp: map_of_eq_None_iff)
  then have "List.map_filter (live_endpoint (d_zombie_services d)) endpoints = []"
    by (simp add: map_filter_def filter_empty_conv)
  then have "updates_for (d_clients d) (d_zombie_services d) endpoints c = []" for c
    by (simp add: updates_for_def split: option.split)
  then have "concat (map (updates_for (d_clients d) (d_zombie_services d) endpoints) cs) = []" for cs by simp
  then show "HandleDhtUpdate \<lparr>plu_providerpath = key, plu_newvalues = endpoints\<rparr> d = d"
    by (simp only: HandleDhtUpdate_sends ProviderListUpdate.select_convs append_Nil2) simp
  have "fold f es d = d" if "\<forall>e \<in> set es. f e d = d" for f :: "string \<Rightarrow> disco \<Rightarrow> disco" and es
    using that by (induction es) auto
  then show "HandleDhtGet \<lparr>plg_path = path, plg_client = client, plg_results = endpoints\<rparr> d = d"
    using dead by (simp add: HandleDhtGet_def)
qed

text \<open>C11: the services of an actor that unregistered are not offered any more.  Unregistering puts the address
  of each of them under a zombie key; a daemon that is delivered these values sends no client
  any of the addresses, whether a listener or a lookup returns them.\<close>

theorem retired_services_not_offered:
  assumes unreg: "HandleActorUnreg ev req d = Inr d'"
    and svcs: "svcs = checkins_of (au_pid req) d" "svcs \<noteq> []" "sec = d_has_security d"
    and keys: "ck = de_crypto ev" "crypto_ok ck \<or> \<not> sec"
  shows "\<exists>vs. d_dht d' = d_dht d @ map2 (\<lambda>svc v. CallPut (InfoHash_get (zombie_key d (sc_value svc))) v) svcs vs \<and>
     length vs = length svcs \<and> HandleZombieUpdate ck sec vs = [DhtZombieList (map sc_value svcs)] \<and>
     (let d2 = HandleDhtMessage t (DhtZombieList (map sc_value svcs)) d1
      in HandleDhtUpdate \<lparr>plu_providerpath = key, plu_newvalues = map sc_value svcs\<rparr> d2 = d2 \<and>
         HandleDhtGet \<lparr>plg_path = path, plg_client = client, plg_results = map sc_value svcs\<rparr> d2 = d2)"
proof -
  define vs where "vs = map (\<lambda>svc. make_value ck sec (sc_value svc)) svcs"
  have "d_dht d' = d_dht d @ map2 (\<lambda>svc v. CallPut (InfoHash_get (zombie_key d (sc_value svc))) v) svcs vs"
    using unregister_frame(1) [OF unreg] keys svcs by (simp add: vs_def zip_map2 zip_same_conv_map retired_def)
  moreover have "read_values ck sec vs = map sc_value svcs"
    using read_make_value [OF keys(2)] by (simp add: vs_def read_values_def map_filter_def o_def)
  then have "HandleZombieUpdate ck sec vs = [DhtZombieList (map sc_value svcs)]"
    using svcs(2) by (simp add: HandleZombieUpdate_def)
  moreover have "set (map sc_value svcs) \<subseteq> fst ` set (d_zombie_services (HandleDhtMessage t (DhtZombieList (map sc_value svcs)) d1))"
    using mark_zombies_get [of _ "map sc_value svcs" t 3 "d_zombie_services d1"]
    by (auto simp: HandleDhtMessage_def map_of_eq_None_iff)
  ultimately show ?thesis
    using zombie_not_forwarded by (intro exI [of _ vs]) (simp add: vs_def Let_def)
qed

definition expired :: "int \<Rightarrow> ServiceCheckins \<Rightarrow> bool" where
  "expired now svc \<longleftrightarrow> of_int now - sc_createdTime svc > sc_timeout svc"

definition renewed :: "int \<Rightarrow> ServiceCheckins \<Rightarrow> ServiceCheckins" where
  "renewed now svc = (if expired now svc then svc\<lparr>sc_createdTime := of_int now\<rparr> else svc)"

definition renewal :: "disco_env \<Rightarrow> bool \<Rightarrow> ServiceCheckins \<Rightarrow> dht_call" where
  "renewal ev sec svc = CallPut (InfoHash_get (sc_key svc)) (make_value (de_crypto ev) sec (sc_value svc))"

lemma renew_one_is:
  "renew_one ev now svc d = (renewed now svc,
     d\<lparr>d_dht := d_dht d @ map (renewal ev (d_has_security d)) (filter (expired now) [svc])\<rparr>)"
  by (simp add: renew_one_def renewed_def expired_def renewal_def disco_effects)

lemma renew_list_is:
  "renew_list ev now svcs d = (map (renewed now) svcs,
     d\<lparr>d_dht := d_dht d @ map (renewal ev (d_has_security d)) (filter (expired now) svcs)\<rparr>)"
  by (induction svcs arbitrary: d) (simp_all add: renew_one_is Let_def)

lemma renew_all_is:
  "renew_all ev now cs d = (map (\<lambda>(pid, svcs). (pid, map (renewed now) svcs)) cs,
     d\<lparr>d_dht := d_dht d @ map (renewal ev (d_has_security d)) (filter (expired now) (concat (map snd cs)))\<rparr>)"
  by (induction cs arbitrary: d) (auto simp: renew_list_is)

text \<open>C13: renewal puts exactly the services that are due.  One pass over the check-ins puts the value of each
  service whose entry is older than ten minutes again, once and in order, restarts its period, and
  leaves the others alone.\<close>

theorem renew_services_exact:
  "RenewServices ev d =
     d\<lparr>d_service_checkins := map (\<lambda>(pid, svcs). (pid, map (renewed (de_mono ev 1)) svcs)) (d_service_checkins d),
       d_dht := d_dht d @ map (renewal ev (d_has_security d))
                  (filter (expired (de_mono ev 1)) (concat (map snd (d_service_checkins d))))\<rparr>"
  by (simp add: RenewServices_def renew_all_is)

text \<open>the services of an actor that unregistered are renewed for ever.  Unregistering leaves them
  among the check-ins, so once an entry is older than ten minutes the daemon puts the address of the dead service
  again, while the entry in the list of zombies is purged after fifteen minutes.\<close>

theorem retired_services_still_renewed:
  assumes "HandleActorUnreg ev req d = Inr d'" "svc \<in> set (checkins_of (au_pid req) d)" "expired (de_mono ev' 1) svc"
  shows "renewal ev' (d_has_security d) svc \<in> set (d_dht (RenewServices ev' d'))"
proof -
  have "svc \<in> set (concat (map snd (d_service_checkins d)))"
    using assms(2) by (cases "map_of (d_service_checkins d) (au_pid req)") (auto simp: checkins_of_def intro!: bexI dest!: map_of_SomeD)
  then show ?thesis using assms(3) unregister_frame [OF assms(1)] by (auto simp: RenewServices_def renew_all_is)
qed

text \<open>What no step changes.\<close>

definition config :: "disco \<Rightarrow> (int \<times> int) \<times> (u16 \<times> u16) \<times> bool \<times> string list" where
  "config d = ((d_last_service_checkin d, d_last_zombie_check d), (d_service_check_period d, d_zombie_check_period d),
     d_has_security d, [d_mac_address d, d_host_address d, d_zombieglobalkey d, d_zombielocalkey d])"

lemma config_effects [simp]:
  "config (log_dht c d) = config d" "config (DhtPut ev k v d) = config d" "config (DhtPut_hash ev hk v d) = config d"
  "config (put_zombie ev a d) = config d" "config (reply r d) = config d" "config (send_actor so u d) = config d"
  "config (d\<lparr>d_db := s\<rparr>) = config d" "config (d\<lparr>d_terminated := b\<rparr>) = config d" "config (d\<lparr>d_rep_identity := i\<rparr>) = config d"
  "config (d\<lparr>d_clients := cs\<rparr>) = config d" "config (d\<lparr>d_zombie_services := zs\<rparr>) = config d"
  "config (d\<lparr>d_client_subscriptions := ss\<rparr>) = config d" "config (d\<lparr>d_group_listeners := gl\<rparr>) = config d"
  "config (d\<lparr>d_registered_listeners := rl\<rparr>) = config d" "config (d\<lparr>d_service_checkins := sc\<rparr>) = config d"
  "config (d\<lparr>d_group_services := gs\<rparr>) = config d" "config (d\<lparr>d_dht := ca\<rparr>) = config d" "config (d\<lparr>d_sent := se\<rparr>) = config d"
  by (simp_all add: config_def disco_effects put_zombie_def)

lemma config_fold: "(\<And>x d. config (f x d) = config d) \<Longrightarrow> config (fold f xs d) = config d"
  by (induction xs arbitrary: d) auto

lemma config_mark_stored: "mark_stored ev n ps d = Inr d' \<Longrightarrow> config d' = config d"
  by (induction ev n ps d rule: mark_stored.induct) (auto simp: Let_def split: prod.splits option.splits)

lemma config_retire: "retire_services ev n svcs d = Inr d' \<Longrightarrow> config d' = config d"
  using retire_calls by fastforce

lemma config_actor_reg: "config (HandleActorReg ev req d) = config d"
  by (simp add: HandleActorReg_def DeregisterActor_disco_def Let_def split: option.split)

lemma config_try_db: "try_db ev f d = Inr d' \<Longrightarrow> config d' = config d"
  by (auto dest!: try_db_frame)

lemma config_riaps: "HandleRiapsMessage ev dq received d = Inr d' \<Longrightarrow> config d' = config d"
proof -
  have unreg: "HandleActorUnreg ev req e = Inr d' \<Longrightarrow> config d' = config e" for req e
    by (auto simp: HandleActorUnreg_def DeregisterActor_disco_def Let_def config_retire split: option.splits sum.splits)
  have reg: "HandleServiceReg ev req e = Inr d' \<Longrightarrow> config d' = config e" for req e
    by (auto simp: HandleServiceReg_def Let_def config_try_db split: sum.splits if_splits)
  have lookup: "HandleServiceLookup ev req e = Inr d' \<Longrightarrow> config d' = config e" for req e
    by (auto simp: HandleServiceLookup_def Let_def split: sum.splits if_splits)
  show "HandleRiapsMessage ev dq received d = Inr d' \<Longrightarrow> config d' = config d"
    by (auto simp: HandleRiapsMessage_def Let_def config_actor_reg HandleGroupJoin_def dest!: unreg reg lookup
        split: option.splits list.splits DiscoReq.splits)
qed

lemma config_dht: "config (HandleDhtMessage t msg d) = config d"
  by (cases msg) (auto simp: HandleDhtMessage_def HandleDhtUpdate_sends HandleDhtGet_def HandleDhtGroupUpdate_def
      intro!: config_fold split: option.split)

lemma config_maintain: "config (maintain ev d) = config d"
  by (simp add: maintain_def MaintainZombieList_def RenewServices_def renew_all_is Let_def)

lemma config_step: "Run_step ev dc e d = Inr d' \<Longrightarrow> config d' = config d"
proof -
  have "HandlePipeMessage received x = Inr d' \<Longrightarrow> config d' = config x" for received x
    by (auto simp: HandlePipeMessage_def config_fold split: option.splits list.splits if_splits)
  then show "Run_step ev dc e d = Inr d' \<Longrightarrow> config d' = config d"
    by (auto simp: Run_step_def handle_event_def config_dht config_maintain dest!: config_riaps
        split: disco_event.splits list.splits option.splits)
qed

lemma config_run: "Run ev dc k es d = Inr d' \<Longrightarrow> config d' = config d"
  unfolding Run_def by (erule loop_preserves [where P = "\<lambda>x. config x = config d"]) (auto dest: config_step)

lemma config_started:
  assumes "DiscoveryMessageHandler_new h sec t = Inr d0" "Handler_Init ev d0 = Inr d1"
  shows "fst (config d1) = (de_mono ev 0, de_mono ev 0) \<and> fst (snd (config d1)) = (20000, 10176)"
proof -
  let ?d = "d0\<lparr>d_last_service_checkin := de_mono ev 0, d_last_zombie_check := de_mono ev 0\<rparr>"
  have upd: "config (x\<lparr>d_last_service_checkin := a, d_last_zombie_check := b, d_dht := c\<rparr>) =
    config (x\<lparr>d_last_service_checkin := a, d_last_zombie_check := b\<rparr>)" for x a b c by (simp add: config_def)
  have "config d1 = config ?d"
    using assms(2) by (auto simp: Handler_Init_def upd Let_def dest!: config_mark_stored split: sum.splits prod.splits option.splits)
  moreover have "(of_int 20000 :: u16) = 20000" "(of_int 600000 :: u16) = 10176" by simp_all
  ultimately show ?thesis using assms(1) by (auto simp: DiscoveryMessageHandler_new_def config_def split: sum.splits)
qed

text \<open>C36: the list of zombies is purged far more often than meant: the period of ten minutes is cast to
  sixteen bits and becomes 10176 milliseconds, and the time of the last check is never updated; from then
  on every iteration of every run purges, and from twenty seconds after the start every iteration renews as well.\<close>

theorem maintenance_every_iteration:
  assumes "DiscoveryMessageHandler_new h sec t = Inr d0" "Handler_Init ev0 d0 = Inr d1" "Run evs dc k es d1 = Inr d"
    and "de_mono ev 0 > de_mono ev0 0 + 10176"
  shows "maintain ev d = MaintainZombieList (de_mono ev 2)
     (if de_mono ev 0 > de_mono ev0 0 + 20000 then RenewServices ev d else d)"
proof -
  have c: "fst (config d) = (de_mono ev0 0, de_mono ev0 0)" "fst (snd (config d)) = (20000, 10176)"
    using config_started [OF assms(1,2)] config_run [OF assms(3)] by auto
  then have "d_last_service_checkin d = de_mono ev0 0" "d_last_zombie_check d = de_mono ev0 0"
    "d_service_check_period d = 20000" "d_zombie_check_period d = 10176" by (simp_all add: config_def)
  then show ?thesis using assms(4) by (simp add: maintain_def RenewServices_def renew_all_is Let_def)
qed

section \<open>Actors\<close>

text \<open>C12: registering and unregistering an actor are inverse.  A new actor is entered under its three names
  with the pair socket opened for it and is told its port; a second registration is refused while the process lives
  and changes nothing; unregistering tells the same port and leaves none of the three names.\<close>

theorem register_unregister:
  assumes "map_of (d_clients d) (clientKeyBase app act) = None" "om_inv (d_clients d)" "de_bind ev \<noteq> - 1"
    and reg: "d1 = HandleActorReg ev \<lparr>ar_appName = app, ar_version = v, ar_actorName = act, ar_pid = pid\<rparr> d"
    and again: "de_alive ev' pid"
    and unreg: "HandleActorUnreg ev2 \<lparr>au_appName = app, au_version = v2, au_actorName = act, au_pid = pid2\<rparr> d1 = Inr d2"
  shows "(\<forall>suffix \<in> {[], d_mac_address d, d_host_address d}. map_of (d_clients d1) (clientKeyBase app act @ suffix) =
           Some \<lparr>ad_socket = de_socket ev, ad_port = de_bind ev, ad_pid = pid, ad_app_name = app\<rparr>
         \<and> map_of (d_clients d2) (clientKeyBase app act @ suffix) = None)
    \<and> snd (last (d_replies d1)) = RepActorReg StatusOk (de_bind ev)
    \<and> HandleActorReg ev' \<lparr>ar_appName = app, ar_version = v', ar_actorName = act, ar_pid = pid'\<rparr> d1 = reply (RepActorReg StatusErr 0) d1
    \<and> snd (last (d_replies d2)) = RepActorUnreg StatusOk (de_bind ev)"
proof -
  define a where "a = \<lparr>ad_socket = de_socket ev, ad_port = de_bind ev, ad_pid = pid, ad_app_name = app\<rparr>"
  define base where "base = clientKeyBase app act"
  have cl1: "d_clients d1 = om_put (base @ d_host_address d) a (om_put (base @ d_mac_address d) a (om_put base a (d_clients d)))"
    and rest: "d_mac_address d1 = d_mac_address d" "d_host_address d1 = d_host_address d"
      "d_replies d1 = d_replies d @ [(d_rep_identity d, RepActorReg StatusOk (de_bind ev))]"
    using assms(1) by (simp_all add: reg HandleActorReg_def Let_def a_def base_def disco_effects)
  have at1: "map_of (d_clients d1) (clientKeyBase app act) = Some a" by (simp add: cl1 om_get_put base_def)
  then have refused: "HandleActorReg ev' \<lparr>ar_appName = app, ar_version = v', ar_actorName = act, ar_pid = pid'\<rparr> d1 =
      reply (RepActorReg StatusErr 0) d1"
    using again by (simp add: HandleActorReg_def a_def)
  have d2: "d_replies d2 = d_replies d1 @ [(d_rep_identity d1, RepActorUnreg StatusOk (de_bind ev))]"
    "d_clients d2 = kv_del (base @ d_host_address d) (kv_del (base @ d_mac_address d) (kv_del base (d_clients d1)))"
    using unregister_effect [OF unreg] at1 assms(3)
    by (auto simp: DeregisterActor_disco_def reply_def Let_def rest base_def) (auto simp: a_def)
  have "map_of (d_clients d1) (base @ suffix) = Some a \<and> map_of (d_clients d2) (base @ suffix) = None"
    if "suffix \<in> {[], d_mac_address d, d_host_address d}" for suffix
    using that by (auto simp: cl1 d2(2) om_get_put om.get_del)
  then show ?thesis using refused d2(1) rest(3) by (simp add: a_def base_def)
qed

section \<open>Groups\<close>

lemma group_targets_spec:
  "distinct (group_targets app cache cs) \<and> set (group_targets app cache cs) \<inter> set cache = {} \<and>
   set (group_targets app cache cs) = ad_socket ` {a. a \<in> snd ` set cs \<and> ad_app_name a = app} - set cache"
  by (induction app cache cs rule: group_targets.induct) auto

text \<open>C14: an update of a group is sent exactly once to every actor of the application, although every actor
  is entered under three names, and to no other.\<close>

theorem group_update_once:
  "\<exists>targets. HandleDhtGroupUpdate msg d = d\<lparr>d_sent := d_sent d @ map (\<lambda>so. (so, DiscoGroupUpdate msg)) targets\<rparr> \<and>
     distinct targets \<and>
     set targets = {ad_socket a | k a. (k, a) \<in> set (d_clients d) \<and> ad_app_name a = gu_appName msg}"
proof -
  have "fold (\<lambda>so. send_actor so u) ts d = d\<lparr>d_sent := d_sent d @ map (\<lambda>so. (so, u)) ts\<rparr>" for u ts d
    by (induction ts arbitrary: d) (simp_all add: send_actor_def)
  moreover have "ad_socket ` {a. a \<in> snd ` set cs \<and> ad_app_name a = app} =
      {ad_socket a | k a. (k, a) \<in> set cs \<and> ad_app_name a = app}" for app and cs :: "(string \<times> ActorDetails) list"
  proof -
    have "(a \<in> snd ` set cs) = (\<exists>k. (k, a) \<in> set cs)" for a by force
    then show ?thesis by blast
  qed
  ultimately show ?thesis
    using group_targets_spec [of "gu_appName msg" "[]" "d_clients d"]
    by (intro exI [of _ "group_targets (gu_appName msg) [] (d_clients d)"]) (simp add: HandleDhtGroupUpdate_def)
qed

text \<open>a member that joins a group is put where nobody looks.  The details of the member are put under the
  hash of the key of the application's groups, while the members are read, and the actors of the application
  listen, under that key taken as a hexadecimal hash.\<close>

theorem group_member_put_elsewhere:
  "d_dht (HandleGroupJoin ev req d) = d_dht d @
     [CallGet (InfoHash_hex (groupKey (gj_appName req))) OnGroups,
      CallPut (InfoHash_get (groupKey (gj_appName req)))
        (make_value (de_crypto ev) (d_has_security d) (de_pack ev
           \<lparr>gd_app_name = gj_appName req, gd_component_id = gj_componentId req, gd_group_id = gj_groupId req,
            gd_group_services = gj_services req\<rparr>))]
   \<and> (\<exists>cs. d_dht (HandleActorReg ev areq d) = d_dht d @ cs \<and>
        set cs \<subseteq> {CallListen (InfoHash_hex (groupKey (ar_appName areq))) OnGroups})"
  by (auto simp: HandleGroupJoin_def HandleActorReg_def DeregisterActor_disco_def disco_effects Let_def split: option.split)

section \<open>Restart\<close>

lemma mark_stored_all:
  assumes "\<forall>i. db_rc (de_db ev) i = 0" "d_db d = Open_db qs"
  shows "mark_stored ev n ps d = Inr (d\<lparr>d_db := Open_db (filter (\<lambda>p. fst p \<notin> fst ` set ps) qs),
    d_dht := d_dht d @ map (\<lambda>p. CallPut (InfoHash_get (zombie_key d (snd p))) (make_value (de_crypto ev) (d_has_security d) (snd p))) ps\<rparr>)"
  using assms(2)
proof (induction ps arbitrary: d qs n)
  case Nil
  then show ?case by (cases d) simp
next
  case (Cons p ps)
  obtain key address where p: "p = (key, address)" by (cases p)
  have del: "Lmdb_Del (db_op n (de_db ev)) key (Open_db qs) = (None, Open_db (kv_del key qs))"
    using assms(1) by (simp add: Lmdb_Del_def OpenTxn_def db_op_def)
  show ?case
    using Cons.IH [of "(put_zombie ev address d)\<lparr>d_db := Open_db (kv_del key qs)\<rparr>" "kv_del key qs"] Cons.prems
    by (auto simp: p del put_zombie_calls log_dht_def zombie_key_def kv_del_def Let_def conj_commute cong: if_cong conj_cong)
qed

text \<open>C15: a restarted daemon disowns the response ports of its predecessor: with a working database it puts
  every stored address under a zombie key and leaves the database empty.\<close>

theorem restart_disowns_services:
  assumes "Lmdb_db (de_db ev) (d_db d) = (None, Open_db ps)" "\<forall>i. db_rc (de_db ev) i = 0"
  shows "\<exists>d'. Handler_Init ev d = Inr d' \<and> d_db d' = Open_db [] \<and>
    (\<exists>cs. d_dht d' = d_dht d @ cs @ map (\<lambda>p. CallPut (InfoHash_get (zombie_key d (snd p)))
       (make_value (de_crypto ev) (d_has_security d) (snd p))) ps)"
  using assms mark_stored_all [OF assms(2), where ps = ps and qs = ps]
  by (simp add: Handler_Init_def Let_def Lmdb_GetAll_def OpenTxn_def db_op_def zombie_key_def cong: if_cong)

text \<open>one failed write blocks the daemon.  When the database refuses the address of a response port, the registration is
  answered with success, but its transaction stays open, and the next registration of a response port never returns.\<close>

theorem failed_store_blocks_daemon:
  assumes "Lmdb_db (de_db ev) (d_db d) = (None, Open_db ps)" "db_rc (de_db ev) 0 = 0" "db_rc (de_db ev) 1 = 0" "db_rc (de_db ev) 2 \<noteq> 0"
    and "p_kind (sr_path req) = REP" "HandleServiceReg ev req d = Inr d1" "p_kind (sr_path req') = REP"
    and "BuildInsertKeyValuePair (de_host ev') (p_appName (sr_path req')) (p_msgType (sr_path req')) REP (p_scope (sr_path req'))
      (s_host (sr_socket req')) (of_int (s_port (sr_socket req'))) = Inr kv"
  shows "snd (last (d_replies d1)) = RepServiceReg StatusOk \<and> HandleServiceReg ev' req' d1 = Inl Database_blocked"
proof -
  have "d_db d1 = Txn_db ps" "snd (last (d_replies d1)) = RepServiceReg StatusOk"
    using assms(1-6)
    by (auto simp: HandleServiceReg_def try_db_def Let_def Lmdb_Put_def OpenTxn_def disco_effects split: sum.splits if_splits)
  then show ?thesis
    using assms(7,8) by (cases kv) (simp add: HandleServiceReg_def Let_def try_db_def Lmdb_db_def Lmdb_Put_def OpenTxn_def)
qed

text \<open>C34: a lookup with the wrong kind ends the daemon: only a client, a subscriber, a request, reply, query
  or answer port may look up a service; for a publisher, a server or no kind the table of
  complements throws out of the main loop, and so does the registration of a service of no kind.\<close>

theorem wrong_kind_fails:
  "(HandleServiceLookup ev req d = Inl Key_not_found \<longleftrightarrow> p_kind (sl_path req) \<in> {PUB, SRV, KindNone}) \<and>
   (HandleServiceReg ev sreq d = Inl Key_not_found \<longleftrightarrow> p_kind (sr_path sreq) = KindNone)"
proof -
  have "kindPairs k = None \<longleftrightarrow> k \<in> {PUB, SRV, KindNone}" "kindMap k = None \<longleftrightarrow> k = KindNone" for k
    by (cases k; simp)+
  moreover have "try_db ev f d \<noteq> Inl Key_not_found" for f by (auto dest: try_db_fails)
  then have "HandleServiceReg ev sreq d = Inl Key_not_found \<longleftrightarrow> kindMap (p_kind (sr_path sreq)) = None"
    by (cases "kindMap (p_kind (sr_path sreq))")
      (auto simp: HandleServiceReg_def BuildInsertKeyValuePair_def Let_def split: sum.splits if_splits)
  moreover have "HandleServiceLookup ev req d = Inl Key_not_found \<longleftrightarrow> kindPairs (p_kind (sl_path req)) = None"
    by (cases "kindPairs (p_kind (sl_path req))")
      (auto simp: HandleServiceLookup_def BuildLookupKey_def Let_def split: sum.splits if_splits)
  ultimately show ?thesis by simp
qed

section \<open>Witnesses\<close>

definition ex_host :: host_env where
  "ex_host = \<lparr>riaps_conf = None, iflist = [(''eth0'', ''10.0.0.1'')],
     sys_class_net = (\<lambda>n. if n = ''eth0'' then Some ''aa:bb'' else None)\<rparr>"

definition ex_crypto :: crypto where
  "ex_crypto = \<lparr>ck_sign = rev, ck_encrypt = Cons CHR ''x'', ck_decrypt = (\<lambda>b. if b = [] then None else Some (tl b)),
     ck_checkSignature = (\<lambda>data s. s = rev data)\<rparr>"

definition ex_denv :: "int \<Rightarrow> disco_env" where
  "ex_denv t = \<lparr>de_host = ex_host, de_crypto = ex_crypto, de_alive = (\<lambda>_. True), de_socket = 5, de_bind = 40001,
     de_mono = (\<lambda>_. t), de_now = 0, de_db = \<lparr>db_apps = Some ''/apps'', db_open_rc = (\<lambda>_. 0), db_stored = (\<lambda>_. []),
     db_rc = (\<lambda>_. 0)\<rparr>, de_pack = gd_app_name\<rparr>"

definition ex_disco :: disco where
  "ex_disco = (case DiscoveryMessageHandler_new ex_host True 0 of Inr d \<Rightarrow> d)"

lemma ex_crypto_ok: "crypto_ok ex_crypto"
  by (simp add: crypto_ok_def ex_crypto_def)

lemma ex_host_simps [simp]: "GetIPAddress ex_host [] = Inr ''10.0.0.1''" "GetMacAddressStripped ex_host [] = Inr ''aabb''"
  by (simp_all add: ex_host_def GetIPAddress_def GetMacAddressStripped_def GetMacAddress_def GetConfiguredIface_def GetFirstGlobalIface_def Let_def)

lemma ex_disco_new: "DiscoveryMessageHandler_new ex_host True 0 = Inr ex_disco"
  by (simp add: DiscoveryMessageHandler_new_def ex_disco_def)

lemma ex_disco_simps [simp]:
  "d_clients ex_disco = []" "d_zombie_services ex_disco = []" "d_client_subscriptions ex_disco = []"
  "d_registered_listeners ex_disco = []" "d_has_security ex_disco" "d_service_checkins ex_disco = []"
  "d_mac_address ex_disco = ''aabb''" "d_host_address ex_disco = ''10.0.0.1''" "d_db ex_disco = No_db" "d_dht ex_disco = []"
  by (simp_all add: ex_disco_def DiscoveryMessageHandler_new_def)

lemma ex_denv_simps [simp]:
  "de_host (ex_denv t) = ex_host" "de_crypto (ex_denv t) = ex_crypto" "de_alive (ex_denv t) pid" "de_mono (ex_denv t) k = t"
  "db_rc (de_db (ex_denv t)) i = 0" "Lmdb_db (de_db (ex_denv t)) No_db = (None, Open_db [])" "de_bind (ex_denv t) = 40001"
  by (simp_all add: ex_denv_def Lmdb_db_def Lmdb_Init_def Lmdb_dir_def)

text \<open>An actor of the application, a subscriber in it, and a publisher.\<close>

definition ex_actor_reg :: ActorRegReq where
  "ex_actor_reg = \<lparr>ar_appName = ''app'', ar_version = ''0'', ar_actorName = ''act'', ar_pid = 77\<rparr>"

definition ex_path :: "Kind \<Rightarrow> Path" where
  "ex_path k = \<lparr>p_appName = ''app'', p_actorName = [], p_msgType = ''T'', p_kind = k, p_scope = LOCAL\<rparr>"

definition ex_client :: Client where
  "ex_client = \<lparr>c_actorHost = ''10.0.0.1'', c_actorName = ''act'', c_instanceName = ''comp'', c_portName = ''port''\<rparr>"

definition ex_service :: ServiceRegReq where
  "ex_service = \<lparr>sr_path = ex_path PUB, sr_socket = \<lparr>s_host = ''10.0.0.1'', s_port = 5555\<rparr>, sr_pid = 77\<rparr>"

definition ex_served :: disco where
  "ex_served = (case HandleServiceReg (ex_denv 0) ex_service ex_disco of Inr d \<Rightarrow> d)"

lemma ex_served: "HandleServiceReg (ex_denv 0) ex_service ex_disco = Inr ex_served"
  by (simp add: ex_served_def HandleServiceReg_def ex_service_def ex_path_def BuildInsertKeyValuePair_def Let_def)

theorem run_keeps_disco_ok_witness:
  "\<exists>d'. Run (\<lambda>_. ex_denv 0) \<lparr>dec_req = (\<lambda>f. if f = ''reg'' then Some (ReqActorReg ex_actor_reg) else None), dec_dht = (\<lambda>_. None)\<rparr> 0
      [RiapsEvent (Some [''id'', [], ''reg''])] ex_disco = Inr d' \<and> disco_ok d'"
proof -
  let ?dc = "\<lparr>dec_req = (\<lambda>f. if f = ''reg'' then Some (ReqActorReg ex_actor_reg) else None), dec_dht = (\<lambda>_. None)\<rparr>"
  obtain d' where "Run (\<lambda>_. ex_denv 0) ?dc 0 [RiapsEvent (Some [''id'', [], ''reg''])] ex_disco = Inr d'"
    by (cases "d_terminated ex_disco") (simp_all add: Run_step_def handle_event_def HandleRiapsMessage_def)
  then show ?thesis using run_keeps_disco_ok [OF disco_ok_new [OF ex_disco_new]] by blast
qed

theorem registered_service_reaches_subscriber_witness:
  "let d = HandleActorReg (ex_denv 0) ex_actor_reg ex_disco
   in \<exists>d1 key msg upd. HandleServiceLookup (ex_denv 0) \<lparr>sl_path = ex_path SUB, sl_client = ex_client\<rparr> d = Inr d1 \<and>
        InfoHash_get key \<in> set (d_registered_listeners d1) \<and>
        (5, PortUpdate upd) \<in> set (d_sent (HandleDhtMessage (\<lambda>_. 0) msg d1)) \<and>
        pu_socket upd = \<lparr>s_host = ''10.0.0.1'', s_port = 5555\<rparr>"
proof -
  define d where "d = HandleActorReg (ex_denv 0) ex_actor_reg ex_disco"
  have d: "map_of (d_clients d) (clientKeyBase ''app'' ''act'') =
      Some \<lparr>ad_socket = 5, ad_port = 40001, ad_pid = 77, ad_app_name = ''app''\<rparr>" "d_zombie_services d = []"
    by (simp_all add: d_def HandleActorReg_def ex_actor_reg_def Let_def disco_effects om_get_put) (simp_all add: ex_denv_def)
  obtain d1 where d1: "HandleServiceLookup (ex_denv 0) \<lparr>sl_path = ex_path SUB, sl_client = ex_client\<rparr> d = Inr d1"
    by (simp add: HandleServiceLookup_def ex_path_def BuildLookupKey_def Let_def)
  show ?thesis
    using registered_service_reaches_subscriber [OF d1 ex_served [unfolded ex_service_def], where ck = ex_crypto and sec = True and t = "\<lambda>_. 0"]
      ex_crypto_ok d d1 by (auto simp: ex_path_def ex_client_def d_def [symmetric] Let_def)
qed

lemma ex_port: "to_string_nat 5555 = ''5555''"
  by (simp add: to_string_nat.simps digit_char_def char_of_def bit_Suc bit_0)

lemma ex_served_checkins:
  "checkins_of 77 ex_served = [\<lparr>sc_key = key_of ''app'' ''T'' ''pub'' @ ''aabb'', sc_value = ''10.0.0.1:5555'', sc_createdTime = 0, sc_timeout = 600000\<rparr>]"
  "d_has_security ex_served" "d_db ex_served = No_db"
  by (simp_all add: ex_served_def HandleServiceReg_def ex_service_def ex_path_def BuildInsertKeyValuePair_def Let_def disco_effects checkins_of_def
      ex_port)

lemma ex_unreg: "\<exists>d'. HandleActorUnreg (ex_denv 0) \<lparr>au_appName = ''app'', au_version = [], au_actorName = ''act'', au_pid = 77\<rparr> ex_served = Inr d'"
  using ex_served_checkins
  by (auto simp: HandleActorUnreg_def checkins_of_def try_db_def put_zombie_calls log_dht_def Lmdb_Del_def OpenTxn_def db_op_def split_beta split: option.splits)

theorem retired_services_not_offered_witness:
  "HandleZombieUpdate ex_crypto True [make_value ex_crypto True ''10.0.0.1:5555''] = [DhtZombieList [''10.0.0.1:5555'']] \<and>
   (let d2 = HandleDhtMessage (\<lambda>_. 0) (DhtZombieList [''10.0.0.1:5555'']) ex_disco
    in HandleDhtUpdate \<lparr>plu_providerpath = ''k'', plu_newvalues = [''10.0.0.1:5555'']\<rparr> d2 = d2)"
proof -
  obtain d' where u: "HandleActorUnreg (ex_denv 0) \<lparr>au_appName = ''app'', au_version = [], au_actorName = ''act'', au_pid = 77\<rparr> ex_served = Inr d'"
    using ex_unreg by blast
  show ?thesis
    using retired_services_not_offered [OF u _ _ refl refl, where t = "\<lambda>_. 0" and key = "''k''" and ?d1.0 = ex_disco] ex_crypto_ok ex_served_checkins
      read_make_value [of ex_crypto True "''10.0.0.1:5555''"]
    by (auto simp: HandleZombieUpdate_def read_values_def map_filter_simps Let_def)
qed

theorem retired_services_still_renewed_witness:
  "\<exists>d'. HandleActorUnreg (ex_denv 0) \<lparr>au_appName = ''app'', au_version = [], au_actorName = ''act'', au_pid = 77\<rparr> ex_served = Inr d' \<and>
     renewal (ex_denv 600001) True (hd (checkins_of 77 ex_served)) \<in> set (d_dht (RenewServices (ex_denv 600001) d'))"
  using ex_unreg retired_services_still_renewed [where ev' = "ex_denv 600001" and svc = "hd (checkins_of 77 ex_served)" and d = ex_served]
    ex_served_checkins by (fastforce simp: expired_def)

theorem maintenance_every_iteration_witness:
  "\<exists>d1. Handler_Init (ex_denv 0) ex_disco = Inr d1 \<and> maintain (ex_denv 10177) d1 = MaintainZombieList 10177 d1"
proof -
  obtain d1 where d1: "Handler_Init (ex_denv 0) ex_disco = Inr d1"
    by (simp add: Handler_Init_def Lmdb_GetAll_def OpenTxn_def db_op_def Let_def)
  have "Run (\<lambda>_. ex_denv 0) undefined 0 [] d1 = Inr d1" by simp
  from maintenance_every_iteration [OF ex_disco_new d1 this, of "ex_denv 10177"] show ?thesis using d1 by simp
qed

theorem register_unregister_witness:
  "let d1 = HandleActorReg (ex_denv 0) ex_actor_reg ex_disco
   in \<exists>d2. HandleActorUnreg (ex_denv 0) \<lparr>au_appName = ''app'', au_version = [], au_actorName = ''act'', au_pid = 77\<rparr> d1 = Inr d2 \<and>
        snd (last (d_replies d2)) = RepActorUnreg StatusOk 40001"
proof -
  define d1 where "d1 = HandleActorReg (ex_denv 0) ex_actor_reg ex_disco"
  have "d_service_checkins d1 = []"
    by (simp add: d1_def HandleActorReg_def Let_def disco_effects)
  then obtain d2 where d2: "HandleActorUnreg (ex_denv 0) \<lparr>au_appName = ''app'', au_version = [], au_actorName = ''act'', au_pid = 77\<rparr> d1 = Inr d2"
    by (simp add: HandleActorUnreg_def split_beta)
  show ?thesis
    using register_unregister [OF _ _ _ d1_def [unfolded ex_actor_reg_def] _ d2, of "ex_denv 0"] d2 by (simp add: d1_def om_inv_def)
qed

theorem restart_disowns_services_witness:
  "\<exists>d'. Handler_Init (ex_denv 0) (ex_disco\<lparr>d_db := Open_db [(''k'', ''10.0.0.1:5555'')]\<rparr>) = Inr d' \<and> d_db d' = Open_db []"
  using restart_disowns_services [of "ex_denv 0" "ex_disco\<lparr>d_db := Open_db [(''k'', ''10.0.0.1:5555'')]\<rparr>" "[(''k'', ''10.0.0.1:5555'')]"]
  by (auto simp: Lmdb_db_def)

end
