(* ===== verification/Validator.thy ===== *)
theory Validator
  imports Dht_Store Ports
begin

text \<open>
  The validator of beacons: \<^verbatim>\<open>src/discoveryd/r_validator.cc\<close>.  With security on, a node is accepted
  only after it signed its own address.  The record \<open>validator\<close> holds the known nodes; the
  identification requests sent, the replies given and the polled nodes are logged in it.  Every
  function takes the readings of the clock it makes as \<open>clk\<close>.
\<close>

section \<open>State\<close>

record node_info =
  ni_check_period :: timeout
  ni_validated :: bool

datatype validator_msg =
    Identify string
  | Disconnect string
  | Identified frame string blob

record validator =
  v_has_security :: bool
  v_validator_address :: string
  v_signature :: blob
  v_last_delete :: timeout
  v_cluster_nodes :: "(string, node_info) omap"
  v_polled :: "string list"
  v_log :: "validator_msg list"

definition DiscoveryValidator_new :: "int \<Rightarrow> bool \<Rightarrow> validator" where
  "DiscoveryValidator_new now security =
     \<lparr>v_has_security = security, v_validator_address = [], v_signature = [],
      v_last_delete = Timeout_default now, v_cluster_nodes = [], v_polled = [], v_log = []\<rparr>"

definition InitNoSecurity :: "bool \<Rightarrow> bool" where
  "InitNoSecurity HasSecurity = (if HasSecurity then False else True)"

text \<open>\<open>endpoint\<close> is the endpoint the router socket was bound to.\<close>

definition InitWithSecurity :: "crypto \<Rightarrow> int \<Rightarrow> bool \<Rightarrow> string \<Rightarrow> validator \<Rightarrow> bool \<times> validator" where
  "InitWithSecurity ck now HasSecurity endpoint v =
     (if \<not> HasSecurity then (False, v)
      else (True, v\<lparr>v_last_delete := Timeout_int minutes now 1, v_validator_address := endpoint,
                    v_signature := ck_sign ck endpoint\<rparr>))"

section \<open>Addresses\<close>

definition octet :: "string \<Rightarrow> bool" where
  "octet s \<longleftrightarrow> s \<noteq> [] \<and> list_all is_digit s \<and> (hd s = CHR ''0'' \<longrightarrow> length s = 1) \<and> digits_val s \<le> 255"

definition inet_pton :: "string \<Rightarrow> int" where
  "inet_pton address =
     (let parts = split_on CHR ''.'' address in if length parts = 4 \<and> list_all octet parts then 1 else 0)"

definition IsValidZmqAddress :: "string \<Rightarrow> stoi_error + bool" where
  "IsValidZmqAddress zmq_address =
     (case find_str ''tcp://'' zmq_address of
        None \<Rightarrow> Inr False
      | Some tcp_idx \<Rightarrow>
          (let address_port = drop (tcp_idx + 6) zmq_address
           in case find_char CHR '':'' address_port of
                None \<Rightarrow> Inr False
              | Some colon_idx \<Rightarrow>
                  (case stoi (drop (colon_idx + 1) address_port) of
                     Inl e \<Rightarrow> Inl e
                   | Inr port \<Rightarrow> if port \<le> 0 \<or> port \<ge> 65535 then Inr False
                                  else Inr (inet_pton (take colon_idx address_port) \<noteq> 0))))"

section \<open>Validation\<close>

text \<open>\<open>period\<close> is the random number of seconds.  The constructor that draws it does not arm it.\<close>

definition CreateNode :: "int \<Rightarrow> node_info" where
  "CreateNode period = \<lparr>ni_check_period = Timeout_range seconds period, ni_validated = False\<rparr>"

definition IsUptodate :: "string \<Rightarrow> validator \<Rightarrow> bool" where
  "IsUptodate node_address v \<longleftrightarrow> map_of (v_cluster_nodes v) node_address \<noteq> None"

definition Validate :: "int \<Rightarrow> int \<Rightarrow> string \<Rightarrow> validator \<Rightarrow> validator" where
  "Validate now1 now2 node_address v =
     (case map_of (v_cluster_nodes v) node_address of
        None \<Rightarrow> v
      | Some n \<Rightarrow>
          if IsTimeout now1 (ni_check_period n)
          then v\<lparr>v_cluster_nodes := om_put node_address
                    \<lparr>ni_check_period = Timeout_Reset now2 (ni_check_period n), ni_validated = False\<rparr> (v_cluster_nodes v),
                 v_log := v_log v @ [Identify node_address]\<rparr>
          else v)"

text \<open>The time of the last deletion is reset whether or not anything was deleted.\<close>

definition DeleteOldNodes :: "clock \<Rightarrow> validator \<Rightarrow> validator" where
  "DeleteOldNodes clk v =
     (let nodes = v_cluster_nodes v;
          kept = (if IsTimeout (clk 0) (v_last_delete v)
                  then purge (\<lambda>now n. IsTimeout now (ni_check_period n)) clk 1 nodes else nodes)
      in v\<lparr>v_cluster_nodes := kept, v_polled := filter (\<lambda>a. a \<in> fst ` set kept \<or> a \<notin> fst ` set nodes) (v_polled v),
           v_last_delete := Timeout_Reset (clk (Suc (length nodes))) (v_last_delete v)\<rparr>)"

definition IsValid :: "clock \<Rightarrow> int \<Rightarrow> string \<Rightarrow> validator \<Rightarrow> stoi_error + (bool \<times> validator)" where
  "IsValid clk period node_address v =
     (if \<not> v_has_security v then Inr (True, v)
      else case IsValidZmqAddress node_address of
             Inl e \<Rightarrow> Inl e
           | Inr False \<Rightarrow> Inr (False, v)
           | Inr True \<Rightarrow>
               (let k = length (v_cluster_nodes v) + 2;
                    v1 = DeleteOldNodes clk v;
                    v2 = (if \<not> IsUptodate node_address v1
                          then v1\<lparr>v_cluster_nodes := om_put node_address (CreateNode period) (v_cluster_nodes v1),
                                  v_polled := v_polled v1 @ [node_address]\<rparr>
                          else v1);
                    current = the (map_of (v_cluster_nodes v2) node_address);
                    v3 = (if \<not> ni_validated current \<or> IsTimeout (clk k) (ni_check_period current)
                          then Validate (clk (k + 1)) (clk (k + 2)) node_address v2 else v2)
                in Inr (ni_validated (the (map_of (v_cluster_nodes v3) node_address)), v3)))"

text \<open>What the poller of the validator returns: nothing, a message on the router socket, or the
  answer of a node.\<close>

datatype validator_event =
    NoReply
  | IdentifyRequest "zmsg option"
  | IdentifyReply "zmsg option"

text \<open>An answer has two frames, the address and the signature; a signature that is missing is empty.\<close>

fun signature_of :: "zmsg \<Rightarrow> blob" where
  "signature_of [] = []"
| "signature_of (blob # _) = blob"

definition ReplyAll :: "crypto \<Rightarrow> validator_event \<Rightarrow> validator \<Rightarrow> unit + validator" where
  "ReplyAll ck which v =
     (if \<not> v_has_security v then Inr v
      else case which of
             NoReply \<Rightarrow> Inr v
           | IdentifyRequest None \<Rightarrow> Inr v
           | IdentifyRequest (Some []) \<Rightarrow> Inr v
           | IdentifyRequest (Some [identity]) \<Rightarrow> Inl ()
           | IdentifyRequest (Some (identity # command # _)) \<Rightarrow>
               Inr (if command = ''Identify yourself!''
                    then v\<lparr>v_log := v_log v @ [Identified identity (v_validator_address v) (v_signature v)]\<rparr> else v)
           | IdentifyReply None \<Rightarrow> Inr v
           | IdentifyReply (Some []) \<Rightarrow> Inl ()
           | IdentifyReply (Some (ip_str # rest)) \<Rightarrow>
               Inr (case map_of (v_cluster_nodes v) ip_str of
                      None \<Rightarrow> v
                    | Some n \<Rightarrow>
                        if ck_checkSignature ck ip_str (signature_of rest)
                        then v\<lparr>v_cluster_nodes := om_put ip_str (n\<lparr>ni_validated := True\<rparr>) (v_cluster_nodes v),
                               v_log := v_log v @ [Disconnect ip_str]\<rparr>
                        else v))"

section \<open>Runs\<close>

text \<open>The states a validator reaches, with the answers it was given on the way.\<close>

inductive validator_reach :: "crypto \<Rightarrow> validator \<Rightarrow> (string \<times> blob) list \<Rightarrow> validator \<Rightarrow> bool"
  for ck :: crypto and v0 :: validator where
  start: "validator_reach ck v0 [] v0"
| ask: "validator_reach ck v0 rs v \<Longrightarrow> IsValid clk period a v = Inr (b, v') \<Longrightarrow> validator_reach ck v0 rs v'"
| request: "validator_reach ck v0 rs v \<Longrightarrow> ReplyAll ck (IdentifyRequest m) v = Inr v' \<Longrightarrow> validator_reach ck v0 rs v'"
| answer: "validator_reach ck v0 rs v \<Longrightarrow> ReplyAll ck (IdentifyReply (Some (ip # rest))) v = Inr v'
    \<Longrightarrow> validator_reach ck v0 (rs @ [(ip, signature_of rest)]) v'"

inductive_cases validator_reachE: "validator_reach ck v0 rs v"

definition validated :: "validator \<Rightarrow> string \<Rightarrow> bool" where
  "validated v a \<longleftrightarrow> (case map_of (v_cluster_nodes v) a of Some n \<Rightarrow> ni_validated n | None \<Rightarrow> False)"

lemma validated_put: "om_inv m \<Longrightarrow> validated (v\<lparr>v_cluster_nodes := om_put a n m\<rparr>) b =
   (if b = a then ni_validated n else validated (v\<lparr>v_cluster_nodes := m\<rparr>) b)"
  by (simp add: validated_def om_get_put)

lemma map_of_purge:
  "om_inv m \<Longrightarrow> map_of (purge ex clk k m) a = Some n \<Longrightarrow> map_of m a = Some n"
  using om.item_get [of m] om.item_get [of "purge ex clk k m"] purge_om_inv [of m ex clk k] purge_set [of ex clk k m] by blast

lemma delete_security [simp]: "v_has_security (DeleteOldNodes clk v) = v_has_security v"
  by (simp add: DeleteOldNodes_def Let_def)

lemma delete_validated:
  "om_inv (v_cluster_nodes v) \<Longrightarrow> om_inv (v_cluster_nodes (DeleteOldNodes clk v)) \<and>
     (validated (DeleteOldNodes clk v) a \<longrightarrow> validated v a)"
  by (auto simp: DeleteOldNodes_def Let_def validated_def purge_om_inv dest: map_of_purge split: option.splits)

text \<open>Asking never validates a node; the value returned is the flag of the node.\<close>

lemma IsValid_keeps:
  assumes "IsValid clk period a v = Inr (b, v')" "om_inv (v_cluster_nodes v)"
  shows "om_inv (v_cluster_nodes v') \<and> (\<forall>c. validated v' c \<longrightarrow> validated v c) \<and> v_has_security v' = v_has_security v
    \<and> (v_has_security v \<longrightarrow> b \<longrightarrow> validated v' a)"
proof (cases "v_has_security v \<and> IsValidZmqAddress a = Inr True")
  case False
  then show ?thesis using assms by (auto simp: IsValid_def split: if_splits sum.splits bool.splits)
next
  case True
  define v1 where "v1 = DeleteOldNodes clk v"
  define v2 where "v2 = (if \<not> IsUptodate a v1
    then v1\<lparr>v_cluster_nodes := om_put a (CreateNode period) (v_cluster_nodes v1), v_polled := v_polled v1 @ [a]\<rparr> else v1)"
  define k where "k = length (v_cluster_nodes v) + 2"
  define v3 where "v3 = Validate (clk (k + 1)) (clk (k + 2)) a v2"
  have v': "v' = v2 \<or> v' = v3" and b: "b = ni_validated (the (map_of (v_cluster_nodes v') a))"
    using assms(1) True by (auto simp: IsValid_def v1_def v2_def v3_def k_def Let_def split: if_splits)
  have s1: "om_inv (v_cluster_nodes v1)" "validated v1 c \<Longrightarrow> validated v c" "v_has_security v1 = v_has_security v" for c
    using delete_validated [OF assms(2)] by (auto simp: v1_def)
  have s2: "om_inv (v_cluster_nodes v2)" "validated v2 c \<Longrightarrow> validated v1 c" "map_of (v_cluster_nodes v2) a \<noteq> None"
    "v_has_security v2 = v_has_security v1" for c
    using s1(1) by (auto simp: v2_def om.inv_put validated_def om_get_put CreateNode_def IsUptodate_def split: if_splits option.splits)
  have s3: "om_inv (v_cluster_nodes v3)" "validated v3 c \<Longrightarrow> validated v2 c" "map_of (v_cluster_nodes v3) a \<noteq> None"
    "v_has_security v3 = v_has_security v2" for c
    using s2 by (auto simp: v3_def Validate_def om.inv_put validated_def om_get_put split: if_splits option.splits)
  have "map_of (v_cluster_nodes v') a \<noteq> None" using v' s2(3) s3(3) by auto
  then have "b \<longrightarrow> validated v' a" by (auto simp: b validated_def)
  then show ?thesis using v' s1 s2 s3 by metis
qed

lemma reach_validated:
  assumes "validator_reach ck v0 rs v" "v_has_security v0" "v_cluster_nodes v0 = []"
  shows "om_inv (v_cluster_nodes v) \<and> v_has_security v \<and>
    (\<forall>a. validated v a \<longrightarrow> (\<exists>s. (a, s) \<in> set rs \<and> ck_checkSignature ck a s))"
  using assms
proof induction
  case start
  then show ?case by (simp add: om_inv_def validated_def)
next
  case (ask rs v clk period a b v')
  then show ?case using IsValid_keeps [OF ask(2)] by blast
next
  case (request rs v m v')
  then show ?case by (auto simp: ReplyAll_def validated_def split: option.splits list.splits if_splits)
next
  case (answer rs v ip rest v')
  let ?s = "signature_of rest"
  show ?case
  proof (cases "map_of (v_cluster_nodes v) ip \<noteq> None \<and> ck_checkSignature ck ip ?s")
    case True
    then have "validated v' c \<Longrightarrow> c = ip \<or> validated v c" and "om_inv (v_cluster_nodes v')" "v_has_security v'" for c
      using answer by (auto simp: ReplyAll_def validated_def om_get_put om.inv_put split: if_splits)
    then show ?thesis using answer True by auto
  next
    case False
    then have "v' = v" using answer by (auto simp: ReplyAll_def split: option.splits)
    then show ?thesis using answer by auto
  qed
qed

text \<open>a validator accepts a node only after a valid signature.  Whatever beacons and messages arrive, and in whatever
  order, if \<^verbatim>\<open>IsValid\<close> says yes to an address while security is on, then an answer was received
  that carries this address and a signature of it that checks.\<close>

theorem accepted_only_when_signed:
  assumes "validator_reach ck v0 rs v" "v_has_security v0" "v_cluster_nodes v0 = []"
    and "IsValid clk period a v = Inr (True, v')"
  shows "\<exists>s. (a, s) \<in> set rs \<and> ck_checkSignature ck a s"
proof -
  note inv = reach_validated [OF assms(1-3)]
  then have "validated v a" using IsValid_keeps [OF assms(4)] by blast
  then show ?thesis using inv by blast
qed

section \<open>Answers\<close>

text \<open>C16: a node that holds the key is accepted.  Validator A is asked about the address of validator B, which
  it does not know; it sends B the request, B answers with its address and signature, and from then on A
  accepts the address until the period of the node has passed.\<close>

theorem honest_node_accepted:
  assumes keys: "crypto_ok ck"
    and b: "InitWithSecurity ck nowB True addr vB0 = (True, vB)" "v_has_security vB"
    and a: "v_has_security vA" "om_inv (v_cluster_nodes vA)" "map_of (v_cluster_nodes vA) addr = None"
    and ok: "IsValidZmqAddress addr = Inr True" "0 < period" "\<forall>i j. i \<le> j \<longrightarrow> clk i \<le> clk j" "0 < clk 0"
    and ask: "IsValid clk period addr vA = Inr (r, vA1)"
    and reply: "ReplyAll ck (IdentifyRequest (Some [ident, ''Identify yourself!''])) vB = Inr vB1"
      "v_log vB1 = v_log vB @ [Identified ident name sig]" "ReplyAll ck (IdentifyReply (Some [name, sig])) vA1 = Inr vA2"
    and later: "\<forall>i. clk2 i \<le> clk 0 + seconds * period" "\<not> IsTimeout (clk2 0) (v_last_delete vA2)"
  shows "\<not> r \<and> last (v_log vA1) = Identify addr \<and> (\<exists>vA3. IsValid clk2 p2 addr vA2 = Inr (True, vA3))"
proof -
  define k where "k = length (v_cluster_nodes vA) + 2"
  define v1 where "v1 = DeleteOldNodes clk vA"
  have none: "map_of (v_cluster_nodes v1) addr = None"
    using a map_of_purge [of "v_cluster_nodes vA" "\<lambda>now n. IsTimeout now (ni_check_period n)" clk 1 addr]
    by (cases "map_of (v_cluster_nodes v1) addr") (auto simp: v1_def DeleteOldNodes_def Let_def split: if_splits)
  have due: "IsTimeout (clk i) (Timeout_range seconds period)" for i
    using ok(3) [rule_format, of 0 i] ok(4) by (auto simp: IsTimeout_def Timeout_range_def timeout_defs)
  define n where "n = \<lparr>ni_check_period = Timeout_Reset (clk (k + 2)) (Timeout_range seconds period), ni_validated = False\<rparr>"
  have vA1: "r = False" "map_of (v_cluster_nodes vA1) addr = Some n" "last (v_log vA1) = Identify addr" "v_has_security vA1"
    using ask a ok(1) none due
    by (auto simp: IsValid_def Let_def v1_def [symmetric] IsUptodate_def CreateNode_def Validate_def om_get_put n_def k_def)
      (auto simp: v1_def DeleteOldNodes_def Let_def)
  have "name = addr" "sig = ck_sign ck addr"
    using b reply(1,2) by (auto simp: InitWithSecurity_def ReplyAll_def)
  then have vA2: "map_of (v_cluster_nodes vA2) addr = Some (n\<lparr>ni_validated := True\<rparr>)" "v_has_security vA2"
    using reply(3) vA1 keys by (auto simp: ReplyAll_def crypto_ok_def om_get_put)
  have "\<not> IsTimeout (clk2 i) (ni_check_period n)" for i
    using later(1) [rule_format, of i] ok(3) [rule_format, of 0 "k + 2"]
    by (simp add: n_def IsTimeout_def Timeout_range_def timeout_defs)
  then show ?thesis
    using vA1(1,3) vA2 ok(1) later(2) by (simp add: IsValid_def DeleteOldNodes_def IsUptodate_def Let_def n_def)
qed

text \<open>nodes are never deleted while beacons keep coming.  The time of the last deletion is reset
  by every call, so as long as the calls follow one another within a minute no node is ever
  removed, however old it is.\<close>

theorem no_deletion_while_busy:
  assumes "IsValid clk period a v = Inr (r, v')" "om_inv (v_cluster_nodes v)" "m_timeout (v_last_delete v) = minutes"
    and "\<forall>i. t \<le> clk i \<and> clk i \<le> m_endPoint (v_last_delete v)" "v_has_security v" "IsValidZmqAddress a = Inr True"
  shows "(\<forall>c. map_of (v_cluster_nodes v) c \<noteq> None \<longrightarrow> map_of (v_cluster_nodes v') c \<noteq> None) \<and>
    m_timeout (v_last_delete v') = minutes \<and> t + minutes \<le> m_endPoint (v_last_delete v')"
proof -
  have busy: "\<not> IsTimeout (clk 0) (v_last_delete v)" using assms(4) by (simp add: IsTimeout_def linorder_not_less)
  have del: "v_cluster_nodes (DeleteOldNodes clk v) = v_cluster_nodes v"
    "v_last_delete (DeleteOldNodes clk v) = Timeout_Reset (clk (Suc (length (v_cluster_nodes v)))) (v_last_delete v)"
    using busy by (simp_all add: DeleteOldNodes_def Let_def)
  have "v_last_delete v' = v_last_delete (DeleteOldNodes clk v)"
    "\<forall>c. map_of (v_cluster_nodes v) c \<noteq> None \<longrightarrow> map_of (v_cluster_nodes v') c \<noteq> None"
    using assms(1,5,6) by (auto simp: IsValid_def Validate_def Let_def om_get_put del(1) split: option.splits if_splits)
  moreover have "t + minutes \<le> m_endPoint (v_last_delete (DeleteOldNodes clk v))"
    "m_timeout (v_last_delete (DeleteOldNodes clk v)) = minutes"
    using assms(3,4) by (simp_all add: del timeout_defs)
  ultimately show ?thesis by simp
qed

section \<open>Witnesses\<close>

definition ex_keys :: crypto where
  "ex_keys = \<lparr>ck_sign = rev, ck_encrypt = id, ck_decrypt = Some, ck_checkSignature = (\<lambda>data s. s = rev data)\<rparr>"

abbreviation ex_addr :: string where "ex_addr \<equiv> ''tcp://10.0.0.2:7000''"

definition ex_validator :: validator where
  "ex_validator = snd (InitWithSecurity ex_keys 0 True ''tcp://10.0.0.1:7000'' (DiscoveryValidator_new 0 True))"

lemma ex_addr_ok: "IsValidZmqAddress ex_addr = Inr True"
  by (simp add: IsValidZmqAddress_def inet_pton_def Let_def octet_def is_digit_def stoi_def split_sign_def is_space_def digits_val_def)

lemma ex_validator_simps [simp]:
  "v_has_security ex_validator" "v_cluster_nodes ex_validator = []" "v_last_delete ex_validator = Timeout_int minutes 0 1"
  by (simp_all add: ex_validator_def InitWithSecurity_def DiscoveryValidator_new_def)

definition ex_node :: node_info where
  "ex_node = \<lparr>ni_check_period = Timeout_Reset 1 (Timeout_range seconds 50), ni_validated = False\<rparr>"

lemma ex_ask:
  "\<exists>v'. IsValid (\<lambda>_. 1) 50 ex_addr ex_validator = Inr (False, v') \<and> v_cluster_nodes v' = [(ex_addr, ex_node)] \<and>
     v_has_security v' \<and> v_last_delete v' = Timeout_Reset 1 (Timeout_int minutes 0 1)"
proof -
  have "IsTimeout 1 (Timeout_range seconds 50)" "\<not> IsTimeout 1 (Timeout_int minutes 0 1)"
    by (simp_all add: IsTimeout_def Timeout_range_def timeout_defs)
  then show ?thesis
    using ex_addr_ok by (simp add: IsValid_def DeleteOldNodes_def IsUptodate_def Let_def CreateNode_def Validate_def ex_node_def)
qed

theorem no_deletion_while_busy_witness:
  "\<exists>r v'. IsValid (\<lambda>_. 1) 50 ex_addr ex_validator = Inr (r, v') \<and> 1 + minutes \<le> m_endPoint (v_last_delete v')"
proof -
  obtain v' where v': "IsValid (\<lambda>_. 1) 50 ex_addr ex_validator = Inr (False, v')" using ex_ask by blast
  show ?thesis using no_deletion_while_busy [OF v', of 1] v' ex_addr_ok by (auto simp: om_inv_def timeout_defs)
qed

theorem accepted_only_when_signed_witness:
  "\<exists>rs v v'. validator_reach ex_keys ex_validator rs v \<and> IsValid (\<lambda>_. 2) 50 ex_addr v = Inr (True, v') \<and>
     (\<exists>s. (ex_addr, s) \<in> set rs \<and> ck_checkSignature ex_keys ex_addr s)"
proof -
  obtain v1 where v1: "IsValid (\<lambda>_. 1) 50 ex_addr ex_validator = Inr (False, v1)" "v_cluster_nodes v1 = [(ex_addr, ex_node)]"
    "v_has_security v1" "v_last_delete v1 = Timeout_Reset 1 (Timeout_int minutes 0 1)"
    using ex_ask by blast
  obtain v2 where v2: "ReplyAll ex_keys (IdentifyReply (Some [ex_addr, rev ex_addr])) v1 = Inr v2"
    "v_cluster_nodes v2 = [(ex_addr, ex_node\<lparr>ni_validated := True\<rparr>)]" "v_has_security v2" "v_last_delete v2 = v_last_delete v1"
    using v1 by (simp add: ReplyAll_def ex_keys_def)
  have "\<not> IsTimeout 2 (ni_check_period ex_node)" "\<not> IsTimeout 2 (v_last_delete v2)"
    by (simp_all add: ex_node_def v2 v1 IsTimeout_def Timeout_range_def timeout_defs)
  then obtain v3 where v3: "IsValid (\<lambda>_. 2) 50 ex_addr v2 = Inr (True, v3)"
    using ex_addr_ok v2 by (simp add: IsValid_def DeleteOldNodes_def IsUptodate_def Let_def)
  have r: "validator_reach ex_keys ex_validator ([] @ [(ex_addr, rev ex_addr)]) v2"
    using validator_reach.answer [OF validator_reach.ask [OF validator_reach.start v1(1)] v2(1)] by simp
  have "\<exists>s. (ex_addr, s) \<in> set ([] @ [(ex_addr, rev ex_addr)]) \<and> ck_checkSignature ex_keys ex_addr s"
    by (rule accepted_only_when_signed [OF r _ _ v3]) simp_all
  with r v3 show ?thesis by blast
qed

lemma ex_keys_ok: "crypto_ok ex_keys"
  by (simp add: crypto_ok_def ex_keys_def)

theorem honest_node_accepted_witness:
  "\<exists>v1 v2 v3. IsValid (\<lambda>_. 1) 50 ex_addr ex_validator = Inr (False, v1) \<and>
     ReplyAll ex_keys (IdentifyReply (Some [ex_addr, rev ex_addr])) v1 = Inr v2 \<and> IsValid (\<lambda>_. 2) 50 ex_addr v2 = Inr (True, v3)"
proof -
  obtain v1 where v1: "IsValid (\<lambda>_. 1) 50 ex_addr ex_validator = Inr (False, v1)" "v_cluster_nodes v1 = [(ex_addr, ex_node)]"
    "v_has_security v1" "v_last_delete v1 = Timeout_Reset 1 (Timeout_int minutes 0 1)"
    using ex_ask by blast
  obtain v2 where v2: "ReplyAll ex_keys (IdentifyReply (Some [ex_addr, rev ex_addr])) v1 = Inr v2" "v_last_delete v2 = v_last_delete v1"
    using v1 by (simp add: ReplyAll_def ex_keys_def)
  define vB where "vB = snd (InitWithSecurity ex_keys 0 True ex_addr (DiscoveryValidator_new 0 True))"
  have vB: "InitWithSecurity ex_keys 0 True ex_addr (DiscoveryValidator_new 0 True) = (True, vB)" "v_has_security vB"
    "ReplyAll ex_keys (IdentifyRequest (Some [''i'', ''Identify yourself!''])) vB =
       Inr (vB\<lparr>v_log := v_log vB @ [Identified ''i'' ex_addr (rev ex_addr)]\<rparr>)"
    by (simp_all add: vB_def InitWithSecurity_def DiscoveryValidator_new_def ReplyAll_def ex_keys_def)
  have "\<exists>v3. IsValid (\<lambda>_. 2) 50 ex_addr v2 = Inr (True, v3)"
    using honest_node_accepted [OF ex_keys_ok vB(1,2) _ _ _ ex_addr_ok _ _ _ v1(1) vB(3) _ v2(1), where ?clk2.0 = "\<lambda>_. 2" and ?p2.0 = 50]
      v2(2) v1(4) by (simp add: om_inv_def IsTimeout_def timeout_defs)
  then show ?thesis using v1(1) v2(1) by blast
qed

end
