(* ===== verification/Dht_Tracker.thy ===== *)
theory Dht_Tracker
  imports Dht_Store
begin

text \<open>
  The tracker of the stability of the hash table: \<^verbatim>\<open>src/discoveryd/r_dhttracker.cc\<close>, a thread that
  the main program of the daemon tells the address of every beacon and that the message handler asks
  whether the hash table is ready.  The record \<open>tracker\<close> holds the local variables of the thread; what
  it puts, pushes and replies is logged.  The results of \<^verbatim>\<open>dht.get\<close> are an argument: the n-th call of
  \<^verbatim>\<open>check_state\<close> in an iteration sees \<open>get n\<close>.  The address of a node is its key, read as digits, and so the
  zero hash for every node.  Lemmas: what being stable means, how the tracker gets there, and for how long a node is
  known.
\<close>

section \<open>State\<close>

type_synonym dht_get = "nat \<Rightarrow> info_hash \<Rightarrow> string list"
type_synonym node_list = "(string, bool \<times> timeout) umap"

datatype tracker_effect =
    TrackerPut info_hash string
  | TrackerPush string
  | TrackerReply string bool

record tracker =
  tr_node_list :: node_list
  tr_terminated :: bool
  tr_is_stable :: bool
  tr_publish_ip_to :: timeout
  tr_last_refresh :: timeout
  tr_log :: "tracker_effect list"

abbreviation CMD_BEACON_IP :: string where "CMD_BEACON_IP \<equiv> ''CMD_BEACON_IP''"
abbreviation CMD_DHT_IP :: string where "CMD_DHT_IP \<equiv> ''CMD_DHT_IP''"
abbreviation CMD_QUERY_STABLE :: string where "CMD_QUERY_STABLE \<equiv> ''CMD_QUERY_STABLE''"

section \<open>check_state\<close>

definition node_found :: "string \<times> bool \<times> timeout \<Rightarrow> bool" where
  "node_found item = fst (snd item)"

text \<open>The nodes of the wait list whose \<^verbatim>\<open>get\<close> returned a value; each is pushed to the tracker itself.\<close>

definition wait_list_found :: "(info_hash \<Rightarrow> string list) \<Rightarrow> node_list \<Rightarrow> string list" where
  "wait_list_found get nodes =
     filter (\<lambda>ip. get (InfoHash_hex ip) \<noteq> []) (map fst (filter (\<lambda>item. \<not> node_found item) nodes))"

definition check_state :: "(info_hash \<Rightarrow> string list) \<Rightarrow> node_list \<Rightarrow> bool \<times> tracker_effect list" where
  "check_state get nodes =
     (let stableCount = length (filter node_found nodes);
          unstableCount = length (filter (\<lambda>item. \<not> node_found item) nodes)
      in if unstableCount = 0 \<and> stableCount > 0 then (True, [])
         else (False, map TrackerPush (wait_list_found get nodes)))"

definition recheck :: "(info_hash \<Rightarrow> string list) \<Rightarrow> tracker \<Rightarrow> tracker" where
  "recheck get t =
     (let (result, pushed) = check_state get (tr_node_list t)
      in t\<lparr>tr_is_stable := result, tr_log := tr_log t @ pushed\<rparr>)"

section \<open>The thread\<close>

definition republish :: "int \<Rightarrow> string \<Rightarrow> tracker \<Rightarrow> tracker" where
  "republish now self_ip t =
     t\<lparr>tr_log := tr_log t @ [TrackerPut (InfoHash_hex self_ip) self_ip],
       tr_publish_ip_to := Timeout_Reset now (tr_publish_ip_to t)\<rparr>"

definition tracker_start :: "clock \<Rightarrow> string \<Rightarrow> tracker" where
  "tracker_start clk self_ip =
     (republish (clk 1) self_ip
       \<lparr>tr_node_list = [], tr_terminated = False, tr_is_stable = False,
        tr_publish_ip_to = Timeout_int minutes (clk 0) 10, tr_last_refresh = Timeout_int seconds (clk 2) 30, tr_log = []\<rparr>)"

text \<open>A message on the router socket is read with the picture \<^verbatim>\<open>sss\<close>: frames that are missing are null
  pointers, and the construction of a string from one throws.\<close>

datatype tracker_event = TrackerPipe "string list" | TrackerMessage "string list" | TrackerIdle
datatype tracker_error = Null_string

definition on_beacon_ip :: "dht_get \<Rightarrow> int \<Rightarrow> string \<Rightarrow> tracker \<Rightarrow> tracker" where
  "on_beacon_ip get now ip t =
     (if map_of (tr_node_list t) ip = None
      then recheck (get 0) (t\<lparr>tr_node_list := um_put ip (False, Timeout_int minutes now 10) (tr_node_list t)\<rparr>)
      else t)"

definition on_dht_ip :: "dht_get \<Rightarrow> string \<Rightarrow> tracker \<Rightarrow> tracker" where
  "on_dht_ip get ip t =
     (case map_of (tr_node_list t) ip of
        None \<Rightarrow> t
      | Some (found, to) \<Rightarrow>
          if \<not> found then recheck (get 0) (t\<lparr>tr_node_list := um_put ip (True, to) (tr_node_list t)\<rparr>) else t)"

definition on_tracker_event :: "dht_get \<Rightarrow> int \<Rightarrow> tracker_event \<Rightarrow> tracker \<Rightarrow> tracker_error + tracker" where
  "on_tracker_event get now e t =
     (case e of
        TrackerPipe [] \<Rightarrow> Inl Null_string
      | TrackerPipe (command # _) \<Rightarrow> Inr (if command = ''$TERM'' then t\<lparr>tr_terminated := True\<rparr> else t)
      | TrackerMessage (frm # command # param # _) \<Rightarrow>
          Inr (if command = CMD_BEACON_IP then on_beacon_ip get now param t
               else if command = CMD_DHT_IP then on_dht_ip get param t
               else if command = CMD_QUERY_STABLE then t\<lparr>tr_log := tr_log t @ [TrackerReply frm (tr_is_stable t)]\<rparr>
               else t)
      | TrackerMessage _ \<Rightarrow> Inl Null_string
      | TrackerIdle \<Rightarrow> Inr t)"

definition refresh :: "dht_get \<Rightarrow> clock \<Rightarrow> string \<Rightarrow> tracker \<Rightarrow> tracker" where
  "refresh get clk self_ip t =
     (if IsTimeout (clk 0) (tr_last_refresh t)
      then let k = length (tr_node_list t) + 2;
               t1 = t\<lparr>tr_last_refresh := Timeout_Reset (clk 1) (tr_last_refresh t),
                      tr_node_list := purge (\<lambda>now v. IsTimeout now (snd v)) clk 2 (tr_node_list t)\<rparr>;
               t2 = (if IsTimeout (clk k) (tr_publish_ip_to t1) then republish (clk (k + 1)) self_ip t1 else t1)
           in if \<not> tr_is_stable t2 then recheck (get 1) t2 else t2
      else t)"

text \<open>One pass of the loop; \<open>now\<close> is read while the message is handled, \<open>clk\<close> afterwards.\<close>

definition tracker_step ::
  "dht_get \<Rightarrow> int \<Rightarrow> clock \<Rightarrow> string \<Rightarrow> tracker_event \<Rightarrow> tracker \<Rightarrow> tracker_error + tracker" where
  "tracker_step get now clk self_ip e t =
     (case on_tracker_event get now e t of Inl err \<Rightarrow> Inl err | Inr t1 \<Rightarrow> Inr (refresh get clk self_ip t1))"

record tracker_env =
  te_get :: dht_get
  te_now :: int
  te_clk :: clock
  te_self_ip :: string

definition tracker_iteration :: "tracker_env \<times> tracker_event \<Rightarrow> tracker \<Rightarrow> tracker_error + tracker" where
  "tracker_iteration x t = (case x of (ev, e) \<Rightarrow> tracker_step (te_get ev) (te_now ev) (te_clk ev) (te_self_ip ev) e t)"

definition tracker_run :: "(tracker_env \<times> tracker_event) list \<Rightarrow> tracker \<Rightarrow> tracker_error + tracker" where
  "tracker_run es t = loop tr_terminated tracker_iteration es t"

lemma tracker_run_simps [simp]:
  "tracker_run [] t = Inr t"
  "tracker_run ((ev, e) # es) t =
     (if tr_terminated t then Inr t
      else case tracker_step (te_get ev) (te_now ev) (te_clk ev) (te_self_ip ev) e t of
             Inl err \<Rightarrow> Inl err
           | Inr t1 \<Rightarrow> tracker_run es t1)"
  by (auto simp: tracker_run_def tracker_iteration_def split: sum.split)

section \<open>What stable means\<close>

text \<open>The invariant of the thread: addresses are distinct, and a stable tracker has no node that was not
  found.\<close>

definition tracker_ok :: "tracker \<Rightarrow> bool" where
  "tracker_ok t \<longleftrightarrow> um_inv (tr_node_list t) \<and> (tr_is_stable t \<longrightarrow> list_all node_found (tr_node_list t))"

lemma check_state_stable: "fst (check_state get nodes) \<longleftrightarrow> nodes \<noteq> [] \<and> list_all node_found nodes"
  by (cases nodes) (auto simp: check_state_def Let_def filter_empty_conv list_all_iff)

lemma recheck_simps [simp]:
  "tr_node_list (recheck get t) = tr_node_list t" "tr_terminated (recheck get t) = tr_terminated t"
  "tr_publish_ip_to (recheck get t) = tr_publish_ip_to t" "tr_last_refresh (recheck get t) = tr_last_refresh t"
  "tr_is_stable (recheck get t) \<longleftrightarrow> tr_node_list t \<noteq> [] \<and> list_all node_found (tr_node_list t)"
  using check_state_stable [of get "tr_node_list t"] by (simp_all add: recheck_def case_prod_unfold Let_def)

lemma republish_simps [simp]:
  "tr_node_list (republish now ip t) = tr_node_list t" "tr_is_stable (republish now ip t) = tr_is_stable t"
  "tr_last_refresh (republish now ip t) = tr_last_refresh t" "tr_terminated (republish now ip t) = tr_terminated t"
  by (simp_all add: republish_def)

lemma recheck_ok: "um_inv (tr_node_list t) \<Longrightarrow> tracker_ok (recheck get t)"
  by (simp add: tracker_ok_def)

lemma refresh_nodes:
  "tr_node_list (refresh get clk ip t) =
     (if IsTimeout (clk 0) (tr_last_refresh t) then purge (\<lambda>now v. IsTimeout now (snd v)) clk 2 (tr_node_list t)
      else tr_node_list t)"
  by (simp add: refresh_def Let_def)

lemma refresh_ok: "tracker_ok t \<Longrightarrow> tracker_ok (refresh get clk ip t)"
proof -
  assume t: "tracker_ok t"
  let ?p = "purge (\<lambda>now v. IsTimeout now (snd v)) clk 2 (tr_node_list t)"
  have "um_inv ?p" "tr_is_stable t \<Longrightarrow> list_all node_found ?p"
    using t purge_set [of "\<lambda>now v. IsTimeout now (snd v)" clk 2 "tr_node_list t"]
    by (auto simp: tracker_ok_def purge_inv list_all_iff)
  then show ?thesis using t by (auto simp: refresh_def Let_def tracker_ok_def)
qed

lemma event_ok: "tracker_ok t \<Longrightarrow> on_tracker_event get now e t = Inr t' \<Longrightarrow> tracker_ok t'"
  by (auto simp: on_tracker_event_def on_beacon_ip_def on_dht_ip_def tracker_ok_def um_inv_put
      split: tracker_event.splits list.splits if_splits option.splits)

lemma step_ok: "tracker_ok t \<Longrightarrow> tracker_step get now clk ip e t = Inr t' \<Longrightarrow> tracker_ok t'"
  by (auto simp: tracker_step_def split: sum.splits intro: refresh_ok event_ok)

text \<open>The addresses that may arrive as found are the ones the tracker pushed to itself.\<close>

fun own_traffic :: "tracker \<Rightarrow> tracker_event \<Rightarrow> bool" where
  "own_traffic t (TrackerMessage (frm # command # param # _)) \<longleftrightarrow>
     (command = CMD_DHT_IP \<longrightarrow> TrackerPush param \<in> set (tr_log t))"
| "own_traffic t _ \<longleftrightarrow> True"

text \<open>The hash table returns values only under keys that were published.\<close>

definition honest_dht :: "info_hash set \<Rightarrow> dht_get \<Rightarrow> bool" where
  "honest_dht pub get \<longleftrightarrow> (\<forall>k h. get k h \<noteq> [] \<longrightarrow> h \<in> pub)"

text \<open>The states of the thread when the hash table returns only values of the keys \<open>pub\<close>.\<close>

inductive tracker_reach :: "info_hash set \<Rightarrow> tracker \<Rightarrow> bool" for pub :: "info_hash set" where
  tracker_init: "tracker_reach pub (tracker_start clk ip)"
| tracker_next: "tracker_reach pub t \<Longrightarrow> own_traffic t e \<Longrightarrow> honest_dht pub get \<Longrightarrow>
     tracker_step get now clk ip e t = Inr t' \<Longrightarrow> tracker_reach pub t'"

definition sound_log :: "info_hash set \<Rightarrow> tracker \<Rightarrow> bool" where
  "sound_log pub t \<longleftrightarrow> (\<forall>a. TrackerPush a \<in> set (tr_log t) \<longrightarrow> InfoHash_hex a \<in> pub)"

definition sound_nodes :: "info_hash set \<Rightarrow> tracker \<Rightarrow> bool" where
  "sound_nodes pub t \<longleftrightarrow> (\<forall>a to. map_of (tr_node_list t) a = Some (True, to) \<longrightarrow> InfoHash_hex a \<in> pub)"

lemma sound_log_simps [simp]:
  "sound_log pub (t\<lparr>tr_node_list := m\<rparr>) = sound_log pub t" "sound_log pub (t\<lparr>tr_last_refresh := r\<rparr>) = sound_log pub t"
  "sound_log pub (t\<lparr>tr_terminated := b\<rparr>) = sound_log pub t"
  "sound_log pub (t\<lparr>tr_log := tr_log t @ [TrackerReply frm s]\<rparr>) = sound_log pub t"
  "sound_log pub (republish now ip t) = sound_log pub t"
  by (auto simp: sound_log_def republish_def)

lemma sound_recheck: "honest_dht pub get \<Longrightarrow> sound_log pub t \<Longrightarrow> sound_log pub (recheck (get k) t)"
  by (auto simp: honest_dht_def sound_log_def recheck_def check_state_def wait_list_found_def Let_def)

lemma map_of_um_purge:
  "um_inv m \<Longrightarrow> map_of (purge ex clk k m) a = Some n \<Longrightarrow> map_of m a = Some n"
  using um.item_get [of m] um.item_get [of "purge ex clk k m"] purge_inv [of m ex clk k] purge_set [of ex clk k m] by blast

lemma sound_refresh:
  assumes "honest_dht pub get" "sound_log pub t" "sound_nodes pub t" "tracker_ok t"
  shows "sound_log pub (refresh get clk ip t) \<and> sound_nodes pub (refresh get clk ip t)"
  using assms by (auto simp: refresh_def Let_def sound_recheck sound_nodes_def tracker_ok_def dest: map_of_um_purge)

lemma sound_event:
  assumes "honest_dht pub get" "sound_log pub t" "sound_nodes pub t" "own_traffic t e"
    and "on_tracker_event get now e t = Inr t'"
  shows "sound_log pub t' \<and> sound_nodes pub t'"
proof (cases "(t, e)" rule: own_traffic.cases)
  case (1 t0 frm command param rest)
  then have e: "e = TrackerMessage (frm # command # param # rest)" by simp
  have "command = CMD_DHT_IP \<Longrightarrow> InfoHash_hex param \<in> pub" using assms(2,4) by (auto simp: e sound_log_def)
  then show ?thesis
    using assms by (auto simp: e on_tracker_event_def on_beacon_ip_def on_dht_ip_def sound_recheck sound_nodes_def um_get_put
        split: if_splits option.splits)
qed (use assms in \<open>auto simp: on_tracker_event_def sound_nodes_def split: list.splits if_splits\<close>)

lemma tracker_reach_sound: "tracker_reach pub t \<Longrightarrow> tracker_ok t \<and> sound_log pub t \<and> sound_nodes pub t"
proof (induction rule: tracker_reach.induct)
  case (tracker_init clk ip)
  show ?case
    by (simp add: tracker_start_def tracker_ok_def sound_nodes_def um_inv_def) (simp add: sound_log_def)
next
  case (tracker_next t e get now clk ip t')
  then obtain t1 where t1: "on_tracker_event get now e t = Inr t1" "t' = refresh get clk ip t1"
    by (auto simp: tracker_step_def split: sum.splits)
  then have "sound_log pub t1 \<and> sound_nodes pub t1" "tracker_ok t1"
    using tracker_next sound_event event_ok by blast+
  then show ?case using tracker_next sound_refresh refresh_ok by (simp add: t1(2))
qed

text \<open>A stable tracker: whatever beacons, queries and timeouts happen, while the hash table returns values only under keys in
  use and the only senders of \<^verbatim>\<open>CMD_DHT_IP\<close> are the lookups of the tracker, every node it knows was found, and its key
  was in use.\<close>

lemma reach_stable_published:
  assumes "tracker_reach pub t" "tr_is_stable t" "map_of (tr_node_list t) ip = Some v"
  shows "fst v \<and> InfoHash_hex ip \<in> pub"
proof -
  note inv = tracker_reach_sound [OF assms(1)]
  then have "list_all node_found (tr_node_list t)" using assms(2) by (simp add: tracker_ok_def)
  then have "fst v" using map_of_SomeD [OF assms(3)] by (auto simp: list_all_iff node_found_def)
  with inv assms(3) show ?thesis by (cases v) (auto simp: sound_nodes_def)
qed

section \<open>How it becomes stable\<close>

definition quiet :: "tracker_env \<Rightarrow> timeout \<Rightarrow> bool" where
  "quiet ev r \<longleftrightarrow> \<not> IsTimeout (te_clk ev 0) r"

definition not_found :: "tracker \<Rightarrow> string set" where
  "not_found t = set (map fst (filter (\<lambda>item. \<not> node_found item) (tr_node_list t)))"

abbreviation found_msg :: "string \<Rightarrow> string \<Rightarrow> tracker_event" where
  "found_msg frm ip \<equiv> TrackerMessage [frm, CMD_DHT_IP, ip]"

lemma quiet_step:
  "quiet ev (tr_last_refresh t1) \<Longrightarrow> on_tracker_event (te_get ev) (te_now ev) e t = Inr t1 \<Longrightarrow>
     tracker_step (te_get ev) (te_now ev) (te_clk ev) (te_self_ip ev) e t = Inr t1"
  by (simp add: tracker_step_def refresh_def quiet_def)

lemma all_found: "list_all node_found (tr_node_list t) \<longleftrightarrow> not_found t = {}"
  by (auto simp: not_found_def filter_empty_conv list_all_iff)

lemma not_found_iff: "a \<in> not_found t \<longleftrightarrow> (\<exists>to. (a, False, to) \<in> set (tr_node_list t))"
  by (force simp: not_found_def node_found_def)

lemma not_found_put:
  "um_inv m \<Longrightarrow> not_found (t\<lparr>tr_node_list := um_put p (b, to) m\<rparr>) =
     (if b then not_found (t\<lparr>tr_node_list := m\<rparr>) - {p} else insert p (not_found (t\<lparr>tr_node_list := m\<rparr>)))"
  by (cases b) (auto simp: not_found_iff um.put_in split: if_splits, metis)

lemma not_found_recheck [simp]: "not_found (recheck get t) = not_found t"
  by (simp add: not_found_def)

text \<open>A tracker between two refreshes that is stable exactly when nothing is left to find.\<close>

definition settled :: "timeout \<Rightarrow> string set \<Rightarrow> tracker \<Rightarrow> bool" where
  "settled r keys t \<longleftrightarrow> um_inv (tr_node_list t) \<and> \<not> tr_terminated t \<and> tr_last_refresh t = r \<and>
     fst ` set (tr_node_list t) = keys \<and> (tr_is_stable t \<longleftrightarrow> not_found t = {})"

lemma deliver_one:
  assumes "settled r keys t" "quiet ev r"
  shows "\<exists>t1. tracker_run [(ev, found_msg frm p)] t = Inr t1 \<and> settled r keys t1 \<and> not_found t1 = not_found t - {p}"
proof (cases "p \<in> not_found t")
  case True
  have inv: "um_inv (tr_node_list t)" using assms(1) by (simp add: settled_def)
  obtain to where to: "map_of (tr_node_list t) p = Some (False, to)"
    using True not_found_iff [of p t] um.item_get [OF inv] by auto
  define t1 where "t1 = recheck (te_get ev 0) (t\<lparr>tr_node_list := um_put p (True, to) (tr_node_list t)\<rparr>)"
  have "on_tracker_event (te_get ev) (te_now ev) (found_msg frm p) t = Inr t1"
    using to by (simp add: on_tracker_event_def on_dht_ip_def t1_def)
  then have step: "tracker_run [(ev, found_msg frm p)] t = Inr t1"
    using quiet_step [of ev t1] assms by (simp add: settled_def t1_def)
  have keys: "fst ` set (tr_node_list t1) = fst ` set (tr_node_list t)"
    using map_of_SomeD [OF to] by (force simp: t1_def um_put_keys)
  moreover have "tr_is_stable t1 \<longleftrightarrow> not_found t1 = {}"
    using all_found [of t1] keys map_of_SomeD [OF to] by (auto simp: t1_def)
  moreover have "not_found t1 = not_found t - {p}" using inv by (simp add: t1_def not_found_put)
  ultimately show ?thesis using step assms(1) by (auto simp: settled_def t1_def um_inv_put)
next
  case False
  then have "\<nexists>to. map_of (tr_node_list t) p = Some (False, to)" using not_found_iff [of p t] map_of_SomeD by fastforce
  then have "on_tracker_event (te_get ev) (te_now ev) (found_msg frm p) t = Inr t"
    by (auto simp: on_tracker_event_def on_dht_ip_def split: option.split)
  then show ?thesis using quiet_step [of ev t] assms False by (auto simp: settled_def)
qed

lemma deliver_found:
  assumes "settled r keys t" "\<And>p. quiet (env p) r"
  shows "\<exists>t2. tracker_run (map (\<lambda>p. (env p, found_msg frm p)) qs) t = Inr t2 \<and> settled r keys t2 \<and> not_found t2 = not_found t - set qs"
  using assms(1)
proof (induction qs arbitrary: t)
  case (Cons p qs)
  obtain t1 where t1: "tracker_run [(env p, found_msg frm p)] t = Inr t1" "settled r keys t1" "not_found t1 = not_found t - {p}"
    using deliver_one [OF Cons.prems assms(2)] by blast
  then have "tracker_run (map (\<lambda>p. (env p, found_msg frm p)) (p # qs)) t = tracker_run (map (\<lambda>p. (env p, found_msg frm p)) qs) t1"
    using Cons.prems by (auto simp: settled_def split: sum.splits)
  then show ?case using Cons.IH [OF t1(2)] t1(3) by fastforce
qed simp

lemma wait_list_set:
  "set (wait_list_found get (tr_node_list t)) = {a \<in> not_found t. get (InfoHash_hex a) \<noteq> []}"
  by (auto simp: wait_list_found_def not_found_def)

lemma beacon_then_found:
  assumes "um_inv (tr_node_list t)" "map_of (tr_node_list t) ip = None" "\<not> tr_terminated t"
    and "quiet ev (tr_last_refresh t)" "\<forall>p. quiet (env p) (tr_last_refresh t)"
  shows "\<exists>t1 ps. tracker_run [(ev, TrackerMessage [frm, CMD_BEACON_IP, ip])] t = Inr t1 \<and> \<not> tr_is_stable t1 \<and>
    tr_log t1 = tr_log t @ map TrackerPush ps \<and> set ps = {a \<in> insert ip (not_found t). te_get ev 0 (InfoHash_hex a) \<noteq> []} \<and>
    (\<forall>qs. \<exists>t2. tracker_run (map (\<lambda>p. (env p, found_msg frm' p)) qs) t1 = Inr t2 \<and>
       (tr_is_stable t2 \<longleftrightarrow> insert ip (not_found t) \<subseteq> set qs) \<and>
       fst ` set (tr_node_list t2) = insert ip (fst ` set (tr_node_list t)))"
proof -
  define m where "m = um_put ip (False, Timeout_int minutes (te_now ev) 10) (tr_node_list t)"
  define t0 where "t0 = t\<lparr>tr_node_list := m\<rparr>"
  define t1 where "t1 = recheck (te_get ev 0) t0"
  define ps where "ps = wait_list_found (te_get ev 0) m"
  have nf: "not_found t0 = insert ip (not_found t)" "not_found t1 = not_found t0"
    using assms(1) by (simp_all add: t0_def t1_def m_def not_found_put)
  have ps: "set ps = {a \<in> insert ip (not_found t). te_get ev 0 (InfoHash_hex a) \<noteq> []}"
    using wait_list_set [of "te_get ev 0" t0] unfolding nf(1) by (simp add: t0_def ps_def)
  have unstable: "\<not> list_all node_found m" using all_found [of t0] nf by (simp add: t0_def)
  then have log: "tr_log t1 = tr_log t @ map TrackerPush ps"
    using check_state_stable [of "te_get ev 0" m] by (auto simp: t1_def recheck_def t0_def ps_def check_state_def Let_def split: if_splits)
  have "on_tracker_event (te_get ev) (te_now ev) (TrackerMessage [frm, CMD_BEACON_IP, ip]) t = Inr t1"
    using assms(2) by (simp add: on_tracker_event_def on_beacon_ip_def t1_def t0_def m_def)
  then have step: "tracker_run [(ev, TrackerMessage [frm, CMD_BEACON_IP, ip])] t = Inr t1"
    using quiet_step [of ev t1] assms(3,4) by (simp add: t1_def t0_def)
  have t1: "settled (tr_last_refresh t) (insert ip (fst ` set (tr_node_list t))) t1" "\<not> tr_is_stable t1"
    using assms(1,3) unstable nf by (simp_all add: settled_def t1_def t0_def m_def um_inv_put um_put_keys)
  have "\<exists>t2. tracker_run (map (\<lambda>p. (env p, found_msg frm' p)) qs) t1 = Inr t2 \<and>
      (tr_is_stable t2 \<longleftrightarrow> insert ip (not_found t) \<subseteq> set qs) \<and> fst ` set (tr_node_list t2) = insert ip (fst ` set (tr_node_list t))" for qs
    using deliver_found [OF t1(1), of env frm' qs] assms(5) nf by (auto simp: settled_def)
  then show ?thesis using step log ps t1(2) by blast
qed

text \<open>C27: a new node makes the tracker unstable until it is found.  The beacon of an unknown node makes the tracker
  unstable, and it pushes to itself exactly those of the nodes not found yet, the new one included, for whose key the
  hash table has a value.  From then on, as long as no refresh is due, whatever addresses are delivered as found, in any
  order and any number of times, the tracker is stable exactly when all these nodes have been delivered.\<close>

theorem tracker_stabilises:
  assumes "um_inv (tr_node_list t)" "map_of (tr_node_list t) ip = None" "\<not> tr_terminated t"
    and "quiet ev (tr_last_refresh t)" "\<forall>p. quiet (env p) (tr_last_refresh t)"
  shows "\<exists>t1 ps. tracker_run [(ev, TrackerMessage [frm, CMD_BEACON_IP, ip])] t = Inr t1 \<and> \<not> tr_is_stable t1 \<and>
    tr_log t1 = tr_log t @ map TrackerPush ps \<and> set ps = {a \<in> insert ip (not_found t). te_get ev 0 (InfoHash_hex a) \<noteq> []} \<and>
    (\<forall>qs. \<exists>t2. tracker_run (map (\<lambda>p. (env p, found_msg frm' p)) qs) t1 = Inr t2 \<and>
       (tr_is_stable t2 \<longleftrightarrow> insert ip (not_found t) \<subseteq> set qs) \<and>
       fst ` set (tr_node_list t2) = insert ip (fst ` set (tr_node_list t)))"
  using assms by (rule beacon_then_found)

text \<open>the tracker calls a node found that never published anything.  The keys of all addresses shorter than forty characters
  are the zero hash, under which every node publishes its own: as soon as one address has been published, if only
  that of the tracker itself, the beacon of any unknown node leads to a stable tracker.\<close>

theorem unpublished_node_found:
  assumes "um_inv (tr_node_list t)" "map_of (tr_node_list t) ip = None" "\<not> tr_terminated t" "not_found t = {}"
    and "quiet ev (tr_last_refresh t)" "length (te_self_ip ev) < 40" "length ip < 40"
    and "\<forall>h. te_get ev 0 h \<noteq> [] \<longleftrightarrow> h = InfoHash_hex (te_self_ip ev)"
  shows "\<exists>t1 t2. tracker_run [(ev, TrackerMessage [frm, CMD_BEACON_IP, ip])] t = Inr t1 \<and> TrackerPush ip \<in> set (tr_log t1) \<and>
    tracker_run [(ev, found_msg frm' ip)] t1 = Inr t2 \<and> tr_is_stable t2"
proof -
  have "\<forall>p. quiet ((\<lambda>_. ev) p) (tr_last_refresh t)" using assms(5) by simp
  from beacon_then_found [OF assms(1,2,3,5) this, of frm frm'] obtain t1 ps where
    t1: "tracker_run [(ev, TrackerMessage [frm, CMD_BEACON_IP, ip])] t = Inr t1" "tr_log t1 = tr_log t @ map TrackerPush ps"
      "set ps = {a \<in> insert ip (not_found t). te_get ev 0 (InfoHash_hex a) \<noteq> []}"
    and all: "\<forall>qs. \<exists>t2. tracker_run (map (\<lambda>p. (ev, found_msg frm' p)) qs) t1 = Inr t2 \<and> (tr_is_stable t2 \<longleftrightarrow> insert ip (not_found t) \<subseteq> set qs) \<and>
      fst ` set (tr_node_list t2) = insert ip (fst ` set (tr_node_list t))"
    by (elim exE conjE) (rule that)
  have "ip \<in> set ps" using t1(3) assms(6-8) by (simp add: InfoHash_hex_short)
  moreover obtain t2 where "tracker_run [(ev, found_msg frm' ip)] t1 = Inr t2" "tr_is_stable t2"
    using spec [OF all, of "[ip]"] assms(4) by auto
  ultimately show ?thesis using t1(1,2) by auto
qed

section \<open>How long a node is known\<close>

lemma event_keeps:
  assumes "on_tracker_event get now e t = Inr t'" "map_of (tr_node_list t) ip = Some (b, to)" "um_inv (tr_node_list t)"
  shows "um_inv (tr_node_list t') \<and> (\<exists>b'. map_of (tr_node_list t') ip = Some (b', to)) \<and> tr_last_refresh t' = tr_last_refresh t"
  using assms by (auto simp: on_tracker_event_def on_beacon_ip_def on_dht_ip_def um_inv_put um_get_put
      split: tracker_event.splits list.splits if_splits option.splits)

lemma step_keeps:
  assumes "tracker_step get now clk self e t = Inr t'" "map_of (tr_node_list t) ip = Some (b, to)" "um_inv (tr_node_list t)"
    and "\<And>i. \<not> IsTimeout (clk i) to"
  shows "um_inv (tr_node_list t') \<and> (\<exists>b'. map_of (tr_node_list t') ip = Some (b', to))"
proof -
  obtain t1 where t1: "on_tracker_event get now e t = Inr t1" "t' = refresh get clk self t1"
    using assms(1) by (auto simp: tracker_step_def split: sum.splits)
  obtain b' where k: "um_inv (tr_node_list t1)" "map_of (tr_node_list t1) ip = Some (b', to)"
    using event_keeps [OF t1(1) assms(2,3)] by auto
  let ?p = "purge (\<lambda>now v. IsTimeout now (snd v)) clk 2 (tr_node_list t1)"
  have "(ip, b', to) \<in> set ?p" by (rule purge_keeps [OF map_of_SomeD [OF k(2)]]) (simp add: assms(4))
  then have "map_of ?p ip = Some (b', to)" using um.item_get [OF purge_inv [OF k(1)]] by blast
  then show ?thesis using k purge_inv [OF k(1)] by (auto simp: t1(2) refresh_nodes)
qed

lemma run_keeps:
  assumes "tracker_run es t = Inr t'" "map_of (tr_node_list t) ip = Some (b, to)" "um_inv (tr_node_list t)"
    and "\<And>ev e i. (ev, e) \<in> set es \<Longrightarrow> \<not> IsTimeout (te_clk ev i) to"
  shows "um_inv (tr_node_list t') \<and> (\<exists>b'. map_of (tr_node_list t') ip = Some (b', to))"
  using assms(1)
  unfolding tracker_run_def
proof (rule loop_preserves)
  show "um_inv (tr_node_list t) \<and> (\<exists>b'. map_of (tr_node_list t) ip = Some (b', to))" using assms(2,3) by simp
  fix x t1 t2
  assume x: "x \<in> set es" and t1: "um_inv (tr_node_list t1) \<and> (\<exists>b'. map_of (tr_node_list t1) ip = Some (b', to))"
    and step: "tracker_iteration x t1 = Inr t2"
  obtain ev e b' where "x = (ev, e)" "map_of (tr_node_list t1) ip = Some (b', to)" using t1 by (cases x) auto
  then show "um_inv (tr_node_list t2) \<and> (\<exists>b'. map_of (tr_node_list t2) ip = Some (b', to))"
    using step_keeps [of "te_get ev" "te_now ev" "te_clk ev" "te_self_ip ev" e t1 t2 ip b' to] assms(4) x t1 step
    by (simp add: tracker_iteration_def)
qed

text \<open>a live node is forgotten ten minutes after its first beacon.  The deadline of a node is set when it
  enters the table and no later beacon moves it: whatever arrives, the node stays until that deadline
  and the first refresh that runs after it removes the node, even when this very iteration
  received a beacon from it.\<close>

theorem live_node_forgotten:
  assumes "um_inv (tr_node_list t)" "map_of (tr_node_list t) ip = Some (b, to)"
    and "tracker_run es t = Inr t1" "\<forall>(ev, e) \<in> set es. \<forall>i. te_clk ev i \<le> m_endPoint to"
    and "IsTimeout (clk 0) (tr_last_refresh t1)" "\<forall>i. m_endPoint to < clk i"
    and "tracker_step get now clk self e t1 = Inr t2"
  shows "map_of (tr_node_list t1) ip \<noteq> None \<and> map_of (tr_node_list t2) ip = None"
proof -
  obtain b1 where t1: "um_inv (tr_node_list t1)" "map_of (tr_node_list t1) ip = Some (b1, to)"
  proof -
    have "\<not> IsTimeout (te_clk ev i) to" if "(ev, e) \<in> set es" for ev e i
      using bspec [OF assms(4) that] by (simp add: IsTimeout_def linorder_not_less)
    then show ?thesis using run_keeps [OF assms(3,2,1)] that by blast
  qed
  obtain t' where t': "on_tracker_event get now e t1 = Inr t'" "t2 = refresh get clk self t'"
    using assms(7) by (auto simp: tracker_step_def split: sum.splits)
  obtain b2 where k: "um_inv (tr_node_list t')" "map_of (tr_node_list t') ip = Some (b2, to)" "tr_last_refresh t' = tr_last_refresh t1"
    using event_keeps [OF t'(1) t1(2,1)] by auto
  let ?p = "purge (\<lambda>now v. IsTimeout now (snd v)) clk 2 (tr_node_list t')"
  have "map_of ?p ip = None"
  proof (rule ccontr)
    assume "map_of ?p ip \<noteq> None"
    then obtain v where v: "map_of ?p ip = Some v" by auto
    then have "v = (b2, to)" using map_of_um_purge [OF k(1) v] k(2) by simp
    then show False using purge_drops [OF map_of_SomeD [OF v]] assms(6) by (auto simp: IsTimeout_def)
  qed
  then show ?thesis using t1(2) assms(5) k(3) by (simp add: t'(2) refresh_nodes)
qed

section \<open>Witnesses\<close>

definition ex_tracker_env :: "int \<Rightarrow> tracker_env" where
  "ex_tracker_env now = \<lparr>te_get = (\<lambda>_ _. [''10.0.0.2'']), te_now = now, te_clk = (\<lambda>_. now), te_self_ip = ''10.0.0.1''\<rparr>"

abbreviation ex_beacon :: tracker_event where "ex_beacon \<equiv> TrackerMessage [''m'', CMD_BEACON_IP, ''10.0.0.2'']"

lemmas tracker_eval = tracker_step_def on_tracker_event_def on_beacon_ip_def on_dht_ip_def refresh_def recheck_def
  check_state_def wait_list_found_def node_found_def republish_def tracker_start_def ex_tracker_env_def Let_def

text \<open>Only the tracker itself, 10.0.0.1, has published its address, and it is stable with the node 10.0.0.2.\<close>

lemma ex_stable_tracker:
  "\<exists>t v. tracker_reach (InfoHash_hex ` {''10.0.0.1''}) t \<and> tr_is_stable t \<and>
     map_of (tr_node_list t) ''10.0.0.2'' = Some v"
proof -
  let ?pub = "InfoHash_hex ` {''10.0.0.1''}"
  let ?get = "\<lambda>_ h. if h = zero_hash then [''10.0.0.1''] else []"
  let ?t0 = "tracker_start (\<lambda>_. 0) ''10.0.0.1''"
  have get: "honest_dht ?pub ?get" by (simp add: honest_dht_def InfoHash_hex_short)
  obtain t1 where t1: "tracker_step ?get 1 (\<lambda>_. 1) ''10.0.0.1'' ex_beacon ?t0 = Inr t1" "TrackerPush ''10.0.0.2'' \<in> set (tr_log t1)"
    "tr_node_list t1 = [(''10.0.0.2'', False, Timeout_int minutes 1 10)]" "tr_last_refresh t1 = tr_last_refresh ?t0"
    by (simp add: tracker_eval timeout_defs InfoHash_hex_short)
  obtain t2 where t2: "tracker_step ?get 2 (\<lambda>_. 2) ''10.0.0.1'' (found_msg ''d'' ''10.0.0.2'') t1 = Inr t2" "tr_is_stable t2"
    "map_of (tr_node_list t2) ''10.0.0.2'' = Some (True, Timeout_int minutes 1 10)"
    using t1(3,4) by (simp add: tracker_eval timeout_defs)
  have "tracker_reach ?pub t1" by (rule tracker_next [OF tracker_init _ get t1(1)]) simp
  then have r: "tracker_reach ?pub t2" by (rule tracker_next [OF _ _ get t2(1)]) (simp add: t1(2))
  show ?thesis using r t2(2,3) by (intro exI conjI)
qed

theorem tracker_stabilises_witness:
  "\<exists>t1 t2. tracker_run [(ex_tracker_env 1, ex_beacon)] (tracker_start (\<lambda>_. 0) ''10.0.0.1'') = Inr t1 \<and> \<not> tr_is_stable t1 \<and>
     tracker_run [(ex_tracker_env 2, found_msg ''d'' ''10.0.0.2'')] t1 = Inr t2 \<and> tr_is_stable t2"
proof -
  let ?t = "tracker_start (\<lambda>_. 0) ''10.0.0.1''"
  have e: "not_found ?t = {}" by (simp add: not_found_def tracker_start_def)
  have "um_inv (tr_node_list ?t)" "map_of (tr_node_list ?t) ''10.0.0.2'' = None" "\<not> tr_terminated ?t"
    "quiet (ex_tracker_env 1) (tr_last_refresh ?t)" "\<forall>p :: string. quiet ((\<lambda>_. ex_tracker_env 2) p) (tr_last_refresh ?t)"
    by (simp_all add: tracker_start_def um_inv_def quiet_def ex_tracker_env_def timeout_defs)
  from tracker_stabilises [OF this, of "''m''" "''d''"] obtain t1 where
    t1: "tracker_run [(ex_tracker_env 1, ex_beacon)] ?t = Inr t1" "\<not> tr_is_stable t1"
    and all: "\<forall>qs. \<exists>t2. tracker_run (map (\<lambda>p. (ex_tracker_env 2, found_msg ''d'' p)) qs) t1 = Inr t2 \<and> (tr_is_stable t2 \<longleftrightarrow> insert ''10.0.0.2'' {} \<subseteq> set qs) \<and>
      fst ` set (tr_node_list t2) = insert ''10.0.0.2'' (fst ` set (tr_node_list ?t))"
    unfolding e by (elim exE conjE) (rule that)
  show ?thesis using t1 spec [OF all, of "[''10.0.0.2'']"] by auto
qed

theorem unpublished_node_found_witness:
  "let ev = (ex_tracker_env 1)\<lparr>te_get := \<lambda>_ h. if h = InfoHash_hex ''10.0.0.1'' then [''10.0.0.1''] else []\<rparr>
   in \<exists>t1 t2. tracker_run [(ev, ex_beacon)] (tracker_start (\<lambda>_. 0) ''10.0.0.1'') = Inr t1 \<and>
        tracker_run [(ev, found_msg ''d'' ''10.0.0.2'')] t1 = Inr t2 \<and> tr_is_stable t2"
proof -
  define ev where "ev = (ex_tracker_env 1)\<lparr>te_get := \<lambda>_ h. if h = InfoHash_hex ''10.0.0.1'' then [''10.0.0.1''] else []\<rparr>"
  let ?t = "tracker_start (\<lambda>_. 0) ''10.0.0.1''"
  have "um_inv (tr_node_list ?t)" "map_of (tr_node_list ?t) ''10.0.0.2'' = None" "\<not> tr_terminated ?t" "not_found ?t = {}"
    "quiet ev (tr_last_refresh ?t)" "length (te_self_ip ev) < 40" "length ''10.0.0.2'' < 40"
    "\<forall>h. te_get ev 0 h \<noteq> [] \<longleftrightarrow> h = InfoHash_hex (te_self_ip ev)"
    by (simp_all add: tracker_start_def um_inv_def quiet_def ev_def ex_tracker_env_def timeout_defs not_found_def)
  from unpublished_node_found [OF this, of "''m''" "''d''"] show ?thesis unfolding Let_def ev_def [symmetric] by blast
qed

theorem live_node_forgotten_witness:
  "\<exists>t1 t2. tracker_run [(ex_tracker_env (60 * seconds), ex_beacon)]
       ((tracker_start (\<lambda>_. 0) ''10.0.0.1'')\<lparr>tr_node_list := [(''10.0.0.2'', True, Timeout_int minutes 0 10)]\<rparr>) = Inr t1 \<and>
     tracker_step (\<lambda>_ _. []) 0 (\<lambda>_. 601 * seconds) ''10.0.0.1'' ex_beacon t1 = Inr t2 \<and> map_of (tr_node_list t2) ''10.0.0.2'' = None"
proof -
  let ?t = "(tracker_start (\<lambda>_. 0) ''10.0.0.1'')\<lparr>tr_node_list := [(''10.0.0.2'', True, Timeout_int minutes 0 10)]\<rparr>"
  have "\<exists>t1. tracker_run [(ex_tracker_env (60 * seconds), ex_beacon)] ?t = Inr t1 \<and>
      tr_last_refresh t1 = Timeout_Reset (60 * seconds) (Timeout_int seconds 0 30)"
    by (simp add: tracker_eval timeout_defs)
  then obtain t1 where t1: "tracker_run [(ex_tracker_env (60 * seconds), ex_beacon)] ?t = Inr t1"
    "tr_last_refresh t1 = Timeout_Reset (60 * seconds) (Timeout_int seconds 0 30)" by blast
  obtain t2 where t2: "tracker_step (\<lambda>_ _. []) 0 (\<lambda>_. 601 * seconds) ''10.0.0.1'' ex_beacon t1 = Inr t2"
    by (simp add: tracker_step_def on_tracker_event_def)
  have "map_of (tr_node_list t1) ''10.0.0.2'' \<noteq> None \<and> map_of (tr_node_list t2) ''10.0.0.2'' = None"
    by (rule live_node_forgotten [where b = True and to = "Timeout_int minutes 0 10", OF _ _ t1(1) _ _ _ t2]) (simp_all add: um_inv_def t1(2) ex_tracker_env_def timeout_defs)
  with t1(1) t2 show ?thesis by blast
qed

end
