(* ===== verification/Discoveryd.thy ===== *)
theory Discoveryd
  imports Validator Dht_Tracker
begin

text \<open>
  The main program of the discovery daemon: \<^verbatim>\<open>src/discoveryd/r_discoveryd.cc\<close>, with the start of the
  thread \<^verbatim>\<open>riaps_actor\<close> (\<^verbatim>\<open>src/discoveryd/r_riaps_actor.cc\<close>).  It listens to the beacons of other nodes
  and to commands, keeps the addresses it heard and tells the thread to join new nodes.  The record
  \<open>daemon\<close> holds the local variables of \<^verbatim>\<open>main\<close> with the validator; the joins sent to the thread, the
  addresses passed to the tracker and the lines printed are logged.  Lemmas: which beacons make a node
  join, how often, and what the validator guarantees about them.
\<close>

section \<open>State and start\<close>

record daemon =
  dm_has_security :: bool
  dm_address :: string
  dm_validator :: validator
  dm_ipcache :: "(string, timeout) omap"
  dm_externalipcache :: "(string, int) omap"
  dm_joins :: "string list"
  dm_tracked :: "string list"
  dm_printed :: "string list"

datatype daemon_error = Daemon_exit int | Assert_iface | Network_error net_error | Null_payload | Bad_port stoi_error | Null_command

abbreviation CMD_DISCO_JOIN :: string where "CMD_DISCO_JOIN \<equiv> ''JOIN''"
abbreviation IPCACHE_TIMEOUT :: int where "IPCACHE_TIMEOUT \<equiv> 30000"

text \<open>The payload of an unsigned beacon, six bytes.\<close>

definition announcement :: string where
  "announcement = map char_of [226, 149, 169, 226, 150, 160 :: nat]"

text \<open>\<^verbatim>\<open>riaps_actor\<close> reports whether the two nodes of the hash table could be started, with the
  exception of OpenDHT caught; \<^verbatim>\<open>GetIPAddress\<close> and \<^verbatim>\<open>GetMacAddressStripped\<close> come first and are not.\<close>

definition riaps_actor_start :: "host_env \<Rightarrow> bool \<Rightarrow> net_error + bool" where
  "riaps_actor_start h dht_runs =
     (case GetMacAddressStripped h [] of
        Inl e \<Rightarrow> Inl e
      | Inr mac \<Rightarrow> (case GetIPAddress h [] of Inl e \<Rightarrow> Inl e | Inr host \<Rightarrow> Inr dht_runs))"

definition own_address :: "host_env \<Rightarrow> daemon_error + string" where
  "own_address h =
     (if GetConfiguredIface h \<noteq> []
      then (case GetIPAddress h (GetConfiguredIface h) of Inl e \<Rightarrow> Inl (Network_error e) | Inr a \<Rightarrow> Inr a)
      else case GetFirstGlobalIface h of
             Inl e \<Rightarrow> Inl (Network_error e)
           | Inr (iface, a) \<Rightarrow> if iface = [] then Inl Assert_iface else Inr a)"

text \<open>Everything before the loop: \<open>key\<close> is the private key when it can be read, \<open>endpoint\<close> the endpoint
  of the validator, \<open>listener\<close> and \<open>speaker\<close> the host names the two beacons report.\<close>

definition daemon_start ::
  "host_env \<Rightarrow> bool \<Rightarrow> bool \<Rightarrow> crypto option \<Rightarrow> clock \<Rightarrow> string \<Rightarrow> string \<Rightarrow> string \<Rightarrow> daemon_error + (daemon \<times> string)" where
  "daemon_start h security dht_runs key clk endpoint listener speaker =
     (case own_address h of
        Inl e \<Rightarrow> Inl e
      | Inr address \<Rightarrow>
          (case riaps_actor_start h dht_runs of
             Inl e \<Rightarrow> Inl (Network_error e)
           | Inr False \<Rightarrow> Inl (Daemon_exit (-1))
           | Inr True \<Rightarrow>
               if security \<and> key = None then Inl (Daemon_exit (-1))
               else let v = DiscoveryValidator_new (clk 0) security;
                        (ok, v1) = (if security then InitWithSecurity (the key) (clk 1) security endpoint v
                                    else (InitNoSecurity security, v))
                    in if \<not> ok then Inl (Daemon_exit (-1))
                       else if listener = [] \<or> speaker = [] then Inl (Daemon_exit (-1))
                       else Inr (\<lparr>dm_has_security = security, dm_address = address, dm_validator = v1, dm_ipcache = [],
                                  dm_externalipcache = [], dm_joins = [], dm_tracked = [], dm_printed = []\<rparr>,
                                 if security then v_validator_address v1 else announcement)))"

section \<open>The loop\<close>

definition print_cacheips :: "(string, timeout) omap \<Rightarrow> string \<Rightarrow> string" where
  "print_cacheips ipcache selfAddress =
     ''Known nodes: '' @ (if selfAddress \<noteq> [] then ''*'' @ selfAddress @ ''*;'' else []) @
     concat (map (\<lambda>p. fst p @ '';'') ipcache)"

text \<open>The answers of the environment in an iteration: what the validator receives, the readings of the
  clocks and the random period of a new node.\<close>

record daemon_env =
  dn_reply :: validator_event
  dn_vclk :: clock
  dn_period :: int
  dn_now :: int
  dn_clk :: clock
  dn_mono :: int

datatype daemon_event = DaemonIdle | DaemonControl "zmsg option" | DaemonBeacon "string option" "string option"

definition join_node :: "string \<Rightarrow> daemon \<Rightarrow> daemon" where
  "join_node host d = d\<lparr>dm_joins := dm_joins d @ [host]\<rparr>"

definition on_control :: "int \<Rightarrow> zmsg option \<Rightarrow> daemon \<Rightarrow> daemon_error + daemon" where
  "on_control time msg d =
     (case msg of
        None \<Rightarrow> Inr d
      | Some (header # command # rest) \<Rightarrow>
          Inr (if command = CMD_DISCO_JOIN
               then (case rest of
                       [] \<Rightarrow> d
                     | newhost # _ \<Rightarrow>
                         if map_of (dm_externalipcache d) newhost = None
                         then join_node newhost (d\<lparr>dm_externalipcache := om_put newhost time (dm_externalipcache d)\<rparr>)
                         else d)
               else d)
      | Some _ \<Rightarrow> Inl Null_command)"

text \<open>A node that passed: the address is stored with a fresh timeout, old ones go.\<close>

definition on_node :: "int \<Rightarrow> clock \<Rightarrow> string \<Rightarrow> daemon \<Rightarrow> daemon" where
  "on_node now clk ipaddress d =
     (if ipaddress \<noteq> dm_address d
      then let is_newitem = (map_of (dm_ipcache d) ipaddress = None);
               (is_maintained, cache) =
                 maintain_cache clk (om_put ipaddress (Timeout_dur now (milliseconds * IPCACHE_TIMEOUT)) (dm_ipcache d));
               d1 = d\<lparr>dm_ipcache := cache\<rparr>;
               d2 = (if is_newitem \<or> is_maintained
                     then d1\<lparr>dm_printed := dm_printed d1 @ [print_cacheips cache (dm_address d)]\<rparr> else d1)
           in if is_newitem then join_node ipaddress d2 else d2
      else d)"

text \<open>The address of every beacon goes to the tracker.  Without security the payload is compared with a
  string, which dereferences it; with security it only has to be there.\<close>

definition on_beacon :: "daemon_env \<Rightarrow> string option \<Rightarrow> string option \<Rightarrow> daemon \<Rightarrow> daemon_error + daemon" where
  "on_beacon ev ipaddress b_payload d =
     (case ipaddress of
        None \<Rightarrow> Inr d
      | Some ip \<Rightarrow>
          (let d1 = d\<lparr>dm_tracked := dm_tracked d @ [ip]\<rparr>
           in case b_payload of
                None \<Rightarrow> if dm_has_security d then Inr d1 else Inl Null_payload
              | Some payload \<Rightarrow>
                  if dm_has_security d \<or> payload = announcement
                  then (case IsValid (dn_vclk ev) (dn_period ev) payload (dm_validator d) of
                          Inl e \<Rightarrow> Inl (Bad_port e)
                        | Inr (valid, v) \<Rightarrow>
                            Inr (if valid then on_node (dn_now ev) (dn_clk ev) ip (d1\<lparr>dm_validator := v\<rparr>)
                                 else d1\<lparr>dm_validator := v\<rparr>))
                  else Inr d1))"

definition on_idle :: "clock \<Rightarrow> daemon \<Rightarrow> daemon" where
  "on_idle clk d =
     (let (is_maintained, cache) = maintain_cache clk (dm_ipcache d);
          d1 = d\<lparr>dm_ipcache := cache\<rparr>
      in if is_maintained then d1\<lparr>dm_printed := dm_printed d1 @ [print_cacheips cache (dm_address d)]\<rparr> else d1)"

definition daemon_step :: "crypto \<Rightarrow> daemon_env \<Rightarrow> daemon_event \<Rightarrow> daemon \<Rightarrow> daemon_error + daemon" where
  "daemon_step ck ev e d =
     (case ReplyAll ck (dn_reply ev) (dm_validator d) of
        Inl _ \<Rightarrow> Inl Null_command
      | Inr v \<Rightarrow>
          (let d = d\<lparr>dm_validator := v\<rparr>
           in case e of
                DaemonControl msg \<Rightarrow> on_control (dn_mono ev) msg d
              | DaemonBeacon ip payload \<Rightarrow> on_beacon ev ip payload d
              | DaemonIdle \<Rightarrow> Inr (on_idle (dn_clk ev) d)))"

definition daemon_run :: "crypto \<Rightarrow> (daemon_env \<times> daemon_event) list \<Rightarrow> daemon \<Rightarrow> daemon_error + daemon" where
  "daemon_run ck es d = loop (\<lambda>_. False) (\<lambda>x. daemon_step ck (fst x) (snd x)) es d"

lemma daemon_run_simps [simp]:
  "daemon_run ck [] d = Inr d"
  "daemon_run ck ((ev, e) # es) d =
     (case daemon_step ck ev e d of Inl err \<Rightarrow> Inl err | Inr d' \<Rightarrow> daemon_run ck es d')"
  by (auto simp: daemon_run_def split: sum.split)

section \<open>The caches\<close>

definition daemon_ok :: "daemon \<Rightarrow> bool" where
  "daemon_ok d \<longleftrightarrow> om_inv (dm_ipcache d) \<and> om_inv (dm_externalipcache d) \<and> om_inv (v_cluster_nodes (dm_validator d)) \<and>
     map_of (dm_ipcache d) (dm_address d) = None \<and> v_has_security (dm_validator d) = dm_has_security d"

lemma maintain_cache_ok:
  assumes "om_inv m"
  shows "om_inv (snd (maintain_cache clk m))" "map_of m a = None \<Longrightarrow> map_of (snd (maintain_cache clk m)) a = None"
proof -
  show "om_inv (snd (maintain_cache clk m))" using assms by (simp add: maintain_cache_purge purge_om_inv)
  show "map_of m a = None \<Longrightarrow> map_of (snd (maintain_cache clk m)) a = None"
    using assms purge_keys [of IsTimeout clk 0 m] by (auto simp: maintain_cache_purge map_of_eq_None_iff)
qed

lemma ReplyAll_ok:
  "ReplyAll ck r v = Inr v' \<Longrightarrow> om_inv (v_cluster_nodes v) \<Longrightarrow>
     om_inv (v_cluster_nodes v') \<and> v_has_security v' = v_has_security v"
  by (auto simp: ReplyAll_def om.inv_put split: if_splits validator_event.splits option.splits list.splits)

lemma on_node_ok: "daemon_ok d \<Longrightarrow> daemon_ok (on_node now clk ip d)"
  using maintain_cache_ok [OF om_inv_put, of "dm_ipcache d"]
  by (auto simp: on_node_def daemon_ok_def join_node_def Let_def case_prod_unfold om_get_put)

lemma on_idle_ok: "daemon_ok d \<Longrightarrow> daemon_ok (on_idle clk d)"
  using maintain_cache_ok [of "dm_ipcache d"] by (simp add: on_idle_def daemon_ok_def Let_def case_prod_unfold)

lemma daemon_step_ok: "daemon_step ck ev e d = Inr d' \<Longrightarrow> daemon_ok d \<Longrightarrow> daemon_ok d'"
proof -
  assume s: "daemon_step ck ev e d = Inr d'" and ok: "daemon_ok d"
  obtain v where v: "ReplyAll ck (dn_reply ev) (dm_validator d) = Inr v" using s by (auto simp: daemon_step_def split: sum.splits)
  define d0 where "d0 = d\<lparr>dm_validator := v\<rparr>"
  have d0: "daemon_ok d0" using ReplyAll_ok [OF v] ok by (simp add: daemon_ok_def d0_def)
  show ?thesis
  proof (cases e)
    case DaemonIdle
    then show ?thesis using s v d0 by (auto simp: daemon_step_def d0_def [symmetric] on_idle_ok)
  next
    case (DaemonControl msg)
    then show ?thesis
      using s v d0 by (auto simp: daemon_step_def d0_def [symmetric] on_control_def join_node_def daemon_ok_def om_inv_put
          split: option.splits list.splits if_splits)
  next
    case (DaemonBeacon ip payload)
    have node: "daemon_ok (x\<lparr>dm_validator := w\<rparr>)" if "IsValid clk p a (dm_validator d0) = Inr (b, w)"
      "x = d0\<lparr>dm_tracked := t\<rparr>" for clk p a b w x t
      using IsValid_keeps [OF that(1)] d0 that(2) by (simp add: daemon_ok_def)
    show ?thesis
      using s v d0 DaemonBeacon
      by (auto simp: daemon_step_def d0_def [symmetric] on_beacon_def Let_def on_node_ok node
          split: option.splits if_splits sum.splits) (simp_all add: daemon_ok_def)
  qed
qed

section \<open>Joining\<close>

text \<open>The node a beacon is accepted for, when it is.\<close>

definition accepted :: "crypto \<Rightarrow> daemon_env \<Rightarrow> daemon_event \<Rightarrow> daemon \<Rightarrow> string option" where
  "accepted ck ev e d =
     (case (e, ReplyAll ck (dn_reply ev) (dm_validator d)) of
        (DaemonBeacon (Some ip) (Some payload), Inr v) \<Rightarrow>
          (case IsValid (dn_vclk ev) (dn_period ev) payload v of
             Inr (True, _) \<Rightarrow> if (dm_has_security d \<or> payload = announcement) \<and> ip \<noteq> dm_address d then Some ip else None
           | _ \<Rightarrow> None)
      | _ \<Rightarrow> None)"

definition commanded :: "daemon_event \<Rightarrow> string option" where
  "commanded e = (case e of DaemonControl (Some (_ # command # host # _)) \<Rightarrow> if command = CMD_DISCO_JOIN then Some host else None | _ \<Rightarrow> None)"

lemma on_node_cache:
  assumes "om_inv (dm_ipcache d)" "ip \<noteq> dm_address d"
  shows "dm_ipcache (on_node now clk ip d) = purge IsTimeout clk 0 (om_put ip (Timeout_dur now (milliseconds * IPCACHE_TIMEOUT)) (dm_ipcache d))"
    "dm_joins (on_node now clk ip d) = dm_joins d @ (if map_of (dm_ipcache d) ip = None then [ip] else [])"
  using assms by (simp_all add: on_node_def join_node_def Let_def maintain_cache_purge om_inv_put)

lemma step_accepted:
  assumes "daemon_step ck ev e d = Inr d'" "accepted ck ev e d = Some ip" "daemon_ok d"
  shows "dm_ipcache d' = purge IsTimeout (dn_clk ev) 0 (om_put ip (Timeout_dur (dn_now ev) (milliseconds * IPCACHE_TIMEOUT)) (dm_ipcache d))"
    "dm_joins d' = dm_joins d @ (if map_of (dm_ipcache d) ip = None then [ip] else [])"
  using assms on_node_cache
  by (auto simp: accepted_def daemon_step_def on_beacon_def daemon_ok_def Let_def
      split: daemon_event.splits option.splits sum.splits if_splits bool.splits)

lemma step_rejected:
  assumes "daemon_step ck ev e d = Inr d'" "accepted ck ev e d = None" "daemon_ok d"
  shows "dm_ipcache d' \<in> {dm_ipcache d, purge IsTimeout (dn_clk ev) 0 (dm_ipcache d)}"
    "dm_joins d' = dm_joins d @
       (case commanded e of None \<Rightarrow> [] | Some h \<Rightarrow> if map_of (dm_externalipcache d) h = None then [h] else [])"
proof -
  obtain v where v: "ReplyAll ck (dn_reply ev) (dm_validator d) = Inr v" using assms(1) by (auto simp: daemon_step_def split: sum.splits)
  have idle: "dm_ipcache (on_idle clk (d\<lparr>dm_validator := v\<rparr>)) = purge IsTimeout clk 0 (dm_ipcache d)"
    "dm_joins (on_idle clk (d\<lparr>dm_validator := v\<rparr>)) = dm_joins d" for clk
    using assms(3) by (simp_all add: on_idle_def daemon_ok_def maintain_cache_purge Let_def)
  have "dm_ipcache d' \<in> {dm_ipcache d, purge IsTimeout (dn_clk ev) 0 (dm_ipcache d)} \<and> dm_joins d' = dm_joins d @
       (case commanded e of None \<Rightarrow> [] | Some h \<Rightarrow> if map_of (dm_externalipcache d) h = None then [h] else [])"
  proof (cases e)
    case DaemonIdle
    then show ?thesis using assms(1) v idle by (auto simp: daemon_step_def commanded_def)
  next
    case (DaemonControl msg)
    then show ?thesis using assms(1) v
      by (auto simp: daemon_step_def on_control_def join_node_def commanded_def Let_def split: option.splits list.splits if_splits)
  next
    case (DaemonBeacon ip payload)
    then show ?thesis using assms(1,2) v
      by (auto simp: daemon_step_def on_beacon_def accepted_def on_node_def commanded_def Let_def
          split: option.splits sum.splits if_splits bool.splits)
  qed
  then show "dm_ipcache d' \<in> {dm_ipcache d, purge IsTimeout (dn_clk ev) 0 (dm_ipcache d)}"
    "dm_joins d' = dm_joins d @
       (case commanded e of None \<Rightarrow> [] | Some h \<Rightarrow> if map_of (dm_externalipcache d) h = None then [h] else [])" by auto
qed

text \<open>Whenever the cache is looked at, the node was heard within the last thirty seconds.\<close>

fun heard :: "crypto \<Rightarrow> string \<Rightarrow> timeout \<Rightarrow> (daemon_env \<times> daemon_event) list \<Rightarrow> daemon \<Rightarrow> bool" where
  "heard ck ip t [] d \<longleftrightarrow> True"
| "heard ck ip t ((ev, e) # es) d \<longleftrightarrow>
     (let t' = (if accepted ck ev e d = Some ip then Timeout_dur (dn_now ev) (milliseconds * IPCACHE_TIMEOUT) else t)
      in commanded e \<noteq> Some ip \<and> (\<forall>i. dn_clk ev i \<le> m_endPoint t') \<and>
         (case daemon_step ck ev e d of Inl _ \<Rightarrow> True | Inr d' \<Rightarrow> heard ck ip t' es d'))"

lemma purge_keeps_om:
  assumes "om_inv m" "map_of m a = Some t" "\<forall>i. clk i \<le> m_endPoint t"
  shows "map_of (purge IsTimeout clk k m) a = Some t"
proof -
  have "(a, t) \<in> set (purge IsTimeout clk k m)"
    by (rule purge_keeps [OF map_of_SomeD [OF assms(2)]]) (simp add: IsTimeout_def assms(3) linorder_not_less)
  then show ?thesis using om.item_get [OF purge_om_inv [OF assms(1)]] by blast
qed

lemma heard_step:
  assumes "daemon_step ck ev e d = Inr d'" "daemon_ok d" "map_of (dm_ipcache d) ip = Some t" "commanded e \<noteq> Some ip"
    and "t' = (if accepted ck ev e d = Some ip then Timeout_dur (dn_now ev) (milliseconds * IPCACHE_TIMEOUT) else t)"
    and "\<forall>i. dn_clk ev i \<le> m_endPoint t'"
  shows "map_of (dm_ipcache d') ip = Some t' \<and> count_list (dm_joins d') ip = count_list (dm_joins d) ip"
proof (cases "accepted ck ev e d")
  case None
  then show ?thesis
    using step_rejected [OF assms(1) None assms(2)] assms(2-6) purge_keeps_om [of "dm_ipcache d" ip t "dn_clk ev" 0]
    by (auto simp: daemon_ok_def split: option.splits if_splits)
next
  case (Some ip')
  let ?m = "om_put ip' (Timeout_dur (dn_now ev) (milliseconds * IPCACHE_TIMEOUT)) (dm_ipcache d)"
  have m: "om_inv ?m" "map_of ?m ip = Some t'"
    using assms(2,3,5) Some by (auto simp: daemon_ok_def om_inv_put om_get_put)
  show ?thesis
    using step_accepted [OF assms(1) Some assms(2)] purge_keeps_om [OF m assms(6), of 0] assms(3) by auto
qed

lemma heard_run:
  "daemon_run ck es d = Inr d' \<Longrightarrow> daemon_ok d \<Longrightarrow> map_of (dm_ipcache d) ip = Some t \<Longrightarrow> heard ck ip t es d \<Longrightarrow>
     map_of (dm_ipcache d') ip \<noteq> None \<and> count_list (dm_joins d') ip = count_list (dm_joins d) ip"
proof (induction es arbitrary: d t)
  case (Cons x es)
  obtain ev e where x: "x = (ev, e)" by (cases x)
  obtain d1 where d1: "daemon_step ck ev e d = Inr d1" "daemon_run ck es d1 = Inr d'"
    using Cons.prems(1) by (auto simp: x split: sum.splits)
  show ?case
    using heard_step [OF d1(1) Cons.prems(2,3) _ refl] Cons.prems(4) Cons.IH [OF d1(2) daemon_step_ok [OF d1(1) Cons.prems(2)]] d1(1)
    by (auto simp: x Let_def)
qed simp

text \<open>C7: a node is joined exactly once while it is heard.  The first accepted beacon of an unknown node sends
  one command to join it; from then on, whatever else the daemon receives, no further command is sent for
  it and the node stays known, as long as an accepted beacon of it arrived in the thirty seconds
  before every look at the cache.\<close>

theorem live_node_joined_once:
  assumes "daemon_ok d" "daemon_step ck ev e d = Inr d1" "accepted ck ev e d = Some ip" "map_of (dm_ipcache d) ip = None"
    and "\<forall>i. dn_clk ev i \<le> dn_now ev + milliseconds * IPCACHE_TIMEOUT"
    and "daemon_run ck es d1 = Inr d2" "heard ck ip (Timeout_dur (dn_now ev) (milliseconds * IPCACHE_TIMEOUT)) es d1"
  shows "count_list (dm_joins d2) ip = Suc (count_list (dm_joins d) ip) \<and> map_of (dm_ipcache d2) ip \<noteq> None"
proof -
  let ?t = "Timeout_dur (dn_now ev) (milliseconds * IPCACHE_TIMEOUT)"
  note a = step_accepted [OF assms(2,3,1)]
  have "map_of (dm_ipcache d1) ip = Some ?t"
    unfolding a(1) using assms(1,5) by (intro purge_keeps_om) (auto simp: daemon_ok_def om_inv_put om_get_put timeout_defs)
  from heard_run [OF assms(6) daemon_step_ok [OF assms(2,1)] this assms(7)] show ?thesis
    using a(2) assms(4) by simp
qed

section \<open>Security\<close>

definition answers_of :: "validator_event \<Rightarrow> (string \<times> blob) list" where
  "answers_of r = (case r of IdentifyReply (Some (ip # rest)) \<Rightarrow> [(ip, signature_of rest)] | _ \<Rightarrow> [])"

lemma reply_reach:
  assumes "validator_reach ck v0 rs v" "ReplyAll ck r v = Inr v'"
  shows "validator_reach ck v0 (rs @ answers_of r) v'"
proof (cases r)
  case NoReply
  then show ?thesis using assms by (auto simp: ReplyAll_def answers_of_def split: if_splits)
next
  case (IdentifyRequest m)
  then show ?thesis using validator_reach.request [OF assms(1)] assms(2) by (simp add: answers_of_def)
next
  case (IdentifyReply a)
  show ?thesis
  proof (cases a)
    case None
    then show ?thesis using assms IdentifyReply by (auto simp: ReplyAll_def answers_of_def split: if_splits)
  next
    case (Some x)
    then show ?thesis using validator_reach.answer [OF assms(1)] assms IdentifyReply
      by (cases x) (auto simp: answers_of_def ReplyAll_def split: if_splits)
  qed
qed

lemma step_reach:
  assumes "validator_reach ck v0 rs (dm_validator d)" "daemon_step ck ev e d = Inr d'"
  shows "validator_reach ck v0 (rs @ answers_of (dn_reply ev)) (dm_validator d')"
proof -
  obtain v where v: "ReplyAll ck (dn_reply ev) (dm_validator d) = Inr v" using assms(2) by (auto simp: daemon_step_def split: sum.splits)
  note r = reply_reach [OF assms(1) v]
  have "dm_validator (on_node n c i x) = dm_validator x" "dm_validator (on_idle c x) = dm_validator x" for n c i x
    by (simp_all add: on_node_def on_idle_def join_node_def Let_def case_prod_unfold)
  then have "dm_validator d' = v \<or> (\<exists>clk p a b. IsValid clk p a v = Inr (b, dm_validator d'))"
    using assms(2) v
    by (auto simp: daemon_step_def on_control_def join_node_def on_beacon_def Let_def
        split: daemon_event.splits option.splits list.splits if_splits sum.splits)
  then show ?thesis using r validator_reach.ask [OF r] by auto
qed

lemma run_reach:
  "validator_reach ck v0 rs (dm_validator d) \<Longrightarrow> daemon_run ck es d = Inr d' \<Longrightarrow>
     validator_reach ck v0 (rs @ concat (map (\<lambda>x. answers_of (dn_reply (fst x))) es)) (dm_validator d')"
proof (induction es arbitrary: d rs)
  case (Cons x es)
  obtain ev e where x: "x = (ev, e)" by (cases x)
  obtain d1 where d1: "daemon_step ck ev e d = Inr d1" "daemon_run ck es d1 = Inr d'"
    using Cons.prems(2) by (auto simp: x split: sum.splits)
  show ?case using Cons.IH [OF step_reach [OF Cons.prems(1) d1(1)] d1(2)] by (simp add: x)
qed simp

lemma start_secure:
  "daemon_start h True dht_runs (Some ck) clk endpoint l sp = Inr (d, pl) \<Longrightarrow>
     dm_has_security d \<and> v_has_security (dm_validator d) \<and> v_cluster_nodes (dm_validator d) = [] \<and> daemon_ok d"
  by (auto simp: daemon_start_def Let_def InitWithSecurity_def DiscoveryValidator_new_def daemon_ok_def om_inv_def
      split: sum.splits if_splits bool.splits)

lemma step_security:
  assumes "daemon_step ck ev e d = Inr d'"
  shows "dm_has_security d' = dm_has_security d"
proof -
  have "dm_has_security (on_node n c i x) = dm_has_security x" "dm_has_security (on_idle c x) = dm_has_security x" for n c i x
    by (simp_all add: on_node_def on_idle_def join_node_def Let_def case_prod_unfold)
  then show ?thesis
    using assms by (auto simp: daemon_step_def on_control_def join_node_def on_beacon_def Let_def
        split: daemon_event.splits option.splits list.splits if_splits sum.splits)
qed

text \<open>The loop of the daemon keeps its table of addresses ordered and its security setting.\<close>

interpretation main_loop: event_loop "\<lambda>_. False" "\<lambda>x. daemon_step ck (fst x) (snd x)"
  "\<lambda>d. daemon_ok d \<and> dm_has_security d = sec" for ck sec
  by unfold_locales (auto simp: step_security intro: daemon_step_ok)

lemma run_ok: "daemon_run ck es d = Inr d' \<Longrightarrow> daemon_ok d \<Longrightarrow> daemon_ok d' \<and> dm_has_security d' = dm_has_security d"
  using main_loop.loop_inv [of d "dm_has_security d" ck es d'] by (simp add: daemon_run_def)

text \<open>C5: with security on, a beacon makes a node join only after its address was signed.  In every run of
  the daemon from its start, if a beacon causes a command to join, then an answer was received that
  carries the address in the beacon and a signature of it that checks.\<close>

theorem joined_only_when_signed:
  assumes "daemon_start h True dht_runs (Some ck) clk endpoint l sp = Inr (d0, pl)" "daemon_run ck es d0 = Inr d"
    and "daemon_step ck ev (DaemonBeacon (Some ip) (Some payload)) d = Inr d'" "dm_joins d' \<noteq> dm_joins d"
  shows "\<exists>s. (payload, s) \<in> set (concat (map (\<lambda>x. answers_of (dn_reply (fst x))) es) @ answers_of (dn_reply ev)) \<and>
    ck_checkSignature ck payload s"
proof -
  note st = start_secure [OF assms(1)]
  have ok: "daemon_ok d" "dm_has_security d" using run_ok [OF assms(2)] st by auto
  have acc: "accepted ck ev (DaemonBeacon (Some ip) (Some payload)) d = Some ip"
  proof (cases "accepted ck ev (DaemonBeacon (Some ip) (Some payload)) d")
    case None
    then show ?thesis using step_rejected(2) [OF assms(3) None ok(1)] assms(4) by (simp add: commanded_def)
  qed (auto simp: accepted_def split: sum.splits bool.splits if_splits)
  obtain v v' where v: "ReplyAll ck (dn_reply ev) (dm_validator d) = Inr v"
    "IsValid (dn_vclk ev) (dn_period ev) payload v = Inr (True, v')"
    using acc by (auto simp: accepted_def split: sum.splits bool.splits if_splits)
  define rs where "rs = concat (map (\<lambda>x. answers_of (dn_reply (fst x))) es) @ answers_of (dn_reply ev)"
  have "validator_reach ck (dm_validator d0) rs v"
    using reply_reach [OF run_reach [OF validator_reach.start assms(2)] v(1)] by (simp add: rs_def)
  then have inv: "om_inv (v_cluster_nodes v) \<and> v_has_security v \<and>
      (\<forall>a. validated v a \<longrightarrow> (\<exists>s. (a, s) \<in> set rs \<and> ck_checkSignature ck a s))"
    using reach_validated st by blast
  then have "validated v payload" using IsValid_keeps [OF v(2)] by blast
  then show ?thesis using inv unfolding rs_def by blast
qed

text \<open>the sender of a beacon is not compared with the address in it.  The validator vouches for the address
  in the payload, and the node that joins is the one the packet came from: when a beacon is accepted,
  the same payload sent from any other unknown address makes that address join.\<close>

theorem beacon_sender_not_checked:
  assumes "daemon_ok d" "accepted ck ev (DaemonBeacon (Some ip) (Some payload)) d = Some ip"
    and "ip' \<noteq> dm_address d" "map_of (dm_ipcache d) ip' = None"
  shows "\<exists>d'. daemon_step ck ev (DaemonBeacon (Some ip') (Some payload)) d = Inr d' \<and> dm_joins d' = dm_joins d @ [ip']"
proof -
  have acc: "accepted ck ev (DaemonBeacon (Some ip') (Some payload)) d = Some ip'"
    using assms(2,3) by (auto simp: accepted_def split: sum.splits bool.splits if_splits)
  then obtain d' where d': "daemon_step ck ev (DaemonBeacon (Some ip') (Some payload)) d = Inr d'"
    by (auto simp: accepted_def daemon_step_def on_beacon_def Let_def split: sum.splits bool.splits if_splits)
  show ?thesis using d' step_accepted(2) [OF d' acc assms(1)] assms(4) by simp
qed

section \<open>Witnesses\<close>

definition ex_net :: host_env where
  "ex_net = \<lparr>riaps_conf = None, iflist = [(''eth0'', ''10.0.0.1'')], sys_class_net = (\<lambda>_. None)\<rparr>"

definition ex_daemon_env :: "validator_event \<Rightarrow> int \<Rightarrow> daemon_env" where
  "ex_daemon_env r now = \<lparr>dn_reply = r, dn_vclk = (\<lambda>_. now), dn_period = 50, dn_now = now, dn_clk = (\<lambda>_. now), dn_mono = now\<rparr>"

definition ex_daemon :: "bool \<Rightarrow> daemon" where
  "ex_daemon security = \<lparr>dm_has_security = security, dm_address = ''10.0.0.1'',
     dm_validator = (if security then ex_validator else DiscoveryValidator_new 0 False), dm_ipcache = [],
     dm_externalipcache = [], dm_joins = [], dm_tracked = [], dm_printed = []\<rparr>"

abbreviation ex_packet :: "string \<Rightarrow> daemon_event" where
  "ex_packet payload \<equiv> DaemonBeacon (Some ''10.0.0.2'') (Some payload)"

lemma ex_daemon_start:
  "daemon_start ex_net True True (Some ex_keys) (\<lambda>_. 0) ''tcp://10.0.0.1:7000'' ''h'' ''h'' = Inr (ex_daemon True, ''tcp://10.0.0.1:7000'')"
  by (simp add: daemon_start_def own_address_def riaps_actor_start_def ex_net_def GetConfiguredIface_def GetFirstGlobalIface_def
      GetMacAddressStripped_def GetMacAddress_def GetIPAddress_def CheckIfaceName_def ex_daemon_def ex_validator_def
      InitWithSecurity_def DiscoveryValidator_new_def Let_def)

lemma ex_open:
  "daemon_ok (ex_daemon False)" "accepted ck (ex_daemon_env NoReply now) (ex_packet announcement) (ex_daemon False) = Some ''10.0.0.2''"
  by (simp_all add: daemon_ok_def ex_daemon_def om_inv_def DiscoveryValidator_new_def accepted_def ReplyAll_def IsValid_def)

lemmas daemon_eval = daemon_step_def on_beacon_def on_node_def on_idle_def join_node_def accepted_def commanded_def maintain_cache_def
  ReplyAll_def IsValid_def ex_daemon_env_def ex_daemon_def DiscoveryValidator_new_def timeout_defs Let_def

theorem live_node_joined_once_witness:
  "\<exists>d1 d2. daemon_step ex_keys (ex_daemon_env NoReply 1) (ex_packet announcement) (ex_daemon False) = Inr d1 \<and>
     daemon_run ex_keys [(ex_daemon_env NoReply (seconds * 20), ex_packet announcement), (ex_daemon_env NoReply (seconds * 45), DaemonIdle)] d1 = Inr d2 \<and>
     count_list (dm_joins d2) ''10.0.0.2'' = 1"
proof -
  let ?es = "[(ex_daemon_env NoReply (seconds * 20), ex_packet announcement), (ex_daemon_env NoReply (seconds * 45), DaemonIdle)]"
  define d1 where "d1 = (ex_daemon False)\<lparr>dm_ipcache := [(''10.0.0.2'', Timeout_dur 1 (milliseconds * IPCACHE_TIMEOUT))],
     dm_joins := [''10.0.0.2''], dm_tracked := [''10.0.0.2''], dm_printed := [''Known nodes: *10.0.0.1*;10.0.0.2;'']\<rparr>"
  have d1: "daemon_step ex_keys (ex_daemon_env NoReply 1) (ex_packet announcement) (ex_daemon False) = Inr d1"
    by (simp add: daemon_eval d1_def print_cacheips_def)
  obtain d2 where d2: "daemon_run ex_keys ?es d1 = Inr d2"
    by (simp add: daemon_eval d1_def)
  have h: "heard ex_keys ''10.0.0.2'' (Timeout_dur 1 (milliseconds * IPCACHE_TIMEOUT)) ?es d1"
    by (simp add: daemon_eval d1_def)
  have "count_list (dm_joins d2) ''10.0.0.2'' = Suc (count_list (dm_joins (ex_daemon False)) ''10.0.0.2'') \<and> map_of (dm_ipcache d2) ''10.0.0.2'' \<noteq> None"
    by (rule live_node_joined_once [OF ex_open(1) d1 ex_open(2) _ _ d2]) (use h in \<open>simp_all add: ex_daemon_def ex_daemon_env_def\<close>)
  then show ?thesis using d1 d2 by (auto simp: ex_daemon_def)
qed

theorem joined_only_when_signed_witness:
  "\<exists>d d' s. daemon_run ex_keys [(ex_daemon_env NoReply 1, ex_packet ex_addr)] (ex_daemon True) = Inr d \<and>
     daemon_step ex_keys (ex_daemon_env (IdentifyReply (Some [ex_addr, rev ex_addr])) 2) (ex_packet ex_addr) d = Inr d' \<and>
     dm_joins d' = [''10.0.0.2''] \<and> ck_checkSignature ex_keys ex_addr s"
proof -
  obtain v1 where v1: "IsValid (\<lambda>_. 1) 50 ex_addr ex_validator = Inr (False, v1)" "v_cluster_nodes v1 = [(ex_addr, ex_node)]"
    "v_has_security v1" "v_last_delete v1 = Timeout_Reset 1 (Timeout_int minutes 0 1)"
    using ex_ask by blast
  obtain v2 where v2: "ReplyAll ex_keys (IdentifyReply (Some [ex_addr, rev ex_addr])) v1 = Inr v2"
    "v_cluster_nodes v2 = [(ex_addr, ex_node\<lparr>ni_validated := True\<rparr>)]" "v_has_security v2" "v_last_delete v2 = v_last_delete v1"
    using v1 by (simp add: ReplyAll_def ex_keys_def)
  have "\<not> IsTimeout 2 (ni_check_period ex_node)" "\<not> IsTimeout 2 (v_last_delete v2)"
    by (simp_all add: ex_node_def v2 v1 IsTimeout_def Timeout_range_def timeout_defs)
  then obtain v3 where v3: "IsValid (\<lambda>_. 2) 50 ex_addr v2 = Inr (True, v3)"
    using ex_addr_ok v2 by (simp add: IsValid_def DeleteOldNodes_def IsUptodate_def Let_def)
  define d where "d = (ex_daemon True)\<lparr>dm_validator := v1, dm_tracked := [''10.0.0.2'']\<rparr>"
  have run: "daemon_run ex_keys [(ex_daemon_env NoReply 1, ex_packet ex_addr)] (ex_daemon True) = Inr d"
    using v1(1) by (simp add: daemon_step_def ReplyAll_def ex_daemon_env_def ex_daemon_def on_beacon_def d_def Let_def)
  have "\<exists>d'. daemon_step ex_keys (ex_daemon_env (IdentifyReply (Some [ex_addr, rev ex_addr])) 2) (ex_packet ex_addr) d = Inr d' \<and>
      dm_joins d' = [''10.0.0.2'']"
    using v2(1) v3 by (simp add: daemon_step_def ex_daemon_env_def ex_daemon_def on_beacon_def d_def on_node_def join_node_def maintain_cache_def Let_def)
  then obtain d' where d': "daemon_step ex_keys (ex_daemon_env (IdentifyReply (Some [ex_addr, rev ex_addr])) 2) (ex_packet ex_addr) d = Inr d'"
    "dm_joins d' = [''10.0.0.2'']" by blast
  have "dm_joins d' \<noteq> dm_joins d" using d'(2) by (simp add: d_def ex_daemon_def)
  from joined_only_when_signed [OF ex_daemon_start run d'(1) this] run d' show ?thesis by blast
qed

theorem beacon_sender_not_checked_witness:
  "\<exists>d'. daemon_step ex_keys (ex_daemon_env NoReply 1) (DaemonBeacon (Some ''10.9.9.9'') (Some announcement)) (ex_daemon False) = Inr d' \<and>
     dm_joins d' = [''10.9.9.9'']"
  using beacon_sender_not_checked [OF ex_open, of "''10.9.9.9''"] by (simp add: ex_daemon_def)

end
