(* ===== verification/Ini_Reader.thy ===== *)
theory Ini_Reader
  imports Riaps_Prelude
begin

text \<open>
  The reader of the configuration file: \<^verbatim>\<open>include/INIReader.h\<close>, with which \<^verbatim>\<open>rfw_security.cc\<close> reads
  \<^verbatim>\<open>riaps.conf\<close>.  A file is the list of its bytes, absent when it cannot be opened.  The parser reads it
  in pieces of at most 199 bytes; its local variables are the record \<open>ini\<close>, which also holds the object the
  handler works on.  The strings of the buffer are C strings: a pointer into the buffer is the string
  that starts there, and the comparison of two such pointers is one of their lengths.  Lemmas: a
  printed configuration is read back entry by entry, repeated names are joined, the first malformed line is the
  error, and the continuation of an entry goes to the first 49 bytes of its name.
\<close>

section \<open>Scanning a line\<close>

definition rstrip :: "string \<Rightarrow> string" where
  "rstrip s = rev (dropWhile is_space (rev s))"

definition lskip :: "string \<Rightarrow> string" where
  "lskip s = dropWhile is_space s"

text \<open>The string up to the position that is found, and the string from there on.  No characters to look for are the
  empty list.\<close>

fun scan_chars_or_comment :: "bool \<Rightarrow> char list \<Rightarrow> string \<Rightarrow> string \<times> string" where
  "scan_chars_or_comment was_space chars [] = ([], [])"
| "scan_chars_or_comment was_space chars (c # s) =
     (if c \<notin> set chars \<and> \<not> (was_space \<and> c = CHR '';'')
      then (let (a, b) = scan_chars_or_comment (is_space c) chars s in (c # a, b)) else ([], c # s))"

definition find_chars_or_comment :: "string \<Rightarrow> char list \<Rightarrow> string \<times> string" where
  "find_chars_or_comment s chars = scan_chars_or_comment False chars s"

definition strncpy0 :: "string \<Rightarrow> nat \<Rightarrow> string" where
  "strncpy0 src n = take (n - 1) src"

abbreviation INI_MAX_LINE :: nat where "INI_MAX_LINE \<equiv> 200"
abbreviation MAX_SECTION :: nat where "MAX_SECTION \<equiv> 50"
abbreviation MAX_NAME :: nat where "MAX_NAME \<equiv> 50"
abbreviation utf8_bom :: string where "utf8_bom \<equiv> [CHR 0xEF, CHR 0xBB, CHR 0xBF]"

section \<open>The parser\<close>

type_synonym 'u ini_handler = "string \<Rightarrow> string \<Rightarrow> string \<Rightarrow> 'u \<Rightarrow> bool \<times> 'u"

record 'u ini =
  in_section :: string
  in_prev_name :: string
  in_lineno :: nat
  in_error :: nat
  in_user :: 'u

definition ini_fail :: "'u ini \<Rightarrow> 'u ini" where
  "ini_fail st = (if in_error st = 0 then st\<lparr>in_error := in_lineno st\<rparr> else st)"

definition call_ini_handler :: "'u ini_handler \<Rightarrow> string \<Rightarrow> string \<Rightarrow> 'u ini \<Rightarrow> 'u ini" where
  "call_ini_handler handler name value st =
     (let (ok, u) = handler (in_section st) name value (in_user st);
          st = st\<lparr>in_user := u\<rparr>
      in if \<not> ok then ini_fail st else st)"

definition ini_section_line :: "string \<Rightarrow> 'u ini \<Rightarrow> 'u ini" where
  "ini_section_line start st =
     (let (name, rest) = find_chars_or_comment (tl start) '']''
      in if rest \<noteq> [] \<and> hd rest = CHR '']'' then st\<lparr>in_section := strncpy0 name MAX_SECTION, in_prev_name := []\<rparr>
         else ini_fail st)"

definition ini_pair_line :: "'u ini_handler \<Rightarrow> string \<Rightarrow> 'u ini \<Rightarrow> 'u ini" where
  "ini_pair_line handler start st =
     (let (before, rest) = find_chars_or_comment start ''=:''
      in if rest \<noteq> [] \<and> (hd rest = CHR ''='' \<or> hd rest = CHR '':'')
         then let name = rstrip before;
                  value = rstrip (fst (find_chars_or_comment (lskip (tl rest)) []))
              in call_ini_handler handler name value (st\<lparr>in_prev_name := strncpy0 name MAX_NAME\<rparr>)
         else ini_fail st)"

definition ini_line :: "'u ini_handler \<Rightarrow> string \<Rightarrow> 'u ini \<Rightarrow> 'u ini" where
  "ini_line handler buffer st =
     (let st = st\<lparr>in_lineno := in_lineno st + 1\<rparr>;
          line = c_str buffer;
          bom = (in_lineno st = 1 \<and> take 3 line = utf8_bom);
          stripped = rstrip (if bom then drop 3 line else line);
          start = lskip stripped;
          moved = (bom \<or> length start < length stripped)
      in if start \<noteq> [] \<and> (hd start = CHR '';'' \<or> hd start = CHR ''#'') then st
         else if in_prev_name st \<noteq> [] \<and> start \<noteq> [] \<and> moved
         then call_ini_handler handler (in_prev_name st) (rstrip (fst (find_chars_or_comment start []))) st
         else if start \<noteq> [] \<and> hd start = CHR ''['' then ini_section_line start st
         else if start \<noteq> [] then ini_pair_line handler start st
         else st)"

text \<open>\<^verbatim>\<open>fgets\<close>: up to the given number of bytes, up to and including the first newline; then the rest.\<close>

fun fgets :: "nat \<Rightarrow> string \<Rightarrow> string \<times> string" where
  "fgets 0 s = ([], s)"
| "fgets (Suc n) [] = ([], [])"
| "fgets (Suc n) (c # s) = (if c = newline then ([c], s) else (let (a, b) = fgets n s in (c # a, b)))"

lemma fgets_shorter: "length (snd (fgets n s)) \<le> length s"
  by (induction n s rule: fgets.induct) (auto simp: split_beta intro: le_SucI)

lemma fgets_progress: "s \<noteq> [] \<Longrightarrow> 0 < n \<Longrightarrow> length (snd (fgets n s)) < length s"
  using fgets_shorter by (cases "(n, s)" rule: fgets.cases) (auto simp: split_beta less_Suc_eq_le)

function ini_parse_stream :: "'u ini_handler \<Rightarrow> string \<Rightarrow> 'u ini \<Rightarrow> 'u ini" where
  "ini_parse_stream handler stream st =
     (if stream = [] then st
      else ini_parse_stream handler (snd (fgets (INI_MAX_LINE - 1) stream))
             (ini_line handler (fst (fgets (INI_MAX_LINE - 1) stream)) st))"
  by pat_completeness auto
termination
  by (relation "measure (\<lambda>(handler, stream, st). length stream)") (auto simp: fgets_progress)

declare ini_parse_stream.simps [simp del]

definition ini_start :: "'u \<Rightarrow> 'u ini" where
  "ini_start u = \<lparr>in_section = [], in_prev_name = [], in_lineno = 0, in_error = 0, in_user = u\<rparr>"

definition ini_parse :: "string option \<Rightarrow> 'u ini_handler \<Rightarrow> 'u \<Rightarrow> int \<times> 'u" where
  "ini_parse file handler u =
     (case file of
        None \<Rightarrow> (- 1, u)
      | Some stream \<Rightarrow> (let st = ini_parse_stream handler stream (ini_start u) in (int (in_error st), in_user st)))"

section \<open>The reader\<close>

record INIReader =
  ir_error :: int
  ir_values :: "(string, string) omap"
  ir_sections :: "(string, unit) omap"

definition to_lower :: "char \<Rightarrow> char" where
  "to_lower c = (let n = (of_char c :: nat) in if 65 \<le> n \<and> n \<le> 90 then char_of (n + 32) else c)"

definition MakeKey :: "string \<Rightarrow> string \<Rightarrow> string" where
  "MakeKey section name = map to_lower (section @ ''='' @ name)"

definition ValueHandler :: "(((string, string) omap) \<times> ((string, unit) omap)) ini_handler" where
  "ValueHandler section name value user =
     (let key = MakeKey section name;
          old = (case map_of (fst user) key of Some v \<Rightarrow> v | None \<Rightarrow> []);
          new = (if 0 < length old then old @ [newline] else old) @ value
      in (True, (om_put key new (fst user), om_put section () (snd user))))"

definition INIReader_new :: "string option \<Rightarrow> INIReader" where
  "INIReader_new file =
     (let (e, values, sections) = ini_parse file ValueHandler ([], [])
      in \<lparr>ir_error = e, ir_values = values, ir_sections = sections\<rparr>)"

definition ParseError :: "INIReader \<Rightarrow> int" where "ParseError r = ir_error r"

definition Sections :: "INIReader \<Rightarrow> string list" where "Sections r = map fst (ir_sections r)"

definition INIReader_Get :: "string \<Rightarrow> string \<Rightarrow> string \<Rightarrow> INIReader \<Rightarrow> string" where
  "INIReader_Get section name default_value r =
     (case map_of (ir_values r) (MakeKey section name) of Some v \<Rightarrow> v | None \<Rightarrow> default_value)"

definition GetBoolean :: "string \<Rightarrow> string \<Rightarrow> bool \<Rightarrow> INIReader \<Rightarrow> bool" where
  "GetBoolean section name default_value r =
     (let valstr = map to_lower (INIReader_Get section name [] r)
      in if valstr \<in> {''true'', ''yes'', ''on'', ''1''} then True
         else if valstr \<in> {''false'', ''no'', ''off'', ''0''} then False
         else default_value)"

text \<open>\<^verbatim>\<open>strtol\<close> with base zero: decimal, octal after a zero, hexadecimal after \<^verbatim>\<open>0x\<close>; the
  value saturates, and nothing is returned when there is no digit.\<close>

definition digit_of :: "char \<Rightarrow> nat" where
  "digit_of c = (let n = (of_char c :: nat)
     in if 48 \<le> n \<and> n \<le> 57 then n - 48 else if 97 \<le> n \<and> n \<le> 122 then n - 87
        else if 65 \<le> n \<and> n \<le> 90 then n - 55 else 99)"

definition base_digits :: "nat \<Rightarrow> string \<Rightarrow> string" where
  "base_digits b s = takeWhile (\<lambda>c. digit_of c < b) s"

definition base_val :: "nat \<Rightarrow> string \<Rightarrow> nat" where
  "base_val b ds = foldl (\<lambda>a c. a * b + digit_of c) 0 ds"

definition strtol0 :: "string \<Rightarrow> int option" where
  "strtol0 s =
     (let (neg, t) = split_sign (dropWhile is_space s);
          hex = (take 2 t \<in> {''0x'', ''0X''} \<and> base_digits 16 (drop 2 t) \<noteq> []);
          b = (if hex then 16 else if take 1 t = ''0'' then 8 else 10);
          ds = base_digits b (if hex then drop 2 t else t);
          n = (if neg then - int (base_val b ds) else int (base_val b ds))
      in if ds = [] then None else Some (max (- (2 ^ 63)) (min (2 ^ 63 - 1) n)))"

definition GetInteger :: "string \<Rightarrow> string \<Rightarrow> int \<Rightarrow> INIReader \<Rightarrow> int" where
  "GetInteger section name default_value r =
     (case strtol0 (INIReader_Get section name [] r) of Some n \<Rightarrow> n | None \<Rightarrow> default_value)"

section \<open>A printed configuration is read back\<close>

definition printable :: "string \<Rightarrow> bool" where
  "printable s \<longleftrightarrow> set s \<inter> {newline, CHR 0x00, CHR '';''} = {}"

definition trimmed :: "string \<Rightarrow> bool" where
  "trimmed s \<longleftrightarrow> s = [] \<or> \<not> is_space (hd s) \<and> \<not> is_space (last s)"

definition section_ok :: "string \<Rightarrow> bool" where
  "section_ok s \<longleftrightarrow> printable s \<and> CHR '']'' \<notin> set s \<and> length s < MAX_SECTION"

definition entry_ok :: "string \<times> string \<Rightarrow> bool" where
  "entry_ok e = (case e of (n, v) \<Rightarrow>
     n \<noteq> [] \<and> trimmed n \<and> printable n \<and> set n \<inter> {CHR ''='', CHR '':''} = {} \<and> hd n \<notin> {CHR ''#'', CHR ''[''} \<and>
     trimmed v \<and> printable v \<and> length n + length v + 4 < INI_MAX_LINE)"

type_synonym ini_doc = "(string \<times> (string \<times> string) list) list"

definition doc_ok :: "ini_doc \<Rightarrow> bool" where
  "doc_ok d \<longleftrightarrow> (\<forall>(s, es) \<in> set d. section_ok s \<and> list_all entry_ok es)"

definition entry_line :: "string \<times> string \<Rightarrow> string" where
  "entry_line e = fst e @ '' = '' @ snd e"

definition section_line :: "string \<Rightarrow> string" where
  "section_line s = ''['' @ s @ '']''"

definition doc_lines :: "ini_doc \<Rightarrow> string list" where
  "doc_lines d = concat (map (\<lambda>(s, es). section_line s # map entry_line es) d)"

definition print_lines :: "string list \<Rightarrow> string" where
  "print_lines ls = concat (map (\<lambda>l. l @ [newline]) ls)"

definition entries :: "ini_doc \<Rightarrow> (string \<times> string \<times> string) list" where
  "entries d = concat (map (\<lambda>(s, es). map (Pair s) es) d)"

subsection \<open>Lines\<close>

lemma space_chars: "is_space newline" "is_space CHR '' ''" "\<not> is_space CHR '']''" "\<not> is_space CHR ''[''" "\<not> is_space CHR ''=''"
  by (simp_all add: is_space_def)

lemma rstrip_spaces: "s = [] \<or> \<not> is_space (last s) \<Longrightarrow> list_all is_space w \<Longrightarrow> rstrip (s @ w) = s"
  by (cases s rule: rev_cases) (auto simp: rstrip_def list_all_iff dropWhile_append)

lemmas rstrip_id = rstrip_spaces [of _ "[]", simplified]

lemma lskip_id: "s = [] \<or> \<not> is_space (hd s) \<Longrightarrow> lskip s = s"
  by (cases s) (auto simp: lskip_def)

lemma scan_clean:
  assumes "\<And>c. c \<in> set s \<Longrightarrow> c \<notin> set chars \<and> c \<noteq> CHR '';''" "rest = [] \<or> hd rest \<in> set chars"
  shows "scan_chars_or_comment ws chars (s @ rest) = (s, rest)"
  using assms by (induction s arbitrary: ws) (cases rest; auto)+

lemma find_clean:
  assumes "printable s" "set s \<inter> set chars = {}" "rest = [] \<or> hd rest \<in> set chars"
  shows "find_chars_or_comment (s @ rest) chars = (s, rest)"
  using assms scan_clean [of s chars rest False] by (auto simp: find_chars_or_comment_def printable_def)

lemma c_str_line: "printable l \<Longrightarrow> c_str (l @ [newline]) = l @ [newline]"
  by (rule c_str_id) (auto simp: printable_def)

lemma printable_append: "printable (a @ b) \<longleftrightarrow> printable a \<and> printable b"
  by (auto simp: printable_def)

lemma line_section:
  assumes "section_ok s"
  shows "ini_line handler (section_line s @ [newline]) st = st\<lparr>in_lineno := in_lineno st + 1, in_section := s, in_prev_name := []\<rparr>"
proof -
  have p: "printable (section_line s)" using assms by (auto simp: section_line_def section_ok_def printable_def)
  have "rstrip (section_line s @ [newline]) = section_line s"
    by (rule rstrip_spaces) (simp_all add: section_line_def space_chars)
  moreover have "lskip (section_line s) = section_line s" by (simp add: lskip_def section_line_def space_chars)
  moreover have "find_chars_or_comment (s @ '']'') '']'' = (s, '']'')"
    using assms by (intro find_clean) (auto simp: section_ok_def)
  moreover have "take 3 (section_line s @ [newline]) \<noteq> utf8_bom" by (simp add: section_line_def)
  ultimately show ?thesis
    using assms by (simp add: ini_line_def c_str_line [OF p] ini_section_line_def strncpy0_def section_ok_def)
      (simp add: section_line_def ini_section_line_def strncpy0_def)
qed

lemma line_entry:
  assumes "entry_ok (n, v)" "in_lineno st \<noteq> 0"
  shows "ini_line handler (entry_line (n, v) @ [newline]) st =
    call_ini_handler handler n v (st\<lparr>in_lineno := in_lineno st + 1, in_prev_name := strncpy0 n MAX_NAME\<rparr>)"
proof -
  let ?t = "n @ '' ='' @ (if v = [] then [] else '' '' @ v)"
  have n: "n \<noteq> []" "\<not> is_space (hd n)" "\<not> is_space (last n)" "printable n" "set n \<inter> {CHR ''='', CHR '':''} = {}"
    "hd n \<notin> {CHR ''#'', CHR ''['', CHR '';''}"
    and v: "trimmed v" "printable v"
    using assms(1) by (cases n; auto simp: entry_ok_def trimmed_def printable_def)+
  have p: "printable (entry_line (n, v))" using n v by (auto simp: entry_line_def printable_def)
  have "rstrip (entry_line (n, v) @ [newline]) = ?t"
  proof (cases "v = []")
    case True
    then show ?thesis using rstrip_spaces [of "n @ '' =''" "'' '' @ [newline]"] by (simp add: entry_line_def space_chars)
  next
    case False
    then show ?thesis using rstrip_spaces [of "entry_line (n, v)" "[newline]"] v(1)
      by (simp add: entry_line_def space_chars trimmed_def)
  qed
  moreover have "lskip ?t = ?t" using n by (intro lskip_id) (simp add: hd_append)
  moreover have "find_chars_or_comment ?t ''=:'' = (n @ '' '', ''='' @ (if v = [] then [] else '' '' @ v))"
    using find_clean [of "n @ '' ''" "''=:''" "''='' @ (if v = [] then [] else '' '' @ v)"] n
    by (auto simp: printable_append) (simp add: printable_def)+
  moreover have "rstrip (n @ '' '') = n" using rstrip_spaces [of n "'' ''"] n by (simp add: space_chars)
  moreover have "lskip (if v = [] then [] else '' '' @ v) = v"
    using lskip_id [of v] v(1) by (auto simp: lskip_def space_chars trimmed_def)
  moreover have "find_chars_or_comment v [] = (v, [])" using find_clean [of v "[]" "[]"] v(2) by simp
  moreover have "rstrip v = v" using rstrip_id [of v] v(1) by (auto simp: trimmed_def)
  ultimately show ?thesis
    using assms(2) n by (simp add: ini_line_def c_str_line [OF p] ini_pair_line_def hd_append)
qed

subsection \<open>Files\<close>

lemma fgets_line: "newline \<notin> set l \<Longrightarrow> length l < n \<Longrightarrow> fgets n (l @ newline # rest) = (l @ [newline], rest)"
proof (induction l arbitrary: n)
  case Nil
  then show ?case by (cases n) auto
next
  case (Cons c l)
  then show ?case by (cases n) auto
qed

definition short_line :: "string \<Rightarrow> bool" where
  "short_line l \<longleftrightarrow> newline \<notin> set l \<and> length l + 1 < INI_MAX_LINE"

lemma parse_lines:
  "list_all short_line ls \<Longrightarrow> ini_parse_stream handler (print_lines ls @ rest) st =
     ini_parse_stream handler rest (fold (\<lambda>l. ini_line handler (l @ [newline])) ls st)"
proof (induction ls arbitrary: st)
  case (Cons l ls)
  have "fgets (INI_MAX_LINE - 1) (l @ newline # print_lines ls @ rest) = (l @ [newline], print_lines ls @ rest)"
    using Cons.prems by (intro fgets_line) (auto simp: short_line_def)
  then show ?case
    using Cons by (subst ini_parse_stream.simps) (simp add: print_lines_def)
qed (simp add: print_lines_def)

lemma doc_lines_short: "doc_ok d \<Longrightarrow> list_all short_line (doc_lines d)"
  by (fastforce simp: doc_lines_def doc_ok_def list_all_iff section_ok_def entry_ok_def entry_line_def section_line_def
      short_line_def printable_def)

definition accepting :: "'u ini_handler \<Rightarrow> bool" where
  "accepting handler \<longleftrightarrow> (\<forall>s n v u. fst (handler s n v u))"

lemma fold_entry_lines:
  assumes "accepting handler" "list_all entry_ok es" "in_lineno st \<noteq> 0"
  shows "\<exists>p l. fold (\<lambda>l. ini_line handler (l @ [newline])) (map entry_line es) st =
     st\<lparr>in_prev_name := p, in_lineno := l, in_user := fold (\<lambda>(n, v) u. snd (handler (in_section st) n v u)) es (in_user st)\<rparr> \<and> l \<noteq> 0"
  using assms(2,3)
proof (induction es arbitrary: st)
  case Nil
  then show ?case by (intro exI [of _ "in_prev_name st"] exI [of _ "in_lineno st"]) simp
next
  case (Cons e es)
  obtain n v where e: "e = (n, v)" by (cases e)
  let ?st = "st\<lparr>in_lineno := in_lineno st + 1, in_prev_name := strncpy0 n MAX_NAME, in_user := snd (handler (in_section st) n v (in_user st))\<rparr>"
  have "ini_line handler (entry_line e @ [newline]) st = ?st"
    using line_entry [of n v st handler] Cons.prems assms(1)
    by (simp add: e call_ini_handler_def accepting_def split_beta)
  then show ?case using Cons.IH [of ?st] Cons.prems by (auto simp: e)
qed

lemma fold_doc_lines:
  assumes "accepting handler" "doc_ok d"
  shows "\<exists>s p l. fold (\<lambda>l. ini_line handler (l @ [newline])) (doc_lines d) st =
     st\<lparr>in_section := s, in_prev_name := p, in_lineno := l,
        in_user := fold (\<lambda>(s, n, v) u. snd (handler s n v u)) (entries d) (in_user st)\<rparr>"
  using assms(2)
proof (induction d arbitrary: st)
  case Nil
  show ?case
    by (intro exI [of _ "in_section st"] exI [of _ "in_prev_name st"] exI [of _ "in_lineno st"])
      (simp add: doc_lines_def entries_def)
next
  case (Cons x d)
  obtain s es where x: "x = (s, es)" by (cases x)
  have ok: "section_ok s" "list_all entry_ok es" "doc_ok d" using Cons.prems by (auto simp: doc_ok_def x)
  let ?st = "st\<lparr>in_lineno := in_lineno st + 1, in_section := s, in_prev_name := []\<rparr>"
  obtain p l where es: "fold (\<lambda>l. ini_line handler (l @ [newline])) (map entry_line es) ?st =
     ?st\<lparr>in_prev_name := p, in_lineno := l, in_user := fold (\<lambda>(n, v) u. snd (handler s n v u)) es (in_user st)\<rparr>"
    using fold_entry_lines [OF assms(1) ok(2), of ?st] by auto
  have "doc_lines (x # d) = section_line s # map entry_line es @ doc_lines d" by (simp add: doc_lines_def x)
  moreover have "entries (x # d) = map (Pair s) es @ entries d" by (simp add: entries_def x)
  ultimately show ?case
    using Cons.IH [OF ok(3), of "?st\<lparr>in_prev_name := p, in_lineno := l,
        in_user := fold (\<lambda>(n, v) u. snd (handler s n v u)) es (in_user st)\<rparr>"] es
    by (simp add: line_section [OF ok(1)] fold_map o_def)
qed

text \<open>a printed configuration is parsed without an error, and the handler is called exactly with its entries,
  in their order and with the section each of them stands in.\<close>

theorem ini_parse_print:
  assumes "accepting handler" "doc_ok d"
  shows "ini_parse (Some (print_lines (doc_lines d))) handler u = (0, fold (\<lambda>(s, n, v) u. snd (handler s n v u)) (entries d) u)"
proof -
  obtain s p l where "fold (\<lambda>l. ini_line handler (l @ [newline])) (doc_lines d) (ini_start u) = (ini_start u)
      \<lparr>in_section := s, in_prev_name := p, in_lineno := l, in_user := fold (\<lambda>(s, n, v) u. snd (handler s n v u)) (entries d) u\<rparr>"
    using fold_doc_lines [OF assms, of "ini_start u"] by (auto simp: ini_start_def)
  then show ?thesis
    using parse_lines [OF doc_lines_short [OF assms(2)], of handler "[]" "ini_start u"]
    by (simp add: ini_parse_def ini_parse_stream.simps [of handler "[]"]) (simp add: ini_start_def)
qed

text \<open>A line with leading space is handed over under the name of the entry before it, of which 49 bytes are
  kept.\<close>

lemma line_continuation:
  assumes "in_prev_name st \<noteq> []" "w \<noteq> []" "trimmed w" "printable w" "hd w \<noteq> CHR ''#''"
  shows "ini_line handler ('' '' @ w @ [newline]) st =
    call_ini_handler handler (in_prev_name st) w (st\<lparr>in_lineno := in_lineno st + 1\<rparr>)"
proof -
  have w: "\<not> is_space (hd w)" "\<not> is_space (last w)" "hd w \<noteq> CHR '';''"
    using assms(2-4) by (cases w; auto simp: trimmed_def printable_def)+
  have "printable ('' '' @ w)" using assms(4) by (simp add: printable_def)
  then have "c_str ('' '' @ w @ [newline]) = '' '' @ w @ [newline]" using c_str_line [of "'' '' @ w"] by simp
  moreover have "rstrip ('' '' @ w @ [newline]) = '' '' @ w"
    using rstrip_spaces [of "'' '' @ w" "[newline]"] w assms(2) by (simp add: space_chars)
  moreover have "lskip ('' '' @ w) = w" using lskip_id [of w] w by (simp add: lskip_def space_chars)
  moreover have "rstrip (fst (find_chars_or_comment w [])) = w"
    using find_clean [of w "[]" "[]"] assms(4) rstrip_id [of w] w by simp
  ultimately show ?thesis using assms(1,2,5) w by (simp add: ini_line_def Let_def)
qed

lemma long_name_split:
  assumes "entry_ok (n, v)" "in_lineno st \<noteq> 0" "accepting handler" "w \<noteq> []" "trimmed w" "printable w" "hd w \<noteq> CHR ''#''"
    and "st' = ini_line handler ('' '' @ w @ [newline]) (ini_line handler (entry_line (n, v) @ [newline]) st)"
  shows "in_user st' = snd (handler (in_section st) (take 49 n) w (snd (handler (in_section st) n v (in_user st))))"
proof -
  let ?st = "ini_line handler (entry_line (n, v) @ [newline]) st"
  have st: "in_prev_name ?st = take 49 n" "in_section ?st = in_section st" "in_user ?st = snd (handler (in_section st) n v (in_user st))"
    using line_entry [OF assms(1,2), of handler] assms(3)
    by (simp_all add: call_ini_handler_def accepting_def strncpy0_def split_beta)
  have "n \<noteq> []" using assms(1) by (simp add: entry_ok_def)
  then have "st' = call_ini_handler handler (take 49 n) w (?st\<lparr>in_lineno := in_lineno ?st + 1\<rparr>)"
    using line_continuation [of ?st w handler] assms(4-8) st(1) by simp
  then show ?thesis using assms(3) st(2,3) by (simp add: call_ini_handler_def accepting_def split_beta)
qed

subsection \<open>Values\<close>

text \<open>The values of entries with the same key are joined by newlines.\<close>

definition join_value :: "string \<Rightarrow> string \<Rightarrow> string" where
  "join_value old v = (if old = [] then v else old @ [newline] @ v)"

definition values_of :: "string \<Rightarrow> (string \<times> string \<times> string) list \<Rightarrow> string list" where
  "values_of key es = map (\<lambda>(s, n, v). v) (filter (\<lambda>(s, n, v). MakeKey s n = key) es)"

definition entry_value :: "ini_doc \<Rightarrow> string \<Rightarrow> string \<Rightarrow> string option" where
  "entry_value d section name =
     (case values_of (MakeKey section name) (entries d) of [] \<Rightarrow> None | v # vs \<Rightarrow> Some (foldl join_value v vs))"

lemma accepting_ValueHandler: "accepting ValueHandler"
  by (simp add: accepting_def ValueHandler_def Let_def)

lemma ValueHandler_get:
  "map_of (fst (snd (ValueHandler s n v u))) k =
     (if k = MakeKey s n then Some (join_value (case map_of (fst u) k of Some old \<Rightarrow> old | None \<Rightarrow> []) v) else map_of (fst u) k)"
  by (auto simp: ValueHandler_def Let_def om_get_put join_value_def split: option.split)

lemma fold_ValueHandler_get:
  "map_of (fst (fold (\<lambda>(s, n, v) u. snd (ValueHandler s n v u)) es u)) k =
     (case values_of k es of [] \<Rightarrow> map_of (fst u) k
      | v # vs \<Rightarrow> Some (foldl join_value (case map_of (fst u) k of Some old \<Rightarrow> old | None \<Rightarrow> []) (v # vs)))"
proof (induction es arbitrary: u)
  case (Cons e es)
  obtain s n v where e: "e = (s, n, v)" by (cases e)
  show ?case
    by (cases "MakeKey s n = k") (auto simp: e Cons.IH ValueHandler_get values_of_def split: list.split)
qed (simp add: values_of_def)

lemma ini_get_print:
  assumes "doc_ok d"
  shows "ParseError (INIReader_new (Some (print_lines (doc_lines d)))) = 0"
    "INIReader_Get s n def (INIReader_new (Some (print_lines (doc_lines d)))) = (case entry_value d s n of Some v \<Rightarrow> v | None \<Rightarrow> def)"
proof -
  let ?u = "fold (\<lambda>(s, n, v) u. snd (ValueHandler s n v u)) (entries d) ([], [])"
  have new: "INIReader_new (Some (print_lines (doc_lines d))) = \<lparr>ir_error = 0, ir_values = fst ?u, ir_sections = snd ?u\<rparr>"
    unfolding INIReader_new_def ini_parse_print [OF accepting_ValueHandler assms] by (simp add: split_beta)
  have "map_of (fst ?u) (MakeKey s n) = entry_value d s n"
    unfolding fold_ValueHandler_get entry_value_def by (simp add: join_value_def split: list.split)
  then show "INIReader_Get s n def (INIReader_new (Some (print_lines (doc_lines d)))) =
      (case entry_value d s n of Some v \<Rightarrow> v | None \<Rightarrow> def)"
    unfolding new by (simp add: INIReader_Get_def)
  show "ParseError (INIReader_new (Some (print_lines (doc_lines d)))) = 0" unfolding new by (simp add: ParseError_def)
qed

section \<open>Malformed lines\<close>

definition bad_line :: "string \<Rightarrow> bool" where
  "bad_line l \<longleftrightarrow> l \<noteq> [] \<and> trimmed l \<and> set l \<inter> {newline, CHR 0x00, CHR ''='', CHR '':''} = {} \<and>
     hd l \<notin> {CHR '';'', CHR ''#'', CHR ''[''} \<and> take 3 l \<noteq> utf8_bom \<and> length l + 1 < INI_MAX_LINE"

lemma ini_fail_simps [simp]:
  "in_lineno (ini_fail st) = in_lineno st" "in_error (ini_fail st) = (if in_error st = 0 then in_lineno st else in_error st)"
  by (simp_all add: ini_fail_def)

lemma call_ini_handler_simps [simp]:
  "in_lineno (call_ini_handler h n v st) = in_lineno st"
  "in_error st \<noteq> 0 \<Longrightarrow> in_error (call_ini_handler h n v st) = in_error st"
  by (simp_all add: call_ini_handler_def split_beta Let_def)

lemma ini_line_lineno: "in_lineno (ini_line h b st) = in_lineno st + 1"
  by (simp add: ini_line_def ini_section_line_def ini_pair_line_def Let_def split_beta)

lemma ini_line_sticky: "in_error st \<noteq> 0 \<Longrightarrow> in_error (ini_line h b st) = in_error st"
  by (simp add: ini_line_def ini_section_line_def ini_pair_line_def Let_def split_beta)

lemma parse_sticky: "in_error st \<noteq> 0 \<Longrightarrow> in_error (ini_parse_stream h stream st) = in_error st"
proof (induction h stream st rule: ini_parse_stream.induct)
  case (1 h stream st)
  then show ?case by (subst ini_parse_stream.simps) (simp add: ini_line_sticky)
qed

lemma fold_lineno: "in_lineno (fold (\<lambda>l. ini_line h (l @ [newline])) ls st) = in_lineno st + length ls"
  by (induction ls arbitrary: st) (simp_all add: ini_line_lineno)

lemma scan_no_char:
  "set s \<inter> set chars = {} \<Longrightarrow> snd (scan_chars_or_comment ws chars s) = [] \<or> hd (snd (scan_chars_or_comment ws chars s)) = CHR '';''"
  by (induction ws chars s rule: scan_chars_or_comment.induct) (auto simp: split_beta)

lemma line_bad:
  assumes "bad_line l" "in_error st = 0"
  shows "in_error (ini_line h (l @ [newline]) st) = in_lineno st + 1"
proof -
  have l: "l \<noteq> []" "\<not> is_space (hd l)" "\<not> is_space (last l)" "set l \<inter> set ''=:'' = {}" "take 3 l \<noteq> utf8_bom"
    "hd l \<notin> {CHR '';'', CHR ''#'', CHR ''[''}" "newline \<notin> set l"
    using assms(1) by (auto simp: bad_line_def trimmed_def)
  have "c_str (l @ [newline]) = l @ [newline]" using assms(1) by (intro c_str_id) (auto simp: bad_line_def)
  moreover have "take 3 (l @ [newline]) \<noteq> utf8_bom" using l(5) by (cases "3 - length l") (auto simp: take_Cons')
  moreover have "rstrip (l @ [newline]) = l" using l(3) by (intro rstrip_spaces) (simp_all add: space_chars)
  moreover have "lskip l = l" using l(2) by (intro lskip_id) simp
  moreover have "snd (find_chars_or_comment l ''=:'') = [] \<or> hd (snd (find_chars_or_comment l ''=:'')) = CHR '';''"
    using scan_no_char [OF l(4)] by (simp add: find_chars_or_comment_def)
  ultimately show ?thesis
    using l(1,6) assms(2) by (auto simp: ini_line_def ini_pair_line_def Let_def split_beta)
qed

lemma ini_first_error:
  assumes "accepting handler" "doc_ok d" "bad_line l"
  shows "fst (ini_parse (Some (print_lines (doc_lines d @ [l]) @ rest)) handler u) = int (length (doc_lines d) + 1)"
proof -
  let ?go = "\<lambda>ls. fold (\<lambda>l. ini_line handler (l @ [newline])) ls (ini_start u)"
  obtain s p l' where "?go (doc_lines d) = (ini_start u)
      \<lparr>in_section := s, in_prev_name := p, in_lineno := l', in_user := fold (\<lambda>(s, n, v) u. snd (handler s n v u)) (entries d) u\<rparr>"
    using fold_doc_lines [OF assms(1,2), of "ini_start u"] by (auto simp: ini_start_def)
  then have "in_error (?go (doc_lines d)) = 0" by (simp add: ini_start_def)
  then have "in_error (?go (doc_lines d @ [l])) = length (doc_lines d) + 1"
    using line_bad [OF assms(3), of "?go (doc_lines d)" handler] fold_lineno [of handler "doc_lines d" "ini_start u"] by (simp add: ini_start_def)
  moreover have "list_all short_line (doc_lines d @ [l])"
    using doc_lines_short [OF assms(2)] assms(3) by (simp add: bad_line_def short_line_def)
  ultimately show ?thesis
    using parse_lines [of "doc_lines d @ [l]" handler rest "ini_start u"]
      parse_sticky [of "?go (doc_lines d @ [l])" handler rest] by (simp add: ini_parse_def)
qed

end
