(* ===== verification/Configuration.thy ===== *)
theory Configuration
  imports Ini_Reader Network
begin

text \<open>
  Parameters and settings: \<^verbatim>\<open>src/componentmodel/r_parameter.cc\<close>, the switch and the key files of
  \<^verbatim>\<open>src/framework/rfw_security.cc\<close>, the endpoints of \<^verbatim>\<open>src/framework/rfw_configuration.cc\<close> and
  \<^verbatim>\<open>GetAppPath\<close> of \<^verbatim>\<open>src/utils/r_utils.cc\<close>.  The bytes of the configuration file, the environment variable and
  the content of the key file are arguments.  Lemmas: what a parameter reads after it was added or set,
  the round trip of integers, which key file is used, and what the security switch and the network interface are for
  the bytes of the configuration file.
\<close>

section \<open>Parameters\<close>

record Parameter =
  pa_name :: string
  pa_default :: string
  pa_value :: string
  pa_optional :: bool

type_synonym Parameters = "(string, Parameter) omap"

definition Parameter_new :: "string \<Rightarrow> bool \<Rightarrow> string \<Rightarrow> Parameter" where
  "Parameter_new fieldName isOptional defaultValue =
     \<lparr>pa_name = fieldName, pa_default = defaultValue, pa_value = [], pa_optional = isOptional\<rparr>"

definition setValue :: "string \<Rightarrow> Parameter \<Rightarrow> Parameter" where
  "setValue value p = p\<lparr>pa_value := value\<rparr>"

definition addParam :: "string \<Rightarrow> string \<Rightarrow> bool \<Rightarrow> string \<Rightarrow> Parameters \<Rightarrow> Parameters" where
  "addParam name value isOptional defaultValue ps =
     (let newItem = Parameter_new name isOptional defaultValue
      in om_put name (if value \<noteq> [] then setValue value newItem else setValue defaultValue newItem) ps)"

definition addParam_copy :: "Parameter \<Rightarrow> Parameters \<Rightarrow> Parameters" where
  "addParam_copy p ps = addParam (pa_name p) (pa_value p) (pa_optional p) (pa_default p) ps"

definition getParam :: "string \<Rightarrow> Parameters \<Rightarrow> Parameter option" where
  "getParam name ps = map_of ps name"

definition setParamValue :: "string \<Rightarrow> string \<Rightarrow> Parameters \<Rightarrow> Parameter option \<times> Parameters" where
  "setParamValue name value ps =
     (case map_of ps name of
        None \<Rightarrow> (None, ps)
      | Some p \<Rightarrow> (Some (setValue value p), om_put name (setValue value p) ps))"

definition getParameterNames :: "Parameters \<Rightarrow> string list" where
  "getParameterNames ps = map fst ps"

text \<open>Both exceptions of \<^verbatim>\<open>stoi\<close> are caught.\<close>

definition getValueAsInt :: "Parameter \<Rightarrow> int option" where
  "getValueAsInt p = (case stoi (pa_value p) of Inl _ \<Rightarrow> None | Inr i \<Rightarrow> Some i)"

text \<open>The extraction with \<^verbatim>\<open>boolalpha\<close>: a text of white space only leaves the variable as it was, which is
  uninitialised; a text that is neither word gives false.\<close>

definition getValueAsBool :: "bool \<Rightarrow> Parameter \<Rightarrow> bool" where
  "getValueAsBool junk p =
     (case dropWhile is_space (pa_value p) of [] \<Rightarrow> junk | s \<Rightarrow> starts_with ''true'' s)"

datatype actual_error = Referred_parameter | Value_parameter

record ComponentActual =
  ca_name :: string
  ca_value :: string
  ca_referred :: bool

definition GetParamValue :: "ComponentActual \<Rightarrow> actual_error + string" where
  "GetParamValue a = (if ca_referred a then Inl Referred_parameter else Inr (ca_value a))"

definition GetReferredParamName :: "ComponentActual \<Rightarrow> actual_error + string" where
  "GetReferredParamName a = (if ca_referred a then Inr (ca_value a) else Inl Value_parameter)"

definition HasValue :: "ComponentActual \<Rightarrow> bool" where
  "HasValue a = (\<not> ca_referred a)"

lemma stoi_to_string_int:
  assumes "- (2 ^ 31) \<le> i" "i < 2 ^ 31"
  shows "stoi (to_string_int i) = Inr i"
proof (cases "i < 0")
  case False
  then show ?thesis using assms stoi_to_string_nat [of "nat i"] by (simp add: to_string_int_def)
next
  case True
  let ?ds = "to_string_nat (nat (- i))"
  have tw: "takeWhile is_digit ?ds = ?ds" using to_string_nat_digits by (simp add: takeWhile_eq_all_conv)
  have "\<not> is_space CHR ''-''" by (simp add: is_space_def)
  then have "split_sign (dropWhile is_space (CHR ''-'' # ?ds)) = (True, ?ds)" by (simp add: split_sign_def)
  then show ?thesis
    using True assms digits_val_to_string_nat [of "nat (- i)"]
    by (simp add: to_string_int_def stoi_def tw Let_def del: takeWhile_eq_all_conv)
qed

lemma addParam_inv: "om_inv ps \<Longrightarrow> om_inv (addParam n v opt d ps)"
  by (simp add: addParam_def om_inv_put Let_def)

lemma getParam_add:
  "getParam m (addParam n v opt d ps) =
     (if m = n then Some \<lparr>pa_name = n, pa_default = d, pa_value = (if v \<noteq> [] then v else d), pa_optional = opt\<rparr> else getParam m ps)"
  by (simp add: getParam_def addParam_def om_get_put Let_def setValue_def Parameter_new_def)

text \<open>an integer parameter reads back as the number it was written from: added with the decimal text
  of any 32-bit integer, and also after other parameters are added or set, the value is that integer.\<close>

theorem int_parameter_roundtrip:
  assumes "- (2 ^ 31) \<le> i" "i < 2 ^ 31" "m \<noteq> n"
  shows "\<exists>p. getParam n (snd (setParamValue m w (addParam m v' o' d' (addParam n (to_string_int i) opt d ps)))) = Some p \<and>
    getValueAsInt p = Some i"
proof -
  have "to_string_int i \<noteq> []" by (simp add: to_string_int_def)
  then show ?thesis
    using assms(3) stoi_to_string_int [OF assms(1,2)]
    by (simp add: setParamValue_def getParam_add [unfolded getParam_def] getParam_def om_get_put getValueAsInt_def)
qed

section \<open>Settings and files\<close>

abbreviation CONF_DISCOVERY_ENDPOINT :: string where "CONF_DISCOVERY_ENDPOINT \<equiv> ''tcp://127.0.0.1:9700''"

definition GetDiscoveryEndpoint :: string where "GetDiscoveryEndpoint = CONF_DISCOVERY_ENDPOINT"
definition GetDeviceManagerEndpoint :: string where "GetDeviceManagerEndpoint = ''tcp://127.0.0.1:9790''"
definition GetDeploEndpoint :: string where "GetDeploEndpoint = ''tcp://127.0.0.1:9780''"

text \<open>\<open>file\<close> is the content of the configuration file, nothing when it cannot be opened.\<close>

definition HasSecurity :: "string option \<Rightarrow> bool" where
  "HasSecurity file =
     (let reader = INIReader_new file
      in if ParseError reader \<noteq> 0 then False
         else let security = INIReader_Get ''RIAPS'' ''security'' ''off'' reader
              in security = ''on'' \<or> security = ''True'')"

text \<open>Appending to a path of the file system library.\<close>

definition path_append :: "string \<Rightarrow> string \<Rightarrow> string" where
  "path_append p q = (if p = [] \<or> last p = CHR ''/'' then p @ q else p @ ''/'' @ q)"

definition key_path :: string where
  "key_path = path_append ''/usr/local/riaps/keys'' ''id_rsa.key''"

text \<open>\<open>content\<close> is the file under the path, nothing when it cannot be opened.\<close>

definition private_key :: "(string \<Rightarrow> string option) \<Rightarrow> string option" where
  "private_key content = content key_path"

text \<open>\<open>apps\<close> is the environment variable \<^verbatim>\<open>RIAPSAPPS\<close>.\<close>

definition GetAppPath :: "string option \<Rightarrow> string \<Rightarrow> string" where
  "GetAppPath apps appName =
     (case apps of
        None \<Rightarrow> []
      | Some p \<Rightarrow> (if p \<noteq> [] \<and> last p = CHR ''/'' then butlast p else p) @ ''/'' @ appName)"

definition curve_key_path :: "string option \<Rightarrow> string \<Rightarrow> string" where
  "curve_key_path apps app_name = path_append (GetAppPath apps app_name) ''riaps-app.cert''"

lemma GetAppPath_slash: "p \<noteq> [] \<Longrightarrow> last p \<noteq> CHR ''/'' \<Longrightarrow> GetAppPath (Some (p @ ''/'')) app = GetAppPath (Some p) app"
  by (simp add: GetAppPath_def)

lemma curve_key_path_app:
  "app \<noteq> [] \<Longrightarrow> last app \<noteq> CHR ''/'' \<Longrightarrow> p \<noteq> [] \<Longrightarrow> last p \<noteq> CHR ''/'' \<Longrightarrow>
     curve_key_path (Some p) app = p @ ''/'' @ app @ ''/riaps-app.cert''"
  by (simp add: curve_key_path_def GetAppPath_def path_append_def)

text \<open>Without the variable the certificate is looked for in the working directory.\<close>

lemma curve_key_path_unset: "curve_key_path None app = ''riaps-app.cert''"
  by (simp add: curve_key_path_def GetAppPath_def path_append_def)

theorem int_parameter_roundtrip_witness:
  "\<exists>p. getParam ''n'' (snd (setParamValue ''m'' ''1'' (addParam ''m'' ''x'' True [] (addParam ''n'' (to_string_int (- 42)) False [] [])))) = Some p \<and>
     getValueAsInt p = Some (- 42)"
  using int_parameter_roundtrip [of "- 42" "''m''" "''n''"] by simp

section \<open>The configuration file\<close>

lemma getlines_print: "list_all (\<lambda>l. newline \<notin> set l) ls \<Longrightarrow> getlines (print_lines ls) = ls"
proof -
  assume "list_all (\<lambda>l. newline \<notin> set l) ls"
  then have "split_on newline (print_lines ls) = ls @ [[]]"
    by (induction ls) (simp_all add: print_lines_def split_on_append)
  then show ?thesis by (simp add: getlines_def)
qed

lemma alnum_no_space: "is_alnum c \<Longrightarrow> \<not> is_space c"
  by (auto simp: is_alnum_def is_space_def Let_def)

text \<open>The regular expression matches the printed entries that are named exactly like the interface setting.\<close>

lemma nic_name_prefix:
  assumes "n @ '' = '' @ v = ''nic_name'' @ r" "set n \<inter> {CHR ''=''} = {}"
  shows "\<exists>m. n = ''nic_name'' @ m \<and> r = m @ '' = '' @ v"
proof (cases "8 \<le> length n")
  case True
  then have "take 8 n = ''nic_name''" using arg_cong [OF assms(1), of "take 8"] by simp
  then show ?thesis using assms(1) append_take_drop_id [of 8 n] by (metis append_assoc same_append_eq)
next
  case False
  then have k: "length n < 8" by simp
  have "(n @ '' = '' @ v) ! length n = CHR '' ''" by simp
  moreover have "(''nic_name'' @ r) ! length n = ''nic_name'' ! length n" using k by (subst nth_append) simp
  ultimately have "''nic_name'' ! length n = CHR '' ''" by (simp only: assms(1))
  moreover have "\<forall>i<8. ''nic_name'' ! i \<noteq> CHR '' ''" by (simp add: All_less_Suc eval_nat_numeral)
  ultimately show ?thesis using k by simp
qed

lemma nic_of_entry:
  assumes "entry_ok (n, v)"
  shows "nic_of_line (entry_line (n, v)) = (if n = ''nic_name'' \<and> v \<noteq> [] \<and> list_all is_alnum v then Some v else None)"
proof (cases "n = ''nic_name''")
  case True
  have v: "trimmed v" using assms by (simp add: entry_ok_def)
  then have d: "dropWhile is_space v = v" by (cases v) (auto simp: trimmed_def)
  have "list_all is_space (dropWhile is_alnum v) \<longleftrightarrow> list_all is_alnum v"
  proof
    assume sp: "list_all is_space (dropWhile is_alnum v)"
    have "dropWhile is_alnum v = []"
    proof (rule ccontr)
      assume ne: "dropWhile is_alnum v \<noteq> []"
      then have "last (dropWhile is_alnum v) = last v" by (metis last_appendR takeWhile_dropWhile_id)
      then show False using sp ne v last_in_set [OF ne] by (auto simp: list_all_iff trimmed_def)
    qed
    then show "list_all is_alnum v" by (simp add: list_all_iff dropWhile_eq_Nil_conv)
  next
    assume "list_all is_alnum v"
    then have "dropWhile is_alnum v = []" by (simp add: list_all_iff)
    then show "list_all is_space (dropWhile is_alnum v)" by (simp only: list.pred_inject)
  qed
  moreover have "takeWhile is_alnum v = v" if "list_all is_alnum v" using that by (simp add: list_all_iff)
  ultimately show ?thesis
    by (auto simp: nic_of_line_def True entry_line_def d Let_def space_chars simp del: takeWhile_eq_all_conv)
next
  case False
  have "nic_of_line (entry_line (n, v)) = None"
  proof (cases "starts_with ''nic_name'' (entry_line (n, v))")
    case True
    then obtain r where "n @ '' = '' @ v = ''nic_name'' @ r" by (auto simp: starts_with_iff entry_line_def)
    then obtain m where m: "n = ''nic_name'' @ m" "r = m @ '' = '' @ v"
      using nic_name_prefix [of n v r] assms by (auto simp: entry_ok_def)
    have ne: "m \<noteq> []" "\<not> is_space (last m)" "CHR ''='' \<notin> set m"
      using False assms m(1) by (auto simp: entry_ok_def trimmed_def)
    then obtain c w where w: "dropWhile is_space m = c # w"
      by (metis dropWhile_eq_Nil_conv last_in_set list.exhaust)
    then have "c \<in> set m" by (metis list.set_intros(1) set_dropWhileD)
    then have "c \<noteq> CHR ''=''" using ne(3) by auto
    moreover have "dropWhile is_space (m @ x) = c # w @ x" for x
      using w ne(1,2) last_in_set [of m] by (auto simp: dropWhile_append)
    ultimately show ?thesis using m by (simp add: nic_of_line_def entry_line_def)
  qed (simp add: nic_of_line_def)
  then show ?thesis using False by simp
qed

definition nic_entries :: "ini_doc \<Rightarrow> string list" where
  "nic_entries d = map (\<lambda>(s, n, v). v) (filter (\<lambda>(s, n, v). n = ''nic_name'' \<and> v \<noteq> [] \<and> list_all is_alnum v) (entries d))"

lemma first_nic_append: "(\<And>l. l \<in> set ls \<Longrightarrow> nic_of_line l = None) \<Longrightarrow> first_nic (ls @ rest) = first_nic rest"
  by (induction ls) auto

lemma first_nic_entries:
  "list_all entry_ok es \<Longrightarrow> first_nic (map entry_line es @ rest) =
     (case filter (\<lambda>(n, v). n = ''nic_name'' \<and> v \<noteq> [] \<and> list_all is_alnum v) es of [] \<Rightarrow> first_nic rest | (n, v) # _ \<Rightarrow> v)"
  by (induction es) (auto simp: nic_of_entry split: if_splits)

lemma first_nic_doc: "doc_ok d \<Longrightarrow> first_nic (doc_lines d) = (case nic_entries d of [] \<Rightarrow> [] | v # _ \<Rightarrow> v)"
proof (induction d)
  case (Cons x d)
  obtain s es where x: "x = (s, es)" by (cases x)
  have "nic_of_line (section_line s) = None" by (simp add: nic_of_line_def section_line_def)
  then show ?case using Cons first_nic_entries [of es "doc_lines d"]
    by (auto simp: doc_lines_def nic_entries_def entries_def doc_ok_def x filter_map o_def split: list.splits)
qed (simp add: doc_lines_def nic_entries_def entries_def)

text \<open>C19: what a node reads from its configuration file.  The file is read twice, by the INI parser for the security switch
  and by a regular expression for the network interface.  For every printed configuration the two readers
  agree with its entries: security is on exactly when the joined values of \<^verbatim>\<open>security\<close> in \<^verbatim>\<open>[RIAPS]\<close> are the
  text \<^verbatim>\<open>on\<close> or \<^verbatim>\<open>True\<close>, and the interface is the first value of a \<^verbatim>\<open>nic_name\<close>, in whatever
  section, that consists of letters and digits.\<close>

theorem conf_file_read:
  assumes "doc_ok d" "riaps_conf h = Some (print_lines (doc_lines d))"
  shows "(HasSecurity (riaps_conf h) \<longleftrightarrow> entry_value d ''RIAPS'' ''security'' \<in> {Some ''on'', Some ''True''}) \<and>
    GetConfiguredIface h = (case nic_entries d of [] \<Rightarrow> [] | v # _ \<Rightarrow> v)"
proof -
  have "list_all (\<lambda>l. newline \<notin> set l) (doc_lines d)"
    using doc_lines_short [OF assms(1)] by (simp add: list_all_iff short_line_def)
  then have "GetConfiguredIface h = first_nic (doc_lines d)" by (simp add: GetConfiguredIface_def assms(2) getlines_print)
  then show ?thesis
    using ini_get_print [OF assms(1)] by (auto simp: HasSecurity_def assms(2) first_nic_doc [OF assms(1)] split: option.splits)
qed

text \<open>one malformed line switches security off.  Whatever else the file says, before and after it, a line that is
  neither a comment nor a section nor a pair of a name and a value makes the parser report the number of
  that line, and the node runs without security.\<close>

lemma malformed_line_disables_security:
  assumes "doc_ok d" "bad_line l" "file = print_lines (doc_lines d @ [l]) @ rest"
  shows "ParseError (INIReader_new (Some file)) = int (length (doc_lines d) + 1) \<and> \<not> HasSecurity (Some file)"
proof -
  have "ParseError (INIReader_new (Some file)) = int (length (doc_lines d) + 1)"
    using ini_first_error [OF accepting_ValueHandler assms(1,2), of rest "([], [])"]
    by (simp add: INIReader_new_def ParseError_def assms(3) split_beta)
  then show ?thesis by (simp add: HasSecurity_def)
qed

section \<open>Witnesses for the configuration file\<close>

definition ex_conf_doc :: ini_doc where
  "ex_conf_doc = [(''RIAPS'', [(''security'', ''on''), (''nic_name'', ''eth0'')])]"

lemma ex_conf_doc_ok: "doc_ok ex_conf_doc"
  by (simp add: doc_ok_def ex_conf_doc_def section_ok_def entry_ok_def printable_def trimmed_def is_space_def)

lemma ex_conf_secure: "HasSecurity (Some (print_lines (doc_lines ex_conf_doc)))"
  using ini_get_print [OF ex_conf_doc_ok]
  by (simp add: HasSecurity_def entry_value_def values_of_def entries_def ex_conf_doc_def MakeKey_def to_lower_def)

theorem conf_file_read_witness:
  "\<exists>h. riaps_conf h = Some (print_lines (doc_lines ex_conf_doc)) \<and> HasSecurity (riaps_conf h) \<and> GetConfiguredIface h = ''eth0''"
proof -
  let ?h = "\<lparr>riaps_conf = Some (print_lines (doc_lines ex_conf_doc)), iflist = [], sys_class_net = \<lambda>_. None\<rparr>"
  have "entry_value ex_conf_doc ''RIAPS'' ''security'' = Some ''on''"
    by (simp add: entry_value_def values_of_def entries_def ex_conf_doc_def MakeKey_def to_lower_def)
  moreover have "nic_entries ex_conf_doc = [''eth0'']"
    by (simp add: nic_entries_def entries_def ex_conf_doc_def is_alnum_def)
  ultimately show ?thesis using conf_file_read [OF ex_conf_doc_ok, of ?h] by (intro exI [of _ ?h]) simp
qed

lemma ex_bad_line: "bad_line ''securty on''"
  by (simp add: bad_line_def trimmed_def is_space_def)

end
