(* ===== verification/Py_Config.thy ===== *)
theory Py_Config
  imports Component_Start Configuration
begin

text \<open>
  Components configured from Python: \<^verbatim>\<open>PyConfigConverter\<close>
  (\<^verbatim>\<open>include/componentmodel/r_pyconfigconverter.h\<close>), which turns the dictionaries of a component type, of its
  actor and of its arguments into a \<^verbatim>\<open>ComponentConf\<close>.  A Python object is a value of \<open>pyval\<close>; an exception
  is the left side of a sum.  The set \<^verbatim>\<open>locals_\<close> is a static member of the class, so every function that
  may use it takes it, and \<^verbatim>\<open>ParseLocals\<close> returns it also when it fails.  How Python's \<^verbatim>\<open>dict\<close> constructor converts
  an object that is no dictionary is the argument \<open>mk\<close>.  Lemmas: when the conversion succeeds and which
  ports it declares, what the component starts with, and what becomes of the arguments.
\<close>

section \<open>Python objects\<close>

datatype pyval = PyNone | PyBool bool | PyInt int | PyFloat rat | PyStr string
  | PyList "pyval list" | PyDict "(pyval \<times> pyval) list"

datatype py_error = Python_exception | Cast_error

type_synonym pydict = "(pyval \<times> pyval) list"

text \<open>\<^verbatim>\<open>obj[key]\<close> with a string.\<close>

definition py_item :: "string \<Rightarrow> pyval \<Rightarrow> py_error + pyval" where
  "py_item key v =
     (case v of
        PyDict d \<Rightarrow> (case map_of d (PyStr key) of None \<Rightarrow> Inl Python_exception | Some w \<Rightarrow> Inr w)
      | _ \<Rightarrow> Inl Python_exception)"

text \<open>\<^verbatim>\<open>cast<py::dict>()\<close>: a dictionary, or what \<^verbatim>\<open>dict(obj)\<close> gives.\<close>

definition py_dict :: "(pyval \<Rightarrow> pydict option) \<Rightarrow> pyval \<Rightarrow> py_error + pydict" where
  "py_dict mk v =
     (case v of
        PyDict d \<Rightarrow> Inr d
      | _ \<Rightarrow> (case mk v of None \<Rightarrow> Inl Python_exception | Some d \<Rightarrow> Inr d))"

text \<open>\<^verbatim>\<open>cast<std::string>()\<close>, \<^verbatim>\<open>cast<ulong>()\<close> and \<^verbatim>\<open>cast<int>()\<close>; a truth value is a Python integer.\<close>

definition py_string :: "pyval \<Rightarrow> py_error + string" where
  "py_string v = (case v of PyStr s \<Rightarrow> Inr s | _ \<Rightarrow> Inl Cast_error)"

definition py_long :: "pyval \<Rightarrow> int option" where
  "py_long v = (case v of PyInt i \<Rightarrow> Some i | PyBool b \<Rightarrow> Some (of_bool b) | _ \<Rightarrow> None)"

definition py_ulong :: "pyval \<Rightarrow> py_error + u64" where
  "py_ulong v = (case py_long v of None \<Rightarrow> Inl Cast_error
     | Some i \<Rightarrow> if 0 \<le> i \<and> i < 2 ^ 64 then Inr (of_int i) else Inl Cast_error)"

definition py_int :: "pyval \<Rightarrow> py_error + int" where
  "py_int v = (case py_long v of None \<Rightarrow> Inl Cast_error
     | Some i \<Rightarrow> if - (2 ^ 31) \<le> i \<and> i < 2 ^ 31 then Inr i else Inl Cast_error)"

text \<open>Iterating an object: the elements of a list, the keys of a dictionary, the characters of a string.\<close>

definition py_iter :: "pyval \<Rightarrow> py_error + pyval list" where
  "py_iter v =
     (case v of PyList vs \<Rightarrow> Inr vs | PyDict d \<Rightarrow> Inr (map fst d) | PyStr s \<Rightarrow> Inr (map (\<lambda>c. PyStr [c]) s)
      | _ \<Rightarrow> Inl Python_exception)"

text \<open>\<^verbatim>\<open>std::to_string(float)\<close>: six decimals of the exact value of the float, rounded to even.\<close>

fun pad_digits :: "nat \<Rightarrow> nat \<Rightarrow> string" where
  "pad_digits 0 n = []"
| "pad_digits (Suc k) n = pad_digits k (n div 10) @ [digit_char (n mod 10)]"

definition to_string_float :: "rat \<Rightarrow> string" where
  "to_string_float x =
     (let f = to_float x; n = nat (round_even (\<bar>f\<bar> * 10 ^ 6));
          digits = (if 2 ^ 128 \<le> \<bar>f\<bar> then ''inf'' else to_string_nat (n div 10 ^ 6) @ ''.'' @ pad_digits 6 n)
      in if f < 0 then CHR ''-'' # digits else digits)"

section \<open>The converter\<close>

record ComponentConf =
  cc_component_name :: string
  cc_component_type :: string
  cc_ports :: ComponentPorts
  cc_parameters :: Parameters
  cc_is_device :: bool

text \<open>Each item in turn, the first exception wins; the second function only changes the state.\<close>

fun each_result :: "('a \<Rightarrow> 'e + 'b) \<Rightarrow> 'a list \<Rightarrow> 'e + 'b list" where
  "each_result f [] = Inr []"
| "each_result f (x # xs) = and_then (f x) (\<lambda>y. and_then (each_result f xs) (\<lambda>ys. Inr (y # ys)))"

definition local_type :: "(pyval \<Rightarrow> pydict option) \<Rightarrow> pyval \<Rightarrow> py_error + string" where
  "local_type mk v = and_then (py_dict mk v) (\<lambda>d. and_then (py_item ''type'' (PyDict d)) py_string)"

fun insert_locals :: "(pyval \<Rightarrow> pydict option) \<Rightarrow> pyval list \<Rightarrow> string set \<Rightarrow> string set \<times> py_error option" where
  "insert_locals mk [] L = (L, None)"
| "insert_locals mk (v # vs) L =
     (case local_type mk v of Inl e \<Rightarrow> (L, Some e) | Inr s \<Rightarrow> insert_locals mk vs (insert s L))"

definition ParseLocals :: "(pyval \<Rightarrow> pydict option) \<Rightarrow> pydict \<Rightarrow> string set \<Rightarrow> string set \<times> py_error option" where
  "ParseLocals mk py_actor L =
     (case and_then (py_item ''locals'' (PyDict py_actor)) py_iter of
        Inl e \<Rightarrow> (L, Some e)
      | Inr vs \<Rightarrow> insert_locals mk vs L)"

text \<open>The checks in the order of the code: a truth value passes the one for integers.\<close>

definition ParseArg :: "pyval \<times> pyval \<Rightarrow> Parameters \<Rightarrow> py_error + Parameters" where
  "ParseArg kv ps =
     and_then (py_string (fst kv)) (\<lambda>name.
       case snd kv of
         PyStr s \<Rightarrow> Inr (addParam name s False [] ps)
       | PyInt i \<Rightarrow> and_then (py_int (PyInt i)) (\<lambda>i. Inr (addParam name (to_string_int i) False [] ps))
       | PyBool b \<Rightarrow> and_then (py_int (PyBool b)) (\<lambda>i. Inr (addParam name (to_string_int i) False [] ps))
       | PyFloat x \<Rightarrow> Inr (addParam name (to_string_float x) False [] ps)
       | _ \<Rightarrow> Inr ps)"

definition ParseArgs :: "pydict \<Rightarrow> Parameters \<Rightarrow> py_error + Parameters" where
  "ParseArgs py_args ps = each_port ParseArg py_args ps"

definition IsLocal :: "string set \<Rightarrow> string \<Rightarrow> bool" where
  "IsLocal L message_type \<longleftrightarrow> message_type \<in> L"

definition parse_pub_sub_port ::
  "(pyval \<Rightarrow> pydict option) \<Rightarrow> string set \<Rightarrow> pyval \<times> pyval \<Rightarrow> py_error + port_config" where
  "parse_pub_sub_port mk L kv =
     and_then (py_string (fst kv)) (\<lambda>name.
     and_then (py_dict mk (snd kv)) (\<lambda>d.
     and_then (py_item ''type'' (PyDict d)) (\<lambda>t.
     and_then (py_string t) (\<lambda>ty.
       Inr \<lparr>pc_port_name = name, pc_message_type = ty, pc_is_local = IsLocal L ty, pc_is_timed = False\<rparr>))))"

definition parse_req_rep_port :: "string set \<Rightarrow> pyval \<times> pyval \<Rightarrow> py_error + port_config" where
  "parse_req_rep_port L kv =
     and_then (and_then (py_item ''req_type'' (snd kv)) py_string) (\<lambda>req.
     and_then (and_then (py_item ''rep_type'' (snd kv)) py_string) (\<lambda>rep.
     and_then (py_string (fst kv)) (\<lambda>name.
       Inr \<lparr>pc_port_name = name, pc_message_type = req @ ''#'' @ rep, pc_is_local = (IsLocal L req \<and> IsLocal L rep),
            pc_is_timed = False\<rparr>)))"

definition parse_tim_port :: "pyval \<times> pyval \<Rightarrow> py_error + (port_config \<times> u64)" where
  "parse_tim_port kv =
     and_then (and_then (py_item ''period'' (snd kv)) py_ulong) (\<lambda>period.
     and_then (py_string (fst kv)) (\<lambda>name.
       Inr (\<lparr>pc_port_name = name, pc_message_type = [], pc_is_local = False, pc_is_timed = False\<rparr>, period)))"

definition parse_pub_sub :: "(pyval \<Rightarrow> pydict option) \<Rightarrow> string set \<Rightarrow> pydict \<Rightarrow> py_error + port_config list" where
  "parse_pub_sub mk L ports = each_result (parse_pub_sub_port mk L) ports"

definition parse_req_rep :: "string set \<Rightarrow> pydict \<Rightarrow> py_error + port_config list" where
  "parse_req_rep L ports = each_result (parse_req_rep_port L) ports"

definition parse_tim :: "pydict \<Rightarrow> py_error + (port_config \<times> u64) list" where
  "parse_tim ports = each_result parse_tim_port ports"

text \<open>One section of the ports: \<^verbatim>\<open>json_ports[key].cast<py::dict>()\<close>, where \<^verbatim>\<open>json_ports\<close> is looked up again each time.\<close>

definition port_section :: "(pyval \<Rightarrow> pydict option) \<Rightarrow> pydict \<Rightarrow> string \<Rightarrow> py_error + pydict" where
  "port_section mk py_comp_config key =
     and_then (py_item ''ports'' (PyDict py_comp_config)) (\<lambda>ports. and_then (py_item key ports) (py_dict mk))"

definition convert_ports :: "(pyval \<Rightarrow> pydict option) \<Rightarrow> string set \<Rightarrow> pydict \<Rightarrow> py_error + ComponentPorts" where
  "convert_ports mk L py_comp_config =
     and_then (port_section mk py_comp_config ''pubs'') (\<lambda>json_pubs.
     and_then (port_section mk py_comp_config ''subs'') (\<lambda>json_subs.
     and_then (port_section mk py_comp_config ''reqs'') (\<lambda>json_reqs.
     and_then (port_section mk py_comp_config ''reps'') (\<lambda>json_reps.
     and_then (port_section mk py_comp_config ''tims'') (\<lambda>json_tims.
     and_then (parse_pub_sub mk L json_subs) (\<lambda>subs.
     and_then (parse_pub_sub mk L json_pubs) (\<lambda>pubs.
     and_then (parse_req_rep L json_reqs) (\<lambda>reqs.
     and_then (parse_req_rep L json_reps) (\<lambda>reps.
     and_then (parse_tim json_tims) (\<lambda>tims.
       Inr \<lparr>cp_clts = [], cp_srvs = [], cp_pubs = pubs, cp_subs = subs, cp_reqs = reqs, cp_reps = reps, cp_tims = tims,
            cp_inss = [], cp_qrys = [], cp_anss = []\<rparr>))))))))))"

definition py_convert ::
  "(pyval \<Rightarrow> pydict option) \<Rightarrow> pydict \<Rightarrow> pydict \<Rightarrow> pydict \<Rightarrow> string set \<Rightarrow> string set \<times> (py_error + ComponentConf)" where
  "py_convert mk py_comp_config py_actor py_args L =
     (case ParseLocals mk py_actor L of
        (L, Some e) \<Rightarrow> (L, Inl e)
      | (L, None) \<Rightarrow>
          (L, and_then (ParseArgs py_args []) (\<lambda>ps.
              and_then (convert_ports mk L py_comp_config) (\<lambda>ports.
                Inr \<lparr>cc_component_name = [], cc_component_type = [], cc_ports = ports, cc_parameters = ps, cc_is_device = False\<rparr>))))"

section \<open>The ports of a converted component\<close>

lemma each_result_Inr: "each_result f xs = Inr ys \<longleftrightarrow> map f xs = map Inr ys"
  by (induction xs arbitrary: ys) (auto simp: and_then_Inr Cons_eq_map_conv map_eq_Cons_conv)

lemma each_result_names:
  assumes "each_result f xs = Inr ys" and "\<And>x y. f x = Inr y \<Longrightarrow> g x = h y"
  shows "map g xs = map h ys"
proof -
  have "list_all2 (\<lambda>x y. f x = Inr y) xs ys"
    using assms(1) unfolding each_result_Inr by (auto simp: list_eq_iff_nth_eq list_all2_conv_all_nth)
  then show ?thesis by (induction rule: list_all2_induct) (auto simp: assms(2))
qed

lemma py_string_Inr [simp]: "py_string v = Inr t \<longleftrightarrow> v = PyStr t"
  by (cases v) (auto simp: py_string_def)

lemma parsed_name:
  "parse_pub_sub_port mk L kv = Inr c \<Longrightarrow> fst kv = PyStr (pc_port_name c)"
  "parse_req_rep_port L kv = Inr c \<Longrightarrow> fst kv = PyStr (pc_port_name c)"
  "parse_tim_port kv = Inr p \<Longrightarrow> fst kv = PyStr (pc_port_name (fst p))"
  by (auto simp: parse_pub_sub_port_def parse_req_rep_port_def parse_tim_port_def and_then_Inr)

text \<open>The ports of the five sections the converter reads, in the order in which they are created, and the sections of
  \<^verbatim>\<open>r_jsonmodel.h\<close> that it does not read.\<close>

definition section_ports :: "(pyval \<Rightarrow> pydict option) \<Rightarrow> pydict \<Rightarrow> string \<times> port_class \<Rightarrow> (pyval \<times> port_class) list" where
  "section_ports mk cmp kc =
     (case port_section mk cmp (fst kc) of Inl _ \<Rightarrow> [] | Inr d \<Rightarrow> map (\<lambda>kv. (fst kv, snd kc)) d)"

definition py_converted :: "(pyval \<Rightarrow> pydict option) \<Rightarrow> pydict \<Rightarrow> (pyval \<times> port_class) list" where
  "py_converted mk cmp = concat (map (section_ports mk cmp)
     [(''tims'', CPeriodicTimer), (''pubs'', CPublisherPort), (''reps'', CResponsePort), (''reqs'', CRequestPort),
      (''subs'', CSubscriberPort)])"

definition ignored_sections :: "string list" where
  "ignored_sections = [''clts'', ''srvs'', ''inss'', ''qrys'', ''anss'']"

lemma convert_ports_sections:
  assumes "convert_ports mk L cmp = Inr ports"
  obtains pubs subs reqs reps tims where
    "port_section mk cmp ''pubs'' = Inr pubs" "port_section mk cmp ''subs'' = Inr subs"
    "port_section mk cmp ''reqs'' = Inr reqs" "port_section mk cmp ''reps'' = Inr reps"
    "port_section mk cmp ''tims'' = Inr tims"
    "each_result (parse_pub_sub_port mk L) pubs = Inr (cp_pubs ports)"
    "each_result (parse_pub_sub_port mk L) subs = Inr (cp_subs ports)"
    "each_result (parse_req_rep_port L) reqs = Inr (cp_reqs ports)"
    "each_result (parse_req_rep_port L) reps = Inr (cp_reps ports)"
    "each_result parse_tim_port tims = Inr (cp_tims ports)"
    "cp_inss ports = []" "cp_qrys ports = []" "cp_anss ports = []"
  using assms
  by (auto simp: convert_ports_def and_then_Inr parse_pub_sub_def parse_req_rep_def parse_tim_def)

lemma convert_ports_created:
  assumes "convert_ports mk L cmp = Inr ports"
  shows "map (\<lambda>d. (PyStr (fst d), snd d)) (created ports) = py_converted mk cmp"
proof -
  from assms obtain pubs subs reqs reps tims where
    sec: "port_section mk cmp ''pubs'' = Inr pubs" "port_section mk cmp ''subs'' = Inr subs"
      "port_section mk cmp ''reqs'' = Inr reqs" "port_section mk cmp ''reps'' = Inr reps"
      "port_section mk cmp ''tims'' = Inr tims"
    and p: "each_result (parse_pub_sub_port mk L) pubs = Inr (cp_pubs ports)"
      "each_result (parse_pub_sub_port mk L) subs = Inr (cp_subs ports)"
      "each_result (parse_req_rep_port L) reqs = Inr (cp_reqs ports)"
      "each_result (parse_req_rep_port L) reps = Inr (cp_reps ports)"
      "each_result parse_tim_port tims = Inr (cp_tims ports)"
    and none: "cp_inss ports = []" "cp_qrys ports = []" "cp_anss ports = []"
    by (rule convert_ports_sections)
  have named: "map (\<lambda>c. (PyStr (pc_port_name c), cls)) (cp_pubs ports) = map (\<lambda>kv. (fst kv, cls)) pubs"
    "map (\<lambda>c. (PyStr (pc_port_name c), cls)) (cp_subs ports) = map (\<lambda>kv. (fst kv, cls)) subs"
    "map (\<lambda>c. (PyStr (pc_port_name c), cls)) (cp_reqs ports) = map (\<lambda>kv. (fst kv, cls)) reqs"
    "map (\<lambda>c. (PyStr (pc_port_name c), cls)) (cp_reps ports) = map (\<lambda>kv. (fst kv, cls)) reps"
    "map (\<lambda>c. (PyStr (pc_port_name (fst c)), cls)) (cp_tims ports) = map (\<lambda>kv. (fst kv, cls)) tims" for cls
    by (rule sym, rule each_result_names [OF p(1)], simp add: parsed_name)
      (rule sym, rule each_result_names [OF p(2)], simp add: parsed_name,
       rule sym, rule each_result_names [OF p(3)], simp add: parsed_name,
       rule sym, rule each_result_names [OF p(4)], simp add: parsed_name,
       rule sym, rule each_result_names [OF p(5)], simp add: parsed_name)
  show ?thesis by (simp add: created_def py_converted_def section_ports_def sec none comp_def named)
qed

lemma py_convert_Inr:
  "py_convert mk cmp actor args L = (L', Inr conf) \<longleftrightarrow>
     ParseLocals mk actor L = (L', None) \<and> ParseArgs args [] = Inr (cc_parameters conf) \<and>
     convert_ports mk L' cmp = Inr (cc_ports conf) \<and> cc_component_name conf = [] \<and> cc_component_type conf = [] \<and> \<not> cc_is_device conf"
  by (cases conf) (auto simp: py_convert_def and_then_Inr split: prod.split option.split)

lemma map_of_map_key: "inj f \<Longrightarrow> map_of (map (\<lambda>d. (f (fst d), snd d)) xs) (f n) = map_of xs n"
  by (induction xs) (auto dest: injD)

text \<open>C38: a component configured from Python starts with exactly the ports of five of the ten sections of its dictionary.  When
  the conversion and the first iteration succeed, every timer, publisher, response, request and subscriber of the
  dictionary is a port of its class, nothing else was created, and the component is well formed.  The sections of
  the client, server, inside, query and answer ports are not read: a port declared only there is not created.\<close>

theorem python_component_starts:
  assumes "py_convert mk cmp actor args L = (L', Inr conf)" "first_run ev (cc_ports conf) s = Inr s'"
    and "comp_ok (su_component s)" "cb_ports (su_component s) = []"
  shows "comp_ok (su_component s') \<and> (\<forall>n. port_classes (su_component s') n = map_of (rev (py_converted mk cmp)) (PyStr n)) \<and>
    (\<forall>key \<in> set ignored_sections. \<forall>d. port_section mk cmp key = Inr d \<longrightarrow> (\<forall>n v. (PyStr n, v) \<in> set d \<and>
       PyStr n \<notin> fst ` set (py_converted mk cmp) \<longrightarrow> port_classes (su_component s') n = None))"
proof -
  have ports: "convert_ports mk L' cmp = Inr (cc_ports conf)" using assms(1) by (simp add: py_convert_Inr)
  have "map_of (rev (py_converted mk cmp)) (PyStr n) = map_of (rev (created (cc_ports conf))) n" for n
    unfolding convert_ports_created [OF ports, symmetric] rev_map
    by (rule map_of_map_key) (simp add: inj_def)
  moreover have "port_classes (su_component s) = Map.empty" using assms(4) by (auto simp: port_classes_def)
  moreover have "map_of (rev (py_converted mk cmp)) k = None" if "k \<notin> fst ` set (py_converted mk cmp)" for k
    using that by (simp add: map_of_eq_None_iff)
  ultimately show ?thesis using first_run_ports [OF assms(2)] assms(3) by (simp add: map_add_def) metis
qed

section \<open>Local message types\<close>

lemma insert_locals_mono: "L \<subseteq> fst (insert_locals mk vs L)"
  by (induction mk vs L rule: insert_locals.induct) (auto split: sum.splits)

lemma ParseLocals_mono: "L \<subseteq> fst (ParseLocals mk actor L)"
  using insert_locals_mono by (auto simp: ParseLocals_def split: sum.split)

lemma each_result_in:
  "each_result f xs = Inr ys \<Longrightarrow> y \<in> set ys \<Longrightarrow> \<exists>x \<in> set xs. f x = Inr y"
  unfolding each_result_Inr by (metis (no_types, lifting) imageE image_eqI list.set_map)

lemma published_local:
  assumes "convert_ports mk L cmp = Inr ports" "c \<in> set (cp_pubs ports) \<union> set (cp_subs ports)"
  shows "pc_is_local c \<longleftrightarrow> pc_message_type c \<in> L"
proof -
  from assms(1) obtain pubs subs where
    "each_result (parse_pub_sub_port mk L) pubs = Inr (cp_pubs ports)"
    "each_result (parse_pub_sub_port mk L) subs = Inr (cp_subs ports)"
    by (rule convert_ports_sections)
  with assms(2) obtain kv where "parse_pub_sub_port mk L kv = Inr c" by (auto dest: each_result_in)
  then show ?thesis by (auto simp: parse_pub_sub_port_def and_then_Inr IsLocal_def)
qed

text \<open>the local message types of one actor are local for every later one.  The set is a static member that is only
  ever added to: after the conversion of any component of an actor that declares a type local, a
  component of another actor, whatever that actor declares, publishes and subscribes it on the loop-back interface.\<close>

theorem locals_leak:
  assumes "ParseLocals mk actor1 L = (L1, r)" "t \<in> L1"
    and "py_convert mk cmp actor2 args L1 = (L2, Inr conf)"
    and "c \<in> set (cp_pubs (cc_ports conf)) \<union> set (cp_subs (cc_ports conf))" "pc_message_type c = t"
  shows "pc_is_local c"
proof -
  have "L1 \<subseteq> L2" "convert_ports mk L2 cmp = Inr (cc_ports conf)"
    using assms(3) ParseLocals_mono [of L1 mk actor2] by (auto simp: py_convert_Inr)
  then show ?thesis using published_local [OF _ assms(4)] assms(2,5) by blast
qed

section \<open>Arguments\<close>

definition arg_text :: "pyval \<Rightarrow> string option" where
  "arg_text v =
     (case v of PyStr s \<Rightarrow> Some s | PyInt i \<Rightarrow> Some (to_string_int i) | PyBool b \<Rightarrow> Some (if b then ''1'' else ''0'')
      | PyFloat x \<Rightarrow> Some (to_string_float x) | _ \<Rightarrow> None)"

lemma ParseArg_get:
  assumes "ParseArg (k, v) ps = Inr ps'"
  obtains name where "k = PyStr name"
    "\<And>n. getParam n ps' = (if n = name \<and> arg_text v \<noteq> None
       then Some \<lparr>pa_name = n, pa_default = [], pa_value = the (arg_text v), pa_optional = False\<rparr> else getParam n ps)"
proof -
  have digits: "to_string_int 1 = ''1''" "to_string_int 0 = ''0''"
    by code_simp+
  from assms obtain name where "k = PyStr name" by (auto simp: ParseArg_def and_then_Inr)
  moreover have "getParam n ps' = (if n = name \<and> arg_text v \<noteq> None
       then Some \<lparr>pa_name = n, pa_default = [], pa_value = the (arg_text v), pa_optional = False\<rparr> else getParam n ps)" for n
    using assms calculation
    by (cases v) (auto simp: ParseArg_def and_then_Inr arg_text_def getParam_add py_int_def py_long_def digits split: if_splits)
  ultimately show thesis by (rule that)
qed

lemma each_port_item: "each_port f xs s = Inr s' \<Longrightarrow> x \<in> set xs \<Longrightarrow> \<exists>q q'. f x q = Inr q'"
  by (induction xs arbitrary: s) (auto split: sum.splits)

lemma ParseArgs_get:
  assumes "each_port ParseArg args ps = Inr ps'" "distinct (map fst args)" "(PyStr n, v) \<in> set args" "arg_text v = Some t"
  shows "getParam n ps' = Some \<lparr>pa_name = n, pa_default = [], pa_value = t, pa_optional = False\<rparr>"
proof -
  have keep: "getParam n ps' = getParam n ps" if "each_port ParseArg args ps = Inr ps'" "PyStr n \<notin> fst ` set args" for args ps ps'
    using that
  proof (induction args arbitrary: ps)
    case (Cons kv args)
    then obtain ps1 where "ParseArg kv ps = Inr ps1" "each_port ParseArg args ps1 = Inr ps'" by (auto split: sum.splits)
    with Cons show ?case by (cases kv) (auto elim!: ParseArg_get)
  qed simp
  show ?thesis using assms(1-3)
  proof (induction args arbitrary: ps)
    case (Cons kv args)
    then obtain ps1 where ps1: "ParseArg kv ps = Inr ps1" "each_port ParseArg args ps1 = Inr ps'" by (auto split: sum.splits)
    show ?case
    proof (cases "kv = (PyStr n, v)")
      case True
      with Cons.prems(2) have "getParam n ps' = getParam n ps1" by (intro keep [OF ps1(2)]) auto
      with ps1(1) True assms(4) show ?thesis by (auto elim!: ParseArg_get)
    next
      case False
      with Cons ps1(2) show ?thesis by simp
    qed
  qed simp
qed

text \<open>C40: the arguments of a component: an integer argument reads back as that integer, but a truth value always
  reads as false.  It passes the check for integers, is stored as \<^verbatim>\<open>1\<close> or \<^verbatim>\<open>0\<close>, and \<^verbatim>\<open>getValueAsBool\<close>
  recognises the words \<^verbatim>\<open>true\<close> and \<^verbatim>\<open>false\<close> only.\<close>

theorem python_arguments:
  assumes "py_convert mk cmp actor args L = (L', Inr conf)" "distinct (map fst args)"
  shows "(\<forall>n i. (PyStr n, PyInt i) \<in> set args \<longrightarrow>
      (\<exists>p. getParam n (cc_parameters conf) = Some p \<and> getValueAsInt p = Some i))
    \<and> (\<forall>n b. (PyStr n, PyBool b) \<in> set args \<longrightarrow>
      (\<exists>p. getParam n (cc_parameters conf) = Some p \<and> \<not> getValueAsBool junk p))"
proof -
  have args: "each_port ParseArg args [] = Inr (cc_parameters conf)" using assms(1) by (simp add: py_convert_Inr ParseArgs_def)
  have get: "getParam n (cc_parameters conf) = Some \<lparr>pa_name = n, pa_default = [], pa_value = t, pa_optional = False\<rparr>"
    if "(PyStr n, v) \<in> set args" "arg_text v = Some t" for n v t
    using ParseArgs_get [OF args assms(2)] that .
  have "\<exists>p. getParam n (cc_parameters conf) = Some p \<and> getValueAsInt p = Some i" if "(PyStr n, PyInt i) \<in> set args" for n i
  proof -
    note item = each_port_item [OF args that]
    then obtain q q' where "ParseArg (PyStr n, PyInt i) q = Inr q'" by blast
    then have "stoi (to_string_int i) = Inr i"
      by (intro stoi_to_string_int) (auto simp: ParseArg_def and_then_Inr py_int_def py_long_def split: if_splits)
    then show ?thesis using get [OF that] by (simp add: arg_text_def getValueAsInt_def)
  qed
  moreover have "\<exists>p. getParam n (cc_parameters conf) = Some p \<and> \<not> getValueAsBool junk p" if "(PyStr n, PyBool b) \<in> set args" for n b
    using get [OF that] by (simp add: arg_text_def getValueAsBool_def is_space_def)
  ultimately show ?thesis by blast
qed

section \<open>Witnesses\<close>

definition ex_py_ports :: "pydict \<Rightarrow> pydict \<Rightarrow> pydict" where
  "ex_py_ports pubs tims = [(PyStr ''ports'', PyDict [(PyStr ''pubs'', PyDict pubs), (PyStr ''subs'', PyDict []),
     (PyStr ''reqs'', PyDict []), (PyStr ''reps'', PyDict []), (PyStr ''tims'', PyDict tims),
     (PyStr ''qrys'', PyDict [(PyStr ''ask'', PyDict [])])])]"

definition ex_py_actor :: "string list \<Rightarrow> pydict" where
  "ex_py_actor ls = [(PyStr ''locals'', PyList (map (\<lambda>t. PyDict [(PyStr ''type'', PyStr t)]) ls))]"

lemmas py_eval = py_convert_def ParseLocals_def ParseArgs_def ParseArg_def convert_ports_def port_section_def
  parse_pub_sub_def parse_req_rep_def parse_tim_def parse_pub_sub_port_def parse_tim_port_def local_type_def
  py_item_def py_iter_def py_dict_def py_string_def py_ulong_def py_int_def py_long_def and_then_def
  ex_py_ports_def ex_py_actor_def IsLocal_def

definition ex_tim_conf :: ComponentPorts where
  "ex_tim_conf = \<lparr>cp_clts = [], cp_srvs = [], cp_pubs = [], cp_subs = [], cp_reqs = [], cp_reps = [], cp_tims = [(ex_cfg ''clock'', 100)],
     cp_inss = [], cp_qrys = [], cp_anss = []\<rparr>"

lemma ex_py_convert:
  "py_convert mk (ex_py_ports [] [(PyStr ''clock'', PyDict [(PyStr ''period'', PyInt 100)])]) (ex_py_actor [])
     [(PyStr ''n'', PyInt 5), (PyStr ''flag'', PyBool True)] {} =
   ({}, Inr \<lparr>cc_component_name = [], cc_component_type = [], cc_ports = ex_tim_conf,
      cc_parameters = addParam ''flag'' (to_string_int 1) False [] (addParam ''n'' (to_string_int 5) False [] []),
      cc_is_device = False\<rparr>)"
  by (simp add: py_eval ex_tim_conf_def ex_cfg_def)

theorem python_component_starts_witness:
  "\<forall>ev. \<exists>s'. first_run ev ex_tim_conf ex_start = Inr s' \<and> port_classes (su_component s') ''clock'' = Some CPeriodicTimer \<and>
     port_classes (su_component s') ''ask'' = None" (is "\<forall>ev. ?P ev")
proof
  fix ev
  let ?cmp = "ex_py_ports [] [(PyStr ''clock'', PyDict [(PyStr ''period'', PyInt 100)])]" and ?mk = "\<lambda>_. None"
  obtain s' where s': "first_run ev ex_tim_conf ex_start = Inr s'"
    by (simp add: first_run_def ex_tim_conf_def and_then_def start_timer_def split_beta Let_def)
  have ok: "comp_ok (su_component ex_start)" "cb_ports (su_component ex_start) = []"
    by (simp_all add: ex_start_def comp_ok_def ComponentBase_new_def om_inv_def um_inv_def)
  have conv: "py_converted ?mk ?cmp = [(PyStr ''clock'', CPeriodicTimer)]"
    by (simp add: py_converted_def section_ports_def py_eval)
  have "port_section ?mk ?cmp ''qrys'' = Inr [(PyStr ''ask'', PyDict [])]" "''qrys'' \<in> set ignored_sections"
    by (simp_all add: py_eval ignored_sections_def)
  then show "?P ev"
    using python_component_starts [OF ex_py_convert, of ev ex_start s' ?mk] s' ok unfolding conv by auto
qed

theorem locals_leak_witness:
  "\<exists>L2 conf. py_convert (\<lambda>_. None) (ex_py_ports [(PyStr ''p'', PyDict [(PyStr ''type'', PyStr ''T'')])] []) (ex_py_actor []) [] {''T''}
     = (L2, Inr conf) \<and> map pc_is_local (cp_pubs (cc_ports conf)) = [True]"
proof -
  have one: "ParseLocals (\<lambda>_. None) (ex_py_actor [''T'']) {} = ({''T''}, None)" by (simp add: py_eval)
  obtain L2 conf where two: "py_convert (\<lambda>_. None) (ex_py_ports [(PyStr ''p'', PyDict [(PyStr ''type'', PyStr ''T'')])] [])
      (ex_py_actor []) [] {''T''} = (L2, Inr conf)"
    and pubs: "\<exists>c. cp_pubs (cc_ports conf) = [c] \<and> pc_message_type c = ''T''"
    by (simp add: py_eval)
  then show ?thesis using locals_leak [OF one _ two, of "''T''"] by force
qed

theorem python_arguments_witness:
  "\<exists>conf p q. snd (py_convert (\<lambda>_. None) (ex_py_ports [] [(PyStr ''clock'', PyDict [(PyStr ''period'', PyInt 100)])]) (ex_py_actor [])
      [(PyStr ''n'', PyInt 5), (PyStr ''flag'', PyBool True)] {}) = Inr conf \<and>
    getParam ''n'' (cc_parameters conf) = Some p \<and> getValueAsInt p = Some 5 \<and>
    getParam ''flag'' (cc_parameters conf) = Some q \<and> \<not> getValueAsBool True q"
proof -
  have "distinct (map fst [(PyStr ''n'', PyInt 5), (PyStr ''flag'', PyBool True)])" by simp
  from python_arguments [where junk = True, OF ex_py_convert [of "\<lambda>_. None"] this] show ?thesis
    by (fastforce simp: ex_py_convert)
qed

end
