(* ===== verification/Callback_Timer.thy ===== *)
theory Callback_Timer
  imports Timers
begin

text \<open>
  The callback timer: \<^verbatim>\<open>src/componentmodel/r_callbacktimer.cc\<close>, the predecessor of the periodic timer, which
  is kept in the repository and is no longer built.  The record \<open>cbtimer\<close> holds the members of the class and the
  locals of its thread with a program counter; what the environment answers to a thread step is \<open>cb_env\<close>.
  Joining the thread lets it run to its end, with fuel for the steps it may take; assigning to a thread object that
  was not joined, or destroying it, ends the process.  Lemmas: three steps are always enough to join, no
  sequence of calls ends the process, and the messages are sent at the multiples of the interval.
\<close>

datatype cb_pc = Cb_begin | Cb_test | Cb_sleep | Cb_end

record cbtimer =
  ct_port_name :: string
  ct_execute :: bool
  ct_joinable :: bool
  ct_pc :: cb_pc
  ct_interval :: int
  ct_now :: int
  ct_sent :: "(string \<times> int) list"

datatype cb_error = Not_joined | Std_terminate

record cb_env =
  ce_clock :: int
  ce_sent :: bool

definition CallBackTimer_new :: "string \<Rightarrow> cbtimer" where
  "CallBackTimer_new name =
     \<lparr>ct_port_name = name, ct_execute = False, ct_joinable = False, ct_pc = Cb_end, ct_interval = 0, ct_now = 0, ct_sent = []\<rparr>"

text \<open>The steps of the thread: the clock is read once; after that the time points are computed, and the
  message, which the socket may refuse, is logged with the time point the thread slept until.\<close>

definition cb_thread :: "cb_env \<Rightarrow> cbtimer \<Rightarrow> cbtimer" where
  "cb_thread ev t =
     (case ct_pc t of
        Cb_begin \<Rightarrow> t\<lparr>ct_now := ce_clock ev, ct_pc := Cb_test\<rparr>
      | Cb_test \<Rightarrow> if ct_execute t then t\<lparr>ct_now := ct_now t + milliseconds * ct_interval t, ct_pc := Cb_sleep\<rparr>
                   else t\<lparr>ct_pc := Cb_end\<rparr>
      | Cb_sleep \<Rightarrow> t\<lparr>ct_sent := ct_sent t @ (if ce_sent ev then [(ct_port_name t, ct_now t)] else []), ct_pc := Cb_test\<rparr>
      | Cb_end \<Rightarrow> t)"

fun cb_join :: "nat \<Rightarrow> (nat \<Rightarrow> cb_env) \<Rightarrow> cbtimer \<Rightarrow> cb_error + cbtimer" where
  "cb_join 0 ev t = (if ct_pc t = Cb_end then Inr (t\<lparr>ct_joinable := False\<rparr>) else Inl Not_joined)"
| "cb_join (Suc n) ev t =
     (if ct_pc t = Cb_end then Inr (t\<lparr>ct_joinable := False\<rparr>) else cb_join n (\<lambda>k. ev (Suc k)) (cb_thread (ev 0) t))"

definition CallBackTimer_stop :: "nat \<Rightarrow> (nat \<Rightarrow> cb_env) \<Rightarrow> cbtimer \<Rightarrow> cb_error + cbtimer" where
  "CallBackTimer_stop fuel ev t =
     (let t = t\<lparr>ct_execute := False\<rparr> in if ct_joinable t then cb_join fuel ev t else Inr t)"

definition CallBackTimer_start :: "nat \<Rightarrow> (nat \<Rightarrow> cb_env) \<Rightarrow> int \<Rightarrow> cbtimer \<Rightarrow> cb_error + cbtimer" where
  "CallBackTimer_start fuel ev interval t =
     (case (if ct_execute t then CallBackTimer_stop fuel ev t else Inr t) of
        Inl e \<Rightarrow> Inl e
      | Inr t \<Rightarrow> if ct_joinable t then Inl Std_terminate
                 else Inr (t\<lparr>ct_execute := True, ct_joinable := True, ct_pc := Cb_begin, ct_interval := interval\<rparr>))"

definition CallBackTimer_is_running :: "cbtimer \<Rightarrow> bool" where
  "CallBackTimer_is_running t \<longleftrightarrow> ct_execute t \<and> ct_joinable t"

definition CallBackTimer_destroy :: "nat \<Rightarrow> (nat \<Rightarrow> cb_env) \<Rightarrow> cbtimer \<Rightarrow> cb_error + cbtimer" where
  "CallBackTimer_destroy fuel ev t =
     (case (if ct_execute t then CallBackTimer_stop fuel ev t else Inr t) of
        Inl e \<Rightarrow> Inl e
      | Inr t \<Rightarrow> if ct_joinable t then Inl Std_terminate else Inr t)"

datatype cb_act = CbThread cb_env | CbStart "nat \<Rightarrow> cb_env" int | CbStop "nat \<Rightarrow> cb_env"

fun cb_do :: "cb_act \<Rightarrow> cbtimer \<Rightarrow> cb_error + cbtimer" where
  "cb_do (CbThread ev) t = Inr (cb_thread ev t)"
| "cb_do (CbStart ev interval) t = CallBackTimer_start 3 ev interval t"
| "cb_do (CbStop ev) t = CallBackTimer_stop 3 ev t"

section \<open>Calls end and never end the process\<close>

definition cb_ok :: "cbtimer \<Rightarrow> bool" where
  "cb_ok t \<longleftrightarrow> ct_joinable t = ct_execute t \<and> (ct_pc t = Cb_end \<longleftrightarrow> \<not> ct_joinable t)"

lemma cb_ok_thread: "cb_ok t \<Longrightarrow> cb_ok (cb_thread ev t)"
  by (auto simp: cb_ok_def cb_thread_def split: cb_pc.split)

text \<open>A thread that is told to end takes at most three steps, and sends only when it was asleep.\<close>

lemma stop_returns:
  assumes "cb_ok t"
  shows "\<exists>t'. CallBackTimer_stop 3 ev t = Inr t' \<and> cb_ok t' \<and> \<not> ct_joinable t' \<and> ct_port_name t' = ct_port_name t \<and>
    ct_sent t' = ct_sent t @ (if ct_pc t = Cb_sleep \<and> ce_sent (ev 0) then [(ct_port_name t, ct_now t)] else [])"
  using assms
  by (cases "ct_pc t") (auto simp: CallBackTimer_stop_def cb_ok_def cb_thread_def numeral_3_eq_3)

lemma start_returns:
  assumes "cb_ok t"
  shows "\<exists>t'. CallBackTimer_start 3 ev i t = Inr t' \<and> cb_ok t' \<and> CallBackTimer_is_running t'"
  using stop_returns [OF assms, of ev] assms by (auto simp: CallBackTimer_start_def CallBackTimer_is_running_def cb_ok_def)

lemma cb_do_ok: "cb_ok t \<Longrightarrow> \<exists>t'. cb_do a t = Inr t' \<and> cb_ok t'"
  by (cases a) (use cb_ok_thread stop_returns start_returns in \<open>fastforce+\<close>)

interpretation callback_loop: event_loop "\<lambda>_. False" cb_do cb_ok
  by unfold_locales (metis cb_do_ok sum.inject(2))

text \<open>whatever calls are made and however the thread is scheduled between them, every call returns, no thread object
  is overwritten or destroyed before its thread was joined, and the timer can be destroyed.\<close>

theorem callback_timer_calls:
  "\<exists>t t'. loop (\<lambda>_. False) cb_do acts (CallBackTimer_new name) = Inr t \<and> CallBackTimer_destroy 3 ev t = Inr t'"
proof -
  have "cb_ok t0 \<Longrightarrow> \<exists>t. loop (\<lambda>_. False) cb_do acts t0 = Inr t" for t0
  proof (induction acts arbitrary: t0)
    case (Cons a acts)
    obtain t1 where "cb_do a t0 = Inr t1" "cb_ok t1" using cb_do_ok [OF Cons.prems] by blast
    then show ?case using Cons.IH by simp
  qed simp
  moreover have new: "cb_ok (CallBackTimer_new name)" by (simp add: cb_ok_def CallBackTimer_new_def)
  ultimately obtain t where t: "loop (\<lambda>_. False) cb_do acts (CallBackTimer_new name) = Inr t" by blast
  then have ok: "cb_ok t" using callback_loop.loop_inv new by blast
  show ?thesis using t stop_returns [OF ok, of ev] ok by (auto simp: CallBackTimer_destroy_def cb_ok_def)
qed

section \<open>The times of the messages\<close>

lemma cb_rounds:
  assumes "ct_pc t = Cb_test" "ct_execute t" "\<forall>k. ce_sent (ev k)"
  shows "\<exists>t'. fold (\<lambda>k. cb_thread (ev k)) [1..<1 + 2 * n] t = t' \<and> ct_pc t' = Cb_test \<and> ct_execute t' \<and>
    ct_interval t' = ct_interval t \<and> ct_port_name t' = ct_port_name t \<and>
    ct_now t' = ct_now t + int n * (milliseconds * ct_interval t) \<and>
    ct_sent t' = ct_sent t @ map (\<lambda>k. (ct_port_name t, ct_now t + int k * (milliseconds * ct_interval t))) [1..<Suc n]"
proof (induction n)
  case (Suc n)
  have "[1..<1 + 2 * Suc n] = [1..<1 + 2 * n] @ [1 + 2 * n, 2 + 2 * n]" by simp
  then show ?case using Suc assms(3) by (auto simp: cb_thread_def algebra_simps)
qed (use assms in simp)

text \<open>the messages of a running timer are sent at the start plus the multiples of the interval, whatever the
  delays of the thread: the clock is read once.\<close>

theorem callback_timer_times:
  assumes "cb_ok t" "CallBackTimer_start 3 ev0 interval t = Inr t0" "\<forall>k. ce_sent (ev k)"
  shows "\<exists>old. ct_sent (fold (\<lambda>k. cb_thread (ev k)) [0..<1 + 2 * n] t0) =
    old @ map (\<lambda>k. (ct_port_name t0, ce_clock (ev 0) + int k * (milliseconds * interval))) [1..<Suc n]"
proof -
  have t0: "ct_pc t0 = Cb_begin" "ct_execute t0" "ct_interval t0 = interval"
    using assms(2) by (auto simp: CallBackTimer_start_def split: sum.splits if_splits)
  define u where "u = cb_thread (ev 0) t0"
  have "fold (\<lambda>k. cb_thread (ev k)) [0..<1 + 2 * n] t0 = fold (\<lambda>k. cb_thread (ev k)) [1..<1 + 2 * n] u"
    using upt_conv_Cons [of 0 "1 + 2 * n"] by (simp add: u_def del: upt_Suc)
  moreover have "ct_pc u = Cb_test" "ct_execute u" "ct_now u = ce_clock (ev 0)" "ct_interval u = interval"
    "ct_port_name u = ct_port_name t0"
    using t0 by (simp_all add: u_def cb_thread_def)
  ultimately show ?thesis using cb_rounds [of u ev n] assms(3) by auto
qed

end
