(* ===== verification/Spec2Isabelle.thy ===== *)
theory Spec2Isabelle
  imports Election_Safety Consensus_Round Device Disco_Service Discoveryd Configuration Py_Config Callback_Timer
begin

text \<open>
  A verification of the RIAPS core, the run-time system for distributed components of smart-grid
  applications: component threads with ports, timers and groups on one side, the discovery daemon that
  connects them on the other.

  \<^bold>\<open>The program and the theories.\<close>

  A component (\<^verbatim>\<open>r_componentbase.cc\<close>) is a thread that polls ports, timers and groups and calls the
  handlers of the application.  Its ports register with, or look up, services through the client of the
  discovery daemon (\<^verbatim>\<open>r_discoverdapi.cc\<close>).  The daemon (\<^verbatim>\<open>r_discoveryd.cc\<close>) finds other nodes by UDP
  beacons, has them checked by the validator, and runs two threads: the message handler
  (\<^verbatim>\<open>r_msghandler.cc\<close>), which keeps registrations and subscriptions and publishes them in a distributed
  hash table, and the tracker (\<^verbatim>\<open>r_dhttracker.cc\<close>), which says whether that table is ready.  Components
  with the same group type form groups (\<^verbatim>\<open>r_group.cc\<close>) that elect a leader and vote on proposals
  (\<^verbatim>\<open>r_grouplead.cc\<close>).

  \<^item> \<open>Riaps_Prelude\<close>: machine integers, the clock, string and number functions of the standard library,
    \<^verbatim>\<open>std::map\<close> and \<^verbatim>\<open>std::unordered_map\<close> behind the locale \<open>kv_store\<close>, the function \<open>loop\<close> that every
    thread runs its events through, and the locales \<open>event_loop\<close> and \<open>machine\<close>, which carry what one step
    keeps to every run, and \<open>simulation\<close>, which carries a refinement of one step to runs.  The
    component thread, the message handler, the main loop of the daemon and the callback timer are instances of \<open>event_loop\<close>, a
    node of an election is one of \<open>simulation\<close>.
  \<^item> \<open>Timeouts\<close>: \<^verbatim>\<open>r_timeout.h\<close>, \<^verbatim>\<open>r_expirable.h\<close>, \<^verbatim>\<open>r_expirablelist.h\<close>, the caches and \<^verbatim>\<open>timespec\<close>
    operators of \<^verbatim>\<open>r_utils.cc\<close>; the contract of a deadline is the locale \<open>deadline\<close>.
  \<^item> \<open>Time_Stamps\<close>: the time stamps of timed messages: the casts of \<^verbatim>\<open>r_senderport.cc\<close> to single and double
    precision, with the rounding of the machine computed exactly over the rationals, the eight bytes of the
    frame, and the way back in \<^verbatim>\<open>r_recvport.cc\<close>.
  \<^item> \<open>Riaps_Messages\<close>: the schemas \<^verbatim>\<open>disco.capnp\<close> and \<^verbatim>\<open>distcoord.capnp\<close> and the group ids.
  \<^item> \<open>Group_Lead\<close>: \<^verbatim>\<open>r_grouplead.cc\<close>, a node as the step function \<open>lead_step\<close> over messages, ticks, proposals
    and votes.  \<open>Election_Safety\<close> adds the changes of the member table (\<open>node_step\<close>), refines a node by an abstract
    voter, and puts nodes into a network, as an inductive reachability relation.
  \<^item> \<open>Group_Ops\<close>: \<^verbatim>\<open>r_group.cc\<close>, the group around the leader logic: ports, heartbeats, messages.
    \<open>Consensus_Round\<close> lets the groups of several members exchange their messages.
  \<^item> \<open>Network\<close>, \<open>Disco_Api\<close>, \<open>Ports\<close>: \<^verbatim>\<open>rfw_network_interfaces.cc\<close>, \<^verbatim>\<open>r_discoverdapi.cc\<close> and the files under
    \<^verbatim>\<open>componentmodel/ports\<close>.
  \<^item> \<open>Timers\<close>: \<^verbatim>\<open>r_periodictimer.cc\<close> and \<^verbatim>\<open>r_oneshottimer.cc\<close>, the timer thread and its callers as
    interleaved steps; \<^verbatim>\<open>Start\<close> and \<^verbatim>\<open>Halt\<close> of a periodic timer, which take no lock, are several steps each.  \<open>Callback_Timer\<close>: \<^verbatim>\<open>r_callbacktimer.cc\<close>, their predecessor, which is no longer built.
  \<^item> \<open>Component\<close>, \<open>Component_Start\<close>, \<open>Device\<close>: \<^verbatim>\<open>r_componentbase.cc\<close>, \<^verbatim>\<open>r_pyactor.cc\<close> and
    \<^verbatim>\<open>r_devicethread.cc\<close>: \<open>first_run\<close> is the first iteration of the component thread, \<open>actor_step\<close> a later one.
  \<^item> \<open>Dht_Store\<close>, \<open>Disco_Handler\<close>, \<open>Disco_Service\<close>: \<^verbatim>\<open>r_dhtdata.cc\<close>, \<^verbatim>\<open>r_lmdb.cc\<close> and \<^verbatim>\<open>r_msghandler.cc\<close>; \<open>Run_step\<close> is one
    iteration of the handler, \<open>Disco_Service\<close> holds the theorems about it.  A key of the hash table is the hash of a
    string or, as OpenDHT documents its constructor, the first forty characters of a string read as digits, the zero
    hash for a shorter one.  The local database is its committed pairs and whether a write transaction was
    left open, in which case the next operation never returns.
  \<^item> \<open>Validator\<close>, \<open>Dht_Tracker\<close>, \<open>Discoveryd\<close>: \<^verbatim>\<open>r_validator.cc\<close>, \<^verbatim>\<open>r_dhttracker.cc\<close>, \<^verbatim>\<open>r_discoveryd.cc\<close> and
    \<^verbatim>\<open>r_riaps_actor.cc\<close>.
  \<^item> \<open>Ini_Reader\<close>: \<^verbatim>\<open>include/INIReader.h\<close>, the parser of the configuration file over its bytes: the line buffer
    of 200 bytes, the fixed buffers of names, and the accessors.
  \<^item> \<open>Configuration\<close>: \<^verbatim>\<open>r_parameter.cc\<close>, \<^verbatim>\<open>rfw_security.cc\<close>, \<^verbatim>\<open>rfw_configuration.cc\<close>.
  \<^item> \<open>Py_Config\<close>: \<^verbatim>\<open>r_pyconfigconverter.h\<close>, which turns the dictionaries an actor written in Python hands over
    into the configuration of a component; what the program uses of Python objects and of their casts is a
    datatype and functions on it.
  \<^item> This theory: the properties that span components.

  \<^bold>\<open>How the code is modelled.\<close>

  The members of a class or the locals of a thread are a record, a method is a function on it that returns
  the new record.  Everything the environment decides is an argument: each reading of a clock (a
  function from the number of the reading, so that no two readings are equal by assumption), random
  numbers, return codes of sockets and of the database, uninitialised memory, the bytes the serialiser
  produces, the cryptography and the contents of the hash table.  Sends, puts and calls of handlers are
  appended to lists in the record.  An exception, an exit or the use of a null pointer is the left
  value of a sum.  Frames that are read as C strings are taken to hold no null character; where it
  matters, for the identities that route answers, the cut is written out as \<open>c_str\<close>.  Integers keep
  their width where the code depends on it (terms of an election, the
  check periods cast to sixteen bits, wake-up offsets, port numbers, intervals); durations and time
  points are unbounded integers in nanoseconds.  Loops that follow a list are structural.  The
  loop that waits for the clock has fuel, and the theorem about it shows that fuel greater than the
  number of early readings is enough; joining the thread of a callback timer has fuel, and three steps are
  shown to be enough.  The repeated lookup is bounded by the code at ten levels and
  is proved to end by a measure, and so is the loop of the configuration parser, whose every piece is not
  empty; the query for the hash table ends after ten attempts.

  \<^bold>\<open>What the theorems show.\<close>

  \<^item> Groups: at most one leader in a term while messages are authentic and timely and a node that starts an election
    counts the whole group, without which a split group has two; the refinement of an abstract voter, and the
    invariant of a node, along every run in which members come and go; when distinct members vote in time, the
    announcement of the leader is the majority vote of the members known at the proposal; over the wire, a proposal reaches the members, their votes the leader and
    the decision the members; actions reach the members with their time in 32 bits; and the ways in which
    restarted timeouts, stale heartbeats and repeated votes break what the code means to do.
  \<^item> Discovery: registration meets lookup under the same key, from the creation of a publisher port to the
    connection of the subscriber; retired services are not offered; renewal is exact; the tables of the
    handler stay consistent through every run; restart disowns old services.
  \<^item> Configuration: a printed configuration file is read back, by the parser for the security switch and by the regular
    expression for the interface; one malformed line switches security off, and the daemon then joins any node.
  \<^item> Nodes: with security on a node joins only when its address was signed; an honest node is accepted; a
    live node is joined once; a tracker is stable exactly when all its nodes were reported found, which, since all
    addresses share one key, says no more than that someone had published.
  \<^item> Components and timers: the first iteration creates, polls and starts exactly what is configured, client and
    server ports excepted, which it ignores; the
    invariant of a component is kept by every iteration; periodic timers do not drift; one-shot timers
    send once per start; the flag of a timer with a period agrees with its thread on every interleaving, and
    a start of a sporadic one is not lost once its flag is set; device threads meet their components.
  \<^item> Ports and messages: bodies, votes and parameters survive their round trips; a query does not, the
    component that receives it drops it.  Time stamps do not either: the sender rounds the seconds to single precision, so the time that is read is within 64 seconds and
    282 nanoseconds of the one that was sent, and sends over 64 seconds carry the same second.
  \<^item> Python actors: exactly the timers, publishers, responses, requests and subscribers of the configuration are
    created under their names by the first iteration of the component thread, the other five sections are not
    read; integer arguments read back as they were given, truth values always as false; the
    local message types of one actor stay in force for the next.

  \<^bold>\<open>Not modelled.\<close>

  The code generated from the schemas, the vendored libraries under \<^verbatim>\<open>include\<close> (json, spdlog,
  pybind11), OpenDHT, ZeroMQ and LMDB themselves, logging and the declarations of the Python modules.
  Of \<^verbatim>\<open>INIReader.h\<close> the accessor \<^verbatim>\<open>GetReal\<close>, which nothing calls.  \<^verbatim>\<open>r_registration.h\<close> is used by nothing.
  Sockets are records of what was bound, connected and sent: delivery between two sockets is a hypothesis
  of the theorems that need it, in the form of the message that arrives.  Apart from \<^verbatim>\<open>Start\<close> and \<^verbatim>\<open>Halt\<close> of a
  periodic timer, calls from two threads on one object are atomic steps.  The request and answer types of a port are
  kept only in its message type.
\<close>

section \<open>From a publisher to a subscriber\<close>

lemma connect_publisher:
  "pt_socket p = Some s \<Longrightarrow> has_security (pt_parent_security p) \<longrightarrow> pt_certificate p \<Longrightarrow> connect e = 0 \<Longrightarrow>
     \<exists>s'. pt_socket (snd (ConnectToPublihser connect e p)) = Some s' \<and> last (so_connected s') = e"
  by (cases "has_security (pt_parent_security p)")
    (auto simp: ConnectToPublihser_def apply_client_cert_def connect_socket_def on_socket_def Let_def)

lemma port_update_connects:
  assumes "GetPortByName name c = Some ps" "pt_type ps = Subscriber" "pc_port_name (pt_config ps) = name" "pt_socket ps = Some s"
    and "has_security (pt_parent_security ps) \<longrightarrow> pt_certificate ps" "connect (''tcp://'' @ host @ '':'' @ to_string_int port) = 0"
  shows "\<exists>a' p s. on_pipe dec_upd connect (Some (last (cb_pipe (HandlePortUpdate name host port c))))
      (ast\<lparr>as_component := HandlePortUpdate name host port c\<rparr>) = Inr (True, a') \<and>
    GetPortByName name (as_component a') = Some p \<and> pt_socket p = Some s \<and>
    last (so_connected s) = ''tcp://'' @ host @ '':'' @ to_string_int port"
proof -
  let ?e = "''tcp://'' @ host @ '':'' @ to_string_int port"
  obtain p s' where p: "snd (ConnectToPublihser connect ?e ps) = p" "pt_config p = pt_config ps" "pt_socket p = Some s'"
    "last (so_connected s') = ?e"
    using connect_publisher [OF assms(4,5), of connect ?e] assms(6) by auto
  have "update_port connect [name, host, to_string_int port] (HandlePortUpdate name host port c) =
      put_port p (HandlePortUpdate name host port c)"
    using assms(1,2) p(1) by (simp add: update_port_def GetPortByName_def HandlePortUpdate_def)
  moreover have "GetPortByName name (put_port p (HandlePortUpdate name host port c)) = Some p"
    using p(2) assms(3) by (simp add: GetPortByName_def put_port_def um_get_put)
  ultimately show ?thesis using p by (simp add: on_pipe_def HandlePortUpdate_def)
qed

text \<open>C2: a publisher reaches a subscriber through the discovery service.  A component creates a publisher port, and
  another has a subscriber port of the same message type and locality; their daemons handle the
  registration the first port sends and the lookup the second one sent.  Then the value that is put into
  the hash table arrives under a key the daemon of the subscriber listens to, this daemon sends the actor of the
  subscriber an update, and handling that update connects the socket of the subscriber port to the
  address the publisher is bound to.\<close>

theorem publisher_reaches_subscriber:
  assumes pub: "PublisherPort_new h bind parent ckey junk pid app actorP cfgP = Inr (pp, ReqServiceReg reg)"
    and bound: "0 \<le> pt_port pp" "pt_port pp < 65536" "CHR '':'' \<notin> set (pt_host pp)"
    and cfg: "pc_message_type cfgS = pc_message_type cfgP" "pc_is_local cfgS = pc_is_local cfgP"
    and req: "SubscribeToService_req app inst actorS ip SUB (scope_of cfgS) (pc_port_name cfgS) (pc_message_type cfgS) = ReqServiceLookup look"
    and daemons: "HandleServiceLookup evL look d = Inr d1" "HandleServiceReg evR reg dR = Inr dR1"
    and local: "pc_is_local cfgP \<Longrightarrow> GetMacAddressStripped (de_host evR) [] = GetMacAddressStripped (de_host evL) []"
    and keys: "de_crypto evR = ck" "d_has_security dR = sec" "crypto_ok ck \<or> \<not> sec"
    and actor: "map_of (d_clients d) (clientKeyBase app actorS) = Some a"
    and live: "map_of (d_zombie_services d) (pt_host pp @ '':'' @ to_string_int (pt_port pp)) = None"
    and sub: "GetPortByName (pc_port_name cfgS) c = Some ps" "pt_type ps = Subscriber" "pt_config ps = cfgS" "pt_socket ps = Some sock"
      "has_security (pt_parent_security ps) \<longrightarrow> pt_certificate ps"
      "connect (''tcp://'' @ pt_host pp @ '':'' @ to_string_int (pt_port pp)) = 0"
  shows "\<exists>key v msg upd a' p s. last (d_dht dR1) = CallPut (InfoHash_get key) v \<and>
     InfoHash_get key \<in> set (d_registered_listeners d1) \<and> on_providers ck sec key [v] = [msg] \<and>
     (ad_socket a, PortUpdate upd) \<in> set (d_sent (HandleDhtMessage t msg d1)) \<and>
     (let c1 = HandlePortUpdate (c_portName (pu_client upd)) (s_host (pu_socket upd)) (s_port (pu_socket upd)) c
      in on_pipe dec_upd connect (Some (last (cb_pipe c1))) (ast\<lparr>as_component := c1\<rparr>) = Inr (True, a')) \<and>
     GetPortByName (pc_port_name cfgS) (as_component a') = Some p \<and> pt_socket p = Some s \<and>
     last (so_connected s) = ''tcp://'' @ pt_host pp @ '':'' @ to_string_int (pt_port pp)"
proof -
  have pp: "pt_config pp = cfgP"
    using pub by (auto simp: PublisherPort_new_def PublisherPortBase_InitSocket_def Let_def snd_def split: sum.splits prod.splits
        dest: secure_and_bind_sig)
  have n: "int (unat (of_int (pt_port pp) :: u16)) = pt_port pp" using bound by (simp add: unsigned_of_int take_bit_int_eq_self)
  have reg: "reg = \<lparr>sr_path = \<lparr>p_appName = app, p_actorName = actorP, p_msgType = pc_message_type cfgP, p_kind = PUB, p_scope = scope_of cfgP\<rparr>,
      sr_socket = \<lparr>s_host = pt_host pp, s_port = pt_port pp\<rparr>, sr_pid = pid\<rparr>"
    using pub pp n by (auto simp: PublisherPort_new_def port_registration_def RegisterService_req_def split: sum.splits)
  have look: "look = \<lparr>sl_path = \<lparr>p_appName = app, p_actorName = [], p_msgType = pc_message_type cfgS, p_kind = SUB, p_scope = scope_of cfgS\<rparr>,
      sl_client = \<lparr>c_actorHost = ip, c_actorName = actorS, c_instanceName = inst, c_portName = pc_port_name cfgS\<rparr>\<rparr>"
    using req by (simp add: SubscribeToService_req_def)
  obtain key v msg upd where del: "last (d_dht dR1) = CallPut (InfoHash_get key) v"
    "InfoHash_get key \<in> set (d_registered_listeners d1)" "on_providers ck sec key [v] = [msg]"
    "(ad_socket a, PortUpdate upd) \<in> set (d_sent (HandleDhtMessage t msg d1))"
    "pu_socket upd = \<lparr>s_host = pt_host pp, s_port = pt_port pp\<rparr>" "c_portName (pu_client upd) = pc_port_name cfgS"
    using service_delivery [OF daemons(1) [unfolded look] daemons(2) [unfolded reg] _ _ _ _ _ keys _ live bound(3,1,2), of a t]
      cfg local actor by (auto simp: scope_of_def)
  show ?thesis
    using port_update_connects [of "pc_port_name cfgS" c ps sock connect "pt_host pp" "pt_port pp" dec_upd ast] sub del
    by (fastforce simp: Let_def)
qed

section \<open>Waiting for the hash table\<close>

lemma query_stable_iff: "query_stable n k answer \<longleftrightarrow> (\<exists>i<n. answer (k + i))"
proof (induction n arbitrary: k)
  case (Suc n)
  have "(\<exists>i<Suc n. answer (k + i)) \<longleftrightarrow> answer k \<or> (\<exists>i<n. answer (Suc k + i))"
    by (auto simp: less_Suc_eq_0_disj)
  then show ?case using Suc [of "Suc k"] by simp
qed simp

text \<open>C26: what a handler knows that waited for the hash table.  \<open>pub\<close> are the texts under whose keys something was published,
  and the replies \<^verbatim>\<open>WaitForDht\<close> reads are the ones the tracker gives.  When it returns true, then at one of at most ten
  queries the tracker was stable, every node it knew had been found, and something was published under the key of that
  node: by the node itself or by another with the same key.  The addresses shorter than forty characters all
  have the zero hash as key, so for them it only says that someone had published, which may be the
  tracker itself.\<close>

theorem wait_for_dht_sound:
  assumes "\<forall>k. tracker_reach (InfoHash_hex ` pub) (ts k)"
    and "\<forall>k. on_tracker_event get now (TrackerMessage [frm, CMD_QUERY_STABLE, ''void'']) (ts k) = Inr (ts' k) \<and>
      last (tr_log (ts' k)) = TrackerReply frm (answer k)"
    and "WaitForDht answer"
  shows "\<exists>k<10. tr_is_stable (ts k) \<and> (\<forall>ip v. map_of (tr_node_list (ts k)) ip = Some v \<longrightarrow>
    fst v \<and> (\<exists>a \<in> pub. InfoHash_hex a = InfoHash_hex ip) \<and> (length ip < 40 \<longrightarrow> zero_hash \<in> InfoHash_hex ` pub))"
proof -
  obtain k where k: "k < 10" "answer k" using assms(3) by (auto simp: WaitForDht_def query_stable_iff)
  have eq: "(ts k)\<lparr>tr_log := tr_log (ts k) @ [TrackerReply frm (tr_is_stable (ts k))]\<rparr> = ts' k"
    using assms(2) [rule_format, of k] by (simp add: on_tracker_event_def)
  have "answer k = tr_is_stable (ts k)"
    using assms(2) [rule_format, of k] by (simp flip: eq)
  then have st: "tr_is_stable (ts k)" using k by simp
  have "fst v \<and> (\<exists>a \<in> pub. InfoHash_hex a = InfoHash_hex ip) \<and> (length ip < 40 \<longrightarrow> zero_hash \<in> InfoHash_hex ` pub)"
    if "map_of (tr_node_list (ts k)) ip = Some v" for ip v
  proof -
    have pub: "fst v" "InfoHash_hex ip \<in> InfoHash_hex ` pub"
      using reach_stable_published [OF assms(1) [rule_format, of k] st that] by simp_all
    obtain a where "a \<in> pub" "InfoHash_hex ip = InfoHash_hex a" using pub(2) by (rule imageE)
    with pub show ?thesis using InfoHash_hex_short [of ip] by metis
  qed
  with k(1) st show ?thesis by blast
qed

section \<open>From the configuration file to the daemon\<close>

lemma open_daemon:
  assumes "daemon_start h False dht_runs key clk endpoint l sp = Inr (d, payload)"
  shows "payload = announcement \<and> daemon_ok d \<and> \<not> dm_has_security d \<and> \<not> v_has_security (dm_validator d) \<and> dm_ipcache d = [] \<and> dm_joins d = []"
  using assms
  by (auto simp: daemon_start_def Let_def DiscoveryValidator_new_def daemon_ok_def om_inv_def split: sum.splits if_splits bool.splits)

text \<open>C17: one malformed line in the configuration file opens a node.  Whatever the lines before it say, security included, and
  whatever follows it: when the file holds a line that is neither a comment nor a section nor a pair of a
  name and a value, the daemon starts without asking for its key and sends the announcement that every node knows, and
  the first beacon with that announcement from any other address makes its sender join, with no signature asked for.\<close>

theorem malformed_conf_opens_node:
  assumes "doc_ok d" "bad_line l" "riaps_conf h = Some (print_lines (doc_lines d @ [l]) @ rest)"
    and "daemon_start h (HasSecurity (riaps_conf h)) dht_runs key clk endpoint listener speaker = Inr (dm, payload)"
    and "ip \<noteq> dm_address dm"
  shows "payload = announcement \<and>
    (\<exists>dm'. daemon_step ck ev (DaemonBeacon (Some ip) (Some announcement)) dm = Inr dm' \<and> dm_joins dm' = [ip])"
proof -
  have "\<not> HasSecurity (riaps_conf h)" using malformed_line_disables_security [OF assms(1,2) refl, of rest] assms(3) by simp
  then have dm: "payload = announcement" "daemon_ok dm" "\<not> v_has_security (dm_validator dm)" "dm_ipcache dm = []" "dm_joins dm = []"
    using open_daemon assms(4) by auto
  have acc: "accepted ck ev (DaemonBeacon (Some ip) (Some announcement)) dm = Some ip"
    using assms(5) dm(3) by (simp add: accepted_def IsValid_def ReplyAll_def)
  moreover have "\<exists>dm'. daemon_step ck ev (DaemonBeacon (Some ip) (Some announcement)) dm = Inr dm'"
    using dm(3) by (simp add: daemon_step_def on_beacon_def IsValid_def ReplyAll_def)
  ultimately show ?thesis using step_accepted(2) dm by fastforce
qed

section \<open>Witnesses\<close>

definition ex_pcfg :: "string \<Rightarrow> port_config" where
  "ex_pcfg name = \<lparr>pc_port_name = name, pc_message_type = ''T'', pc_is_local = True, pc_is_timed = False\<rparr>"

definition ex_subscriber :: component where
  "ex_subscriber = put_port (SubscriberPortBase_new CSubscriberPort (ex_pcfg ''in'') (Some False) False 0)
     (ComponentBase_new False ''id'' 0 ''app'' ''act'' ''comp'')"

definition ex_thread :: actor_state where
  "ex_thread = \<lparr>as_component = ex_subscriber, as_terminated = False\<rparr>"

lemma ex_publisher:
  "\<exists>pp reg. PublisherPort_new ex_host (\<lambda>_. 5555) (Some False) False 0 78 ''app'' ''other'' (ex_pcfg ''out'') = Inr (pp, ReqServiceReg reg) \<and>
     pt_port pp = 5555 \<and> pt_host pp = ''127.0.0.1'' \<and> p_kind (sr_path reg) = PUB"
  by (simp add: PublisherPort_new_def PublisherPortBase_InitSocket_def bind_host_def secure_and_bind_def PortBase_new_def
      ex_pcfg_def has_security_def port_registration_def RegisterService_req_def on_socket_def Let_def)

lemma ex_lookup: "p_kind (sl_path look) = SUB \<Longrightarrow> \<exists>d1. HandleServiceLookup (ex_denv 0) look d = Inr d1"
  by (cases "p_scope (sl_path look) = LOCAL") (simp_all add: HandleServiceLookup_def BuildLookupKey_def Let_def)

lemma ex_register: "p_kind (sr_path reg) = PUB \<Longrightarrow> \<exists>d1. HandleServiceReg (ex_denv 0) reg d = Inr d1"
  by (cases "p_scope (sr_path reg) = LOCAL") (simp_all add: HandleServiceReg_def BuildInsertKeyValuePair_def Let_def)

theorem publisher_reaches_subscriber_witness:
  "\<exists>pp reg d1 msg upd a' p s.
     PublisherPort_new ex_host (\<lambda>_. 5555) (Some False) False 0 78 ''app'' ''other'' (ex_pcfg ''out'') = Inr (pp, ReqServiceReg reg) \<and>
     (5, PortUpdate upd) \<in> set (d_sent (HandleDhtMessage (\<lambda>_. 0) msg d1)) \<and>
     GetPortByName ''in'' (as_component (a' :: actor_state)) = Some p \<and> pt_socket p = Some s \<and> last (so_connected s) = ''tcp://127.0.0.1:5555''"
proof -
  define d where "d = HandleActorReg (ex_denv 0) ex_actor_reg ex_disco"
  have d: "map_of (d_clients d) (clientKeyBase ''app'' ''act'') =
      Some \<lparr>ad_socket = 5, ad_port = 40001, ad_pid = 77, ad_app_name = ''app''\<rparr>" "d_zombie_services d = []"
    by (simp_all add: d_def HandleActorReg_def ex_actor_reg_def Let_def disco_effects om_get_put) (simp_all add: ex_denv_def)
  obtain pp reg where pp: "PublisherPort_new ex_host (\<lambda>_. 5555) (Some False) False 0 78 ''app'' ''other'' (ex_pcfg ''out'') = Inr (pp, ReqServiceReg reg)"
    "pt_port pp = 5555" "pt_host pp = ''127.0.0.1''" "p_kind (sr_path reg) = PUB"
    using ex_publisher by blast
  obtain look where look: "SubscribeToService_req ''app'' ''comp'' ''act'' ''127.0.0.1'' SUB (scope_of (ex_pcfg ''in'')) ''in'' ''T'' = ReqServiceLookup look"
    "p_kind (sl_path look) = SUB"
    by (simp add: SubscribeToService_req_def)
  obtain d1 where d1: "HandleServiceLookup (ex_denv 0) look d = Inr d1"
    using ex_lookup [OF look(2)] by blast
  obtain dR1 where dR1: "HandleServiceReg (ex_denv 0) reg ex_disco = Inr dR1"
    using ex_register [OF pp(4)] by blast
  let ?ps = "SubscriberPortBase_new CSubscriberPort (ex_pcfg ''in'') (Some False) False 0"
  have cfg: "pc_message_type (ex_pcfg n) = ''T''" "pc_is_local (ex_pcfg n)" "pc_port_name (ex_pcfg n) = n" for n
    by (simp_all add: ex_pcfg_def)
  have sub: "GetPortByName (pc_port_name (ex_pcfg ''in'')) ex_subscriber = Some ?ps"
    by (simp add: GetPortByName_def ex_subscriber_def put_port_def ComponentBase_new_def SubscriberPortBase_new_def PortBase_new_def ex_pcfg_def)
  have ps: "pt_type ?ps = Subscriber" "pt_config ?ps = ex_pcfg ''in''" "pt_socket ?ps = Some (zsock_new ZMQ_SUB)"
    "has_security (pt_parent_security ?ps) \<longrightarrow> pt_certificate ?ps"
    by (simp_all add: SubscriberPortBase_new_def PortBase_new_def has_security_def)
  have bound: "0 \<le> pt_port pp" "pt_port pp < 65536" "CHR '':'' \<notin> set (pt_host pp)" using pp by simp_all
  have live: "map_of (d_zombie_services d) (pt_host pp @ '':'' @ to_string_int (pt_port pp)) = None" by (simp add: d)
  have look': "SubscribeToService_req ''app'' ''comp'' ''act'' ''127.0.0.1'' SUB (scope_of (ex_pcfg ''in''))
      (pc_port_name (ex_pcfg ''in'')) (pc_message_type (ex_pcfg ''in'')) = ReqServiceLookup look"
    using look(1) by (simp add: cfg)
  have crypto: "crypto_ok ex_crypto \<or> \<not> True" using ex_crypto_ok by simp
  have ts: "to_string_int 5555 = ''5555''" using ex_port by (simp add: to_string_int_def)
  have m: "pc_message_type (ex_pcfg ''in'') = pc_message_type (ex_pcfg ''out'')" "pc_is_local (ex_pcfg ''in'') = pc_is_local (ex_pcfg ''out'')"
    by (simp_all add: cfg)
  note publisher_reaches_subscriber [OF pp(1) bound m look' d1 dR1 refl _ _ crypto d(1) live sub ps, of "\<lambda>_. 0" "\<lambda>_. 0"
      "\<lambda>_. PortUpdate \<lparr>pu_client = ex_client, pu_scope = LOCAL, pu_socket = \<lparr>s_host = [], s_port = 0\<rparr>\<rparr>" ex_thread]
  then obtain msg upd and a' :: actor_state and p s where "(5, PortUpdate upd) \<in> set (d_sent (HandleDhtMessage (\<lambda>_. 0) msg d1))"
    "GetPortByName ''in'' (as_component a') = Some p" "pt_socket p = Some s" "last (so_connected s) = ''tcp://127.0.0.1:5555''"
    by (auto simp: pp(2,3) ts cfg)
  then show ?thesis using pp(1) by (intro exI conjI)
qed

text \<open>Only the node of the tracker has published, and the handler is told that the hash table is ready with the node
  10.0.0.2 in it.\<close>

theorem wait_for_dht_sound_witness:
  "\<exists>t v. WaitForDht (\<lambda>_. tr_is_stable t) \<and> tracker_reach (InfoHash_hex ` {''10.0.0.1''}) t \<and>
     map_of (tr_node_list t) ''10.0.0.2'' = Some v \<and> fst v"
proof -
  obtain t v where t: "tracker_reach (InfoHash_hex ` {''10.0.0.1''}) t" "tr_is_stable t" "map_of (tr_node_list t) ''10.0.0.2'' = Some v"
    using ex_stable_tracker by blast
  have w: "WaitForDht (\<lambda>_. tr_is_stable t)" using t(2) by (auto simp: WaitForDht_def query_stable_iff intro: exI [of _ 0])
  let ?t' = "t\<lparr>tr_log := tr_log t @ [TrackerReply ''f'' (tr_is_stable t)]\<rparr>"
  have "fst v"
    using wait_for_dht_sound [where pub = "{''10.0.0.1''}" and ts = "\<lambda>_. t" and ts' = "\<lambda>_. ?t'" and answer = "\<lambda>_. tr_is_stable t"
          and frm = "''f''" and get = "\<lambda>_ _. []" and now = 0] t w by (cases v) (auto simp: on_tracker_event_def)
  with w t show ?thesis by blast
qed


definition ex_conf_host :: host_env where
  "ex_conf_host = ex_net\<lparr>riaps_conf := Some (print_lines (doc_lines ex_conf_doc @ [''securty on'']))\<rparr>"

theorem malformed_conf_opens_node_witness:
  "HasSecurity (Some (print_lines (doc_lines ex_conf_doc))) \<and>
   (\<exists>dm payload dm'. daemon_start ex_conf_host (HasSecurity (riaps_conf ex_conf_host)) True None (\<lambda>_. 0) ''tcp://10.0.0.1:7000'' ''h'' ''h'' = Inr (dm, payload) \<and>
     daemon_step ex_keys (ex_daemon_env NoReply 1) (DaemonBeacon (Some ''10.9.9.9'') (Some announcement)) dm = Inr dm' \<and> dm_joins dm' = [''10.9.9.9''])"
proof -
  have conf: "riaps_conf ex_conf_host = Some (print_lines (doc_lines ex_conf_doc @ [''securty on'']) @ [])" by (simp add: ex_conf_host_def)
  have off: "\<not> HasSecurity (riaps_conf ex_conf_host)"
    using malformed_line_disables_security [OF ex_conf_doc_ok ex_bad_line refl, of "[]"] by (simp add: conf)
  have net: "GetConfiguredIface ex_conf_host = ''eth0''" "iflist ex_conf_host = [(''eth0'', ''10.0.0.1'')]" "sys_class_net ex_conf_host n = None" for n
    by code_simp (simp_all add: ex_conf_host_def ex_net_def)
  have "GetFirstGlobalIface ex_conf_host = Inr (''eth0'', ''10.0.0.1'')" by (simp add: GetFirstGlobalIface_def net)
  then have "own_address ex_conf_host = Inr ''10.0.0.1''" "riaps_actor_start ex_conf_host True = Inr True"
    by (simp_all add: own_address_def riaps_actor_start_def GetMacAddressStripped_def GetMacAddress_def GetIPAddress_def CheckIfaceName_def net Let_def)
  then obtain dm where dm: "daemon_start ex_conf_host (HasSecurity (riaps_conf ex_conf_host)) True None (\<lambda>_. 0) ''tcp://10.0.0.1:7000'' ''h'' ''h'' =
      Inr (dm, announcement)" "dm_address dm = ''10.0.0.1''"
    using off by (simp add: daemon_start_def InitNoSecurity_def Let_def)
  then have ip: "''10.9.9.9'' \<noteq> dm_address dm" by simp
  show ?thesis using malformed_conf_opens_node [OF ex_conf_doc_ok ex_bad_line conf dm(1) ip] dm(1) ex_conf_secure by blast
qed

end
